(* ===== verification/Prelude.thy ===== *)
theory Prelude
  imports Main "HOL-Library.Word" "HOL-Library.Multiset" "HOL-Library.List_Lexorder"
    "HOL-Library.Char_ord" "HOL-Library.Monad_Syntax"
begin

text \<open>
  Shared vocabulary of the development: the machine types, the model of
  \<open>std::map\<close> (a key-sorted association list, because the code iterates its maps in
  key order), swaps of list positions, and the theorem collections that the component
  theories extend.

  Conventions used by every component:
  \<^item> \<open>std::chrono::system_clock::time_point\<close> is its tick count, an \<open>int\<close> (signed
    64-bit nanoseconds in the code; operations that could leave that range say so);
  \<^item> \<open>uint32_t\<close> is \<open>u32\<close>, a 32-bit word whose sums wrap around;
  \<^item> a method returns its result paired with the new state of the object;
  \<^item> where the C++ behaviour is undefined (a dangling pointer read, a signed overflow)
    the model's result is \<open>None\<close>.
\<close>

type_synonym u32 = "32 word"
type_synonym time_point = int

named_theorems abs_simps "what an operation does to the abstract state"
named_theorems wf_intros "operations preserve well-formedness"

section \<open>Swapping two positions of a vector\<close>

definition swap :: "'a list \<Rightarrow> nat \<Rightarrow> nat \<Rightarrow> 'a list" where
  "swap xs i j = xs[i := xs ! j, j := xs ! i]"

lemma length_swap [simp]: "length (swap xs i j) = length xs"
  by (simp add: swap_def)

lemma swap_nth:
  "i < length xs \<Longrightarrow> j < length xs \<Longrightarrow>
   swap xs i j ! k = (if k = j then xs ! i else if k = i then xs ! j else xs ! k)"
  by (simp add: swap_def nth_list_update)

lemma mset_swap_positions [simp]:
  "i < length xs \<Longrightarrow> j < length xs \<Longrightarrow> mset (swap xs i j) = mset xs"
  by (cases "i = j") (simp_all add: swap_def mset_swap)

lemma set_swap [simp]:
  "i < length xs \<Longrightarrow> j < length xs \<Longrightarrow> set (swap xs i j) = set xs"
  by (metis mset_eq_setD mset_swap_positions)

section \<open>\<open>std::map\<close> as a key-sorted association list\<close>

text \<open>
  \<open>find\<close> is \<open>map_of\<close>; \<open>smap_put k v\<close> is \<open>m[k] = v\<close>; \<open>smap_del k\<close> is
  \<open>m.erase(k)\<close>. The well-formedness \<open>smap_ok\<close> says that iteration is in strictly
  increasing key order, as \<open>std::map\<close> promises.
\<close>

fun smap_put :: "'k::linorder \<Rightarrow> 'v \<Rightarrow> ('k \<times> 'v) list \<Rightarrow> ('k \<times> 'v) list" where
  "smap_put k v [] = [(k, v)]"
| "smap_put k v ((k', v') # m) =
     (if k < k' then (k, v) # (k', v') # m
      else if k = k' then (k, v) # m
      else (k', v') # smap_put k v m)"

definition smap_del :: "'k \<Rightarrow> ('k \<times> 'v) list \<Rightarrow> ('k \<times> 'v) list" where
  "smap_del k m = filter (\<lambda>e. fst e \<noteq> k) m"

definition smap_ok :: "('k::linorder \<times> 'v) list \<Rightarrow> bool" where
  "smap_ok m \<longleftrightarrow> sorted_wrt (<) (map fst m)"

text \<open>The interface: what a map type owes its users.\<close>

locale std_map =
  fixes find :: "'m \<Rightarrow> 'k \<Rightarrow> 'v option"
    and put :: "'k \<Rightarrow> 'v \<Rightarrow> 'm \<Rightarrow> 'm"
    and del :: "'k \<Rightarrow> 'm \<Rightarrow> 'm"
    and ok :: "'m \<Rightarrow> bool"
  assumes find_put: "find (put k v m) = (find m)(k \<mapsto> v)"
    and find_del: "find (del k m) = (find m)(k := None)"
    and ok_put: "ok m \<Longrightarrow> ok (put k v m)"
    and ok_del: "ok m \<Longrightarrow> ok (del k m)"
begin

lemma find_put_apply: "find (put k v m) k' = (if k' = k then Some v else find m k')"
  by (simp add: find_put)

lemma find_del_apply: "find (del k m) k' = (if k' = k then None else find m k')"
  by (simp add: find_del)

lemma dom_put: "dom (find (put k v m)) = insert k (dom (find m))"
  by (simp add: find_put)

lemma dom_del: "dom (find (del k m)) = dom (find m) - {k}"
  by (simp add: find_del)

lemma put_then_del: "find m k = None \<Longrightarrow> find (del k (put k v m)) = find m"
  by (auto simp: find_put find_del fun_eq_iff)

end

lemma map_of_smap_put: "map_of (smap_put k v m) = (map_of m)(k \<mapsto> v)"
  by (induction k v m rule: smap_put.induct) (auto simp: fun_eq_iff)

lemma map_of_smap_del: "map_of (smap_del k m) = (map_of m)(k := None)"
  by (induction m) (auto simp: smap_del_def fun_eq_iff)

lemma fst_set_smap_put: "fst ` set (smap_put k v m) = insert k (fst ` set m)"
  by (induction k v m rule: smap_put.induct) auto

lemma smap_ok_put: "smap_ok m \<Longrightarrow> smap_ok (smap_put k v m)"
proof (induction k v m rule: smap_put.induct)
  case (2 k v k' v' m)
  then show ?case
    by (auto simp: smap_ok_def fst_set_smap_put dest: less_trans)
qed (simp add: smap_ok_def)

lemma smap_ok_del: "smap_ok m \<Longrightarrow> smap_ok (smap_del k m)"
  by (induction m) (auto simp: smap_ok_def smap_del_def)

interpretation smap: std_map map_of smap_put smap_del smap_ok
  by unfold_locales (auto simp: map_of_smap_put map_of_smap_del smap_ok_put smap_ok_del)

lemmas smap_simps = smap.find_put_apply smap.find_del_apply smap.dom_put smap.dom_del

lemma smap_ok_Nil [simp]: "smap_ok []"
  by (simp add: smap_ok_def)

lemma smap_ok_distinct: "smap_ok m \<Longrightarrow> distinct (map fst m)"
  by (simp add: smap_ok_def strict_sorted_iff)

lemma smap_in_set_iff: "smap_ok m \<Longrightarrow> (k, v) \<in> set m \<longleftrightarrow> map_of m k = Some v"
  by (simp add: smap_ok_distinct)

lemma smap_unique:
  assumes "map_of m = map_of m'" and "smap_ok m" and "smap_ok m'"
  shows "m = m'"
proof -
  have "(k, v) \<in> set m \<longleftrightarrow> (k, v) \<in> set m'" for k v
    using assms by (simp only: smap_in_set_iff)
  then have "set m = set m'" by auto
  moreover have "inj_on fst (set m)" using smap_ok_distinct [OF assms(2)] by (simp add: distinct_map)
  ultimately show ?thesis
    using assms(2,3) by (intro map_sorted_distinct_set_unique [of fst])
      (simp_all add: smap_ok_def strict_sorted_iff)
qed

lemma restrict_drop: "(f(k := None)) |` (- set ks) = f |` (- set (k # ks))"
  by (auto simp: restrict_map_def fun_eq_iff)

lemma restrict_UNIV [simp]: "f |` UNIV = f"
  by (simp add: restrict_map_def)

section \<open>\<open>std::getline\<close>\<close>

text \<open>
  \<open>while (getline(stream, line, sep))\<close>: the pieces of a text between separators, the last
  one also when no separator ends it, unless it is empty. \<open>line\<close> is what was read of the
  current piece, reversed.
\<close>

fun lines_of :: "char \<Rightarrow> string \<Rightarrow> string \<Rightarrow> string list" where
  "lines_of sep [] line = (if line = [] then [] else [rev line])"
| "lines_of sep (c # s) line =
     (if c = sep then rev line # lines_of sep s [] else lines_of sep s (c # line))"

definition getlines :: "string \<Rightarrow> string list" where
  "getlines s = lines_of (CHR 0x0A) s []"

lemma lines_of_line:
  "sep \<notin> set l \<Longrightarrow> lines_of sep (l @ sep # s) acc = (rev acc @ l) # lines_of sep s []"
  by (induction l arbitrary: acc) auto

lemma lines_of_last: "sep \<notin> set l \<Longrightarrow> acc @ l \<noteq> [] \<Longrightarrow> lines_of sep l acc = [rev acc @ l]"
  by (induction l arbitrary: acc) auto

lemma getlines_unlines:
  "\<forall>l \<in> set ls. CHR 0x0A \<notin> set l \<Longrightarrow> getlines (concat (map (\<lambda>l. l @ [CHR 0x0A]) ls)) = ls"
  by (induction ls) (auto simp: getlines_def lines_of_line)

end
