(* ===== verification/Job.thy ===== *)
theory Job
  imports Prelude
begin

text \<open>
  \<open>src/src/common/Job.h\<close>: a resource reservation and its life cycle. The class's
  setters and getters are record updates and selectors; the constructors are
  \<open>new_job\<close> and \<open>job_of_id\<close>, the latter also being the implicit conversion from
  \<open>std::string\<close> that \<open>UnregisterJob(jobid)\<close> goes through.
\<close>

datatype JobEvent = JOBSTART | JOBSTOP

datatype JobState = INITIALIZED | SCHEDULED | ACTIVE | DONE

fun JobStateToString :: "JobState \<Rightarrow> string" where
  "JobStateToString INITIALIZED = ''INITIALIZED''"
| "JobStateToString SCHEDULED = ''SCHEDULED''"
| "JobStateToString ACTIVE = ''ACTIVE''"
| "JobStateToString DONE = ''DONE''"

record Job =
  job_state :: JobState
  job_id :: string
  job_tstart :: time_point
  job_tend :: time_point
  job_osts :: "string list"
  job_throughput :: u32

definition new_job :: "string \<Rightarrow> time_point \<Rightarrow> time_point \<Rightarrow> u32 \<Rightarrow> Job" where
  "new_job jobid tstart tend min_read_throughput_MB =
     \<lparr>job_state = INITIALIZED, job_id = jobid, job_tstart = tstart, job_tend = tend,
      job_osts = [], job_throughput = min_read_throughput_MB\<rparr>"

definition job_of_id :: "string \<Rightarrow> Job" where
  "job_of_id jobid =
     \<lparr>job_state = INITIALIZED, job_id = jobid, job_tstart = 0, job_tend = 0,
      job_osts = [], job_throughput = 0\<rparr>"

lemma job_id_of_id [simp]: "job_id (job_of_id jobid) = jobid"
  by (simp add: job_of_id_def)

section \<open>The life-cycle order\<close>

text \<open>The enumerators' values, 0 to 3, order the states of a job's life.\<close>

fun state_rank :: "JobState \<Rightarrow> nat" where
  "state_rank INITIALIZED = 0"
| "state_rank SCHEDULED = 1"
| "state_rank ACTIVE = 2"
| "state_rank DONE = 3"

lemma state_rank_inject: "state_rank a = state_rank b \<longleftrightarrow> a = b"
  by (cases a; cases b) simp_all

instantiation JobState :: linorder
begin

definition less_eq_JobState :: "JobState \<Rightarrow> JobState \<Rightarrow> bool" where
  "less_eq_JobState a b \<longleftrightarrow> state_rank a \<le> state_rank b"

definition less_JobState :: "JobState \<Rightarrow> JobState \<Rightarrow> bool" where
  "less_JobState a b \<longleftrightarrow> state_rank a < state_rank b"

instance
  by standard (auto simp: less_eq_JobState_def less_JobState_def state_rank_inject)

end

lemmas JobState_order = less_eq_JobState_def less_JobState_def

lemma JobState_bounds [simp]: "INITIALIZED \<le> s" "s \<le> DONE"
  by (cases s; simp add: JobState_order)+

lemma JobStateToString_inject: "JobStateToString a = JobStateToString b \<longleftrightarrow> a = b"
  by (cases a; cases b) simp_all

end
