(* ===== verification/JobPriorityQueue.thy ===== *)
theory JobPriorityQueue
  imports Job
begin

text \<open>
  \<open>src/src/common/JobPriorityQueue.h/.cpp\<close>: the array heap of waiting items. The
  vector \<open>heap_\<close> is a list; an item is pushed once and owned by the queue until it is
  popped, so the pointers are the items themselves. Positions are \<open>nat\<close>: the code's
  \<open>int\<close> arithmetic on them does not overflow while the vector has fewer than
  \<open>2 ^ 30\<close> entries, and the tests \<open>pos_child < 0\<close> are then always false.
\<close>

record WaitingItem =
  wi_jobid :: string
  time_of_event :: time_point
  eventType :: JobEvent

function Up :: "WaitingItem list \<Rightarrow> nat \<Rightarrow> WaitingItem list" where
  "Up queue pos =
     (if pos = 0 then queue
      else let parent = (pos - 1) div 2 in
        if time_of_event (queue ! parent) < time_of_event (queue ! pos)
        then Up (swap queue parent pos) parent
        else queue)"
  by pat_completeness auto
termination
  by (relation "measure snd") auto

declare Up.simps [simp del]

definition Push :: "WaitingItem list \<Rightarrow> WaitingItem \<Rightarrow> WaitingItem list" where
  "Push heap new_item = (let heap' = heap @ [new_item] in Up heap' (length heap' - 1))"

function Down :: "WaitingItem list \<Rightarrow> nat \<Rightarrow> WaitingItem list" where
  "Down queue pos =
     (let pos_child1 = 2 * pos + 1; pos_child2 = 2 * pos + 2 in
      if pos_child1 \<ge> length queue then queue
      else if pos_child2 \<ge> length queue then queue
      else let pos_to_check =
             (if time_of_event (queue ! pos_child1) < time_of_event (queue ! pos_child2)
              then pos_child1 else pos_child2) in
        if time_of_event (queue ! pos) < time_of_event (queue ! pos_to_check) then queue
        else Down (swap queue pos_to_check pos) pos_to_check)"
  by pat_completeness auto
termination
  by (relation "measure (\<lambda>(queue, pos). length queue - pos)") (auto simp: Let_def split: if_splits)

declare Down.simps [simp del]

definition Pop :: "WaitingItem list \<Rightarrow> WaitingItem option \<times> WaitingItem list" where
  "Pop heap =
     (if length heap = 0 then (None, heap)
      else let return_item = heap ! 0;
               heap1 = butlast (heap[0 := heap ! (length heap - 1)])
           in (Some return_item, if length heap1 \<noteq> 0 then Down heap1 0 else heap1))"

definition Peek :: "WaitingItem list \<Rightarrow> WaitingItem option" where
  "Peek heap = (if length heap = 0 then None else Some (heap ! 0))"

text \<open>The loop of \<open>Remove\<close>, from index \<open>i\<close> on.\<close>

function Remove_from :: "WaitingItem list \<Rightarrow> string \<Rightarrow> nat \<Rightarrow> bool \<times> WaitingItem list" where
  "Remove_from heap job i =
     (if i < length heap then
        if wi_jobid (heap ! i) = job then
          let heap1 = heap[i := heap ! (length heap - 1)] in
          if i = length heap - 1 then (True, butlast heap1)
          else (True, Down (butlast heap1) i)
        else Remove_from heap job (Suc i)
      else (False, heap))"
  by pat_completeness auto
termination
  by (relation "measure (\<lambda>(heap, job, i). length heap - i)") auto

declare Remove_from.simps [simp del]

definition Remove :: "WaitingItem list \<Rightarrow> string \<Rightarrow> bool \<times> WaitingItem list" where
  "Remove heap job = Remove_from heap job 0"

section \<open>No operation loses or duplicates an item\<close>

lemma mset_Up: "pos < length q \<Longrightarrow> mset (Up q pos) = mset q"
proof (induction q pos rule: Up.induct)
  case (1 q pos)
  then show ?case
    by (subst Up.simps) (auto simp: Let_def)
qed

lemma length_Up [simp]: "length (Up q pos) = length q"
proof (induction q pos rule: Up.induct)
  case (1 q pos)
  then show ?case by (subst Up.simps) (auto simp: Let_def)
qed

lemma length_Down [simp]: "length (Down q pos) = length q"
proof (induction q pos rule: Down.induct)
  case (1 q pos)
  then show ?case by (subst Down.simps) (auto simp: Let_def)
qed

lemma mset_Down: "mset (Down q pos) = mset q"
proof (induction q pos rule: Down.induct)
  case (1 q pos)
  then show ?case by (subst Down.simps) (auto simp: Let_def)
qed

lemma mset_butlast_update:
  "i < length xs \<Longrightarrow> mset (butlast (xs[i := xs ! (length xs - 1)])) = mset xs - {#xs ! i#}"
proof (induction xs rule: rev_induct)
  case (snoc x xs)
  show ?case
  proof (cases "i = length xs")
    case False
    with snoc.prems have "i < length xs" by simp
    then show ?thesis
      by (simp add: list_update_append butlast_append nth_append mset_update)
  qed (simp add: list_update_append nth_append)
qed simp

lemma add_mset_butlast_update:
  "i < length xs \<Longrightarrow> add_mset (xs ! i) (mset (butlast (xs[i := xs ! (length xs - 1)]))) = mset xs"
  by (simp only: mset_butlast_update) (simp add: nth_mem_mset)

lemma mset_Push: "mset (Push q x) = add_mset x (mset q)"
  by (simp add: Push_def Let_def mset_Up)

lemma Pop_Nil: "Pop [] = (None, [])"
  by (simp add: Pop_def)

lemma Pop_Some_iff: "fst (Pop q) = None \<longleftrightarrow> q = []"
  by (simp add: Pop_def Let_def)

lemma Pop_head: "q \<noteq> [] \<Longrightarrow> fst (Pop q) = Some (q ! 0)"
  by (simp add: Pop_def Let_def)

lemma mset_Pop: "Pop q = (Some x, q') \<Longrightarrow> mset q = add_mset x (mset q')"
  using add_mset_butlast_update [of 0 q]
  by (auto simp: Pop_def Let_def mset_Down simp flip: mset_zero_iff split: if_splits)

lemma Peek_Pop: "Peek q = fst (Pop q)"
  by (simp add: Peek_def Pop_def Let_def)

lemma length_Pop: "Pop q = (Some x, q') \<Longrightarrow> length q = Suc (length q')"
  using mset_Pop [of q x q'] by (metis size_add_mset size_mset)

lemma Remove_from_True:
  "Remove_from q j i = (True, q') \<Longrightarrow>
   \<exists>x. x \<in># mset q \<and> wi_jobid x = j \<and> mset q = add_mset x (mset q')"
proof (induction q j i rule: Remove_from.induct)
  case (1 q j i)
  show ?case
  proof (cases "i < length q \<and> wi_jobid (q ! i) = j")
    case True
    with "1.prems" add_mset_butlast_update [of i q]
    have "mset q = add_mset (q ! i) (mset q')"
      by (auto simp: Remove_from.simps [of q j i] Let_def mset_Down split: if_splits)
    with True show ?thesis by (metis nth_mem_mset)
  next
    case False
    with 1 show ?thesis
      by (auto simp: Remove_from.simps [of q j i] split: if_splits)
  qed
qed

lemma Remove_from_False:
  "Remove_from q j i = (False, q') \<Longrightarrow> q' = q \<and> (\<forall>k. i \<le> k \<and> k < length q \<longrightarrow> wi_jobid (q ! k) \<noteq> j)"
proof (induction q j i rule: Remove_from.induct)
  case (1 q j i)
  then have *: "\<not> (i < length q \<and> wi_jobid (q ! i) = j)"
    by (auto simp: Remove_from.simps [of q j i] Let_def split: if_splits)
  show ?case
  proof (cases "i < length q")
    case True
    with * 1 have "q' = q \<and> (\<forall>k. Suc i \<le> k \<and> k < length q \<longrightarrow> wi_jobid (q ! k) \<noteq> j)"
      by (simp add: Remove_from.simps [of q j i])
    with * True show ?thesis by (metis le_antisym not_less_eq_eq)
  next
    case False
    with "1.prems" show ?thesis by (auto simp: Remove_from.simps [of q j i])
  qed
qed

lemma Remove_True:
  "Remove q j = (True, q') \<Longrightarrow> \<exists>x. wi_jobid x = j \<and> mset q = add_mset x (mset q')"
  unfolding Remove_def by (drule Remove_from_True) blast

lemma Remove_False:
  "Remove q j = (False, q') \<Longrightarrow> q' = q \<and> (\<forall>x\<in>#mset q. wi_jobid x \<noteq> j)"
  unfolding Remove_def by (drule Remove_from_False) (auto simp: in_set_conv_nth)

section \<open>The queue's contract\<close>

text \<open>
  What the job monitor needs of the queue says nothing of the order of delivery: a queue
  is a bag of waiting items. \<open>pending M j\<close> are the items of job \<open>j\<close>, and
  \<open>one_event M\<close> says that no job has two.
\<close>

definition pending :: "WaitingItem multiset \<Rightarrow> string \<Rightarrow> WaitingItem multiset" where
  "pending M j = filter_mset (\<lambda>x. wi_jobid x = j) M"

definition one_event :: "WaitingItem multiset \<Rightarrow> bool" where
  "one_event M \<longleftrightarrow> (\<forall>j. size (pending M j) \<le> 1)"

lemma pending_add_mset:
  "pending (add_mset x M) j = (if wi_jobid x = j then add_mset x (pending M j) else pending M j)"
  by (simp add: pending_def)

lemma pending_empty_iff: "pending M j = {#} \<longleftrightarrow> (\<forall>x\<in>#M. wi_jobid x \<noteq> j)"
  by (auto simp: pending_def filter_mset_eq_conv)

lemma one_event_add_mset:
  "one_event (add_mset x M) \<longleftrightarrow> one_event M \<and> pending M (wi_jobid x) = {#}"
proof -
  have "size (pending (add_mset x M) j) \<le> 1 \<longleftrightarrow>
      (if j = wi_jobid x then pending M j = {#} else size (pending M j) \<le> 1)" for j
    by (simp add: pending_add_mset)
  then show ?thesis
    unfolding one_event_def by (metis size_empty zero_le_one)
qed

locale event_queue =
  fixes empty :: "'q"
    and push :: "'q \<Rightarrow> WaitingItem \<Rightarrow> 'q"
    and pop :: "'q \<Rightarrow> WaitingItem option \<times> 'q"
    and peek :: "'q \<Rightarrow> WaitingItem option"
    and remove :: "'q \<Rightarrow> string \<Rightarrow> bool \<times> 'q"
    and items :: "'q \<Rightarrow> WaitingItem multiset"
  assumes items_empty: "items empty = {#}"
    and items_push: "items (push q x) = add_mset x (items q)"
    and pop_None: "fst (pop q) = None \<longleftrightarrow> items q = {#}"
    and pop_Some: "pop q = (Some x, q') \<Longrightarrow> items q = add_mset x (items q')"
    and peek_pop: "peek q = fst (pop q)"
    and remove_True: "remove q j = (True, q') \<Longrightarrow>
          \<exists>x. wi_jobid x = j \<and> items q = add_mset x (items q')"
    and remove_False: "remove q j = (False, q') \<Longrightarrow>
          q' = q \<and> (\<forall>x\<in>#items q. wi_jobid x \<noteq> j)"
begin

lemma peek_Some: "peek q = Some x \<Longrightarrow> \<exists>q'. pop q = (Some x, q')"
  by (metis peek_pop prod.collapse)

lemma peek_in_items: "peek q = Some x \<Longrightarrow> x \<in># items q"
  by (metis peek_Some pop_Some union_single_eq_member)

lemma one_event_push:
  "one_event (items q) \<Longrightarrow> pending (items q) (wi_jobid x) = {#} \<Longrightarrow> one_event (items (push q x))"
  by (simp add: items_push one_event_add_mset)

lemma one_event_pop:
  "one_event (items q) \<Longrightarrow> pop q = (Some x, q') \<Longrightarrow>
   one_event (items q') \<and> pending (items q') (wi_jobid x) = {#}"
  by (drule pop_Some) (simp add: one_event_add_mset)

lemma remove_iff: "fst (remove q j) \<longleftrightarrow> pending (items q) j \<noteq> {#}"
proof (cases "remove q j")
  case (Pair b q')
  then show ?thesis
    by (cases b) (auto simp: pending_add_mset pending_empty_iff dest!: remove_True remove_False)
qed

lemma remove_one_event:
  assumes "one_event (items q)" and "remove q j = (b, q')"
  shows "one_event (items q')" and "pending (items q') j = {#}"
    and "j' \<noteq> j \<Longrightarrow> pending (items q') j' = pending (items q) j'"
proof -
  have "one_event (items q') \<and> pending (items q') j = {#} \<and>
      (j' \<noteq> j \<longrightarrow> pending (items q') j' = pending (items q) j')"
  proof (cases b)
    case True
    with assms obtain x where "wi_jobid x = j" "items q = add_mset x (items q')"
      by (auto dest: remove_True)
    with assms(1) show ?thesis by (auto simp: one_event_add_mset pending_add_mset)
  next
    case False
    with assms show ?thesis by (auto simp: pending_empty_iff dest: remove_False)
  qed
  then show "one_event (items q')" "pending (items q') j = {#}"
    "j' \<noteq> j \<Longrightarrow> pending (items q') j' = pending (items q) j'" by auto
qed

lemma remove_subset: "remove q j = (b, q') \<Longrightarrow> x \<in># items q' \<Longrightarrow> x \<in># items q"
  by (cases b) (auto dest: remove_True remove_False)

lemma remove_other:
  "remove q j = (b, q') \<Longrightarrow> wi_jobid x \<noteq> j \<Longrightarrow> x \<in># items q' \<longleftrightarrow> x \<in># items q"
  by (cases b) (auto dest!: remove_True remove_False)

end

interpretation jpq: event_queue "[]" Push Pop Peek Remove mset
proof unfold_locales
  show "mset ([] :: WaitingItem list) = {#}" by simp
  show "mset (Push q x) = add_mset x (mset q)" for q x by (rule mset_Push)
  show "fst (Pop q) = None \<longleftrightarrow> mset q = {#}" for q by (simp add: Pop_Some_iff)
  show "mset q = add_mset x (mset q')" if "Pop q = (Some x, q')" for q x q'
    using that by (rule mset_Pop)
  show "Peek q = fst (Pop q)" for q by (rule Peek_Pop)
  show "\<exists>x. wi_jobid x = j \<and> mset q = add_mset x (mset q')" if "Remove q j = (True, q')" for q j q'
    using that by (rule Remove_True)
  show "q' = q \<and> (\<forall>x\<in>#mset q. wi_jobid x \<noteq> j)" if "Remove q j = (False, q')" for q j q'
    using that by (rule Remove_False)
qed

section \<open>The order the heap is built in\<close>

text \<open>
  \<open>Up\<close> moves an item above a parent with an \<^emph>\<open>earlier\<close> time, so pushes build a heap
  whose root is the latest event.
\<close>

definition max_heap :: "WaitingItem list \<Rightarrow> bool" where
  "max_heap q \<longleftrightarrow> (\<forall>i<length q. 0 < i \<longrightarrow>
     time_of_event (q ! i) \<le> time_of_event (q ! ((i - 1) div 2)))"

definition heap_except :: "WaitingItem list \<Rightarrow> nat \<Rightarrow> bool" where
  "heap_except q pos \<longleftrightarrow> (\<forall>i<length q. 0 < i \<longrightarrow>
     (i \<noteq> pos \<longrightarrow> time_of_event (q ! i) \<le> time_of_event (q ! ((i - 1) div 2))) \<and>
     ((i - 1) div 2 = pos \<longrightarrow> 0 < pos \<longrightarrow>
        time_of_event (q ! i) \<le> time_of_event (q ! ((pos - 1) div 2))))"

lemma heap_except_max_heap:
  "heap_except q pos \<Longrightarrow>
   pos = 0 \<or> time_of_event (q ! pos) \<le> time_of_event (q ! ((pos - 1) div 2)) \<Longrightarrow> max_heap q"
  unfolding heap_except_def max_heap_def by (metis not_less_zero)

lemma heap_except_swap:
  assumes heap: "heap_except q pos" and pos: "pos < length q" "0 < pos"
    and p: "p = (pos - 1) div 2"
    and less: "time_of_event (q ! p) < time_of_event (q ! pos)"
  shows "heap_except (swap q p pos) p"
proof -
  let ?q = "swap q p pos"
  have pl: "p < length q" "p < pos" using pos p by auto
  have nth: "?q ! k = (if k = pos then q ! p else if k = p then q ! pos else q ! k)" for k
    using pl pos(1) by (simp add: swap_nth)
  have old: "i < length q \<Longrightarrow> 0 < i \<Longrightarrow> i \<noteq> pos \<Longrightarrow>
      time_of_event (q ! i) \<le> time_of_event (q ! ((i - 1) div 2))"
    and child: "i < length q \<Longrightarrow> 0 < i \<Longrightarrow> (i - 1) div 2 = pos \<Longrightarrow>
      time_of_event (q ! i) \<le> time_of_event (q ! p)" for i
    using heap pos(2) p by (auto simp: heap_except_def)
  have upper: "time_of_event (?q ! i) \<le> time_of_event (?q ! ((i - 1) div 2))"
    if i: "i < length q" "0 < i" "i \<noteq> p" for i
  proof (cases "i = pos")
    case True
    then have "(i - 1) div 2 = p" using p by simp
    with True less pl show ?thesis by (simp only: nth) simp
  next
    case False
    with i less pl old [OF i(1,2)] child [OF i(1,2)] show ?thesis
      by (simp only: nth) (auto split: if_splits)
  qed
  have lower: "time_of_event (?q ! i) \<le> time_of_event (?q ! ((p - 1) div 2))"
    if i: "i < length q" "0 < i" "(i - 1) div 2 = p" "0 < p" for i
  proof -
    have g: "time_of_event (q ! p) \<le> time_of_event (q ! ((p - 1) div 2))"
      using old [of p] i pl by auto
    have ne: "(p - 1) div 2 \<noteq> p" "(p - 1) div 2 \<noteq> pos" "i \<noteq> p"
      using i pl by auto
    show ?thesis
      using g old [OF i(1,2)] i(3) ne by (simp only: nth) (auto split: if_splits)
  qed
  from upper lower show ?thesis unfolding heap_except_def by simp
qed

lemma Up_max_heap: "pos < length q \<Longrightarrow> heap_except q pos \<Longrightarrow> max_heap (Up q pos)"
proof (induction q pos rule: Up.induct)
  case (1 q pos)
  show ?case
  proof (cases "0 < pos \<and> time_of_event (q ! ((pos - 1) div 2)) < time_of_event (q ! pos)")
    case True
    with "1.IH" "1.prems" heap_except_swap [of q pos "(pos - 1) div 2"] show ?thesis
      by (auto simp: Up.simps [of q pos] Let_def)
  next
    case False
    with "1.prems"(2) show ?thesis
      by (auto simp: Up.simps [of q pos] Let_def intro: heap_except_max_heap)
  qed
qed

lemma max_heap_Push: "max_heap q \<Longrightarrow> max_heap (Push q x)"
  unfolding Push_def Let_def
  by (rule Up_max_heap) (auto simp: heap_except_def max_heap_def nth_append)

lemma max_heap_root:
  "max_heap q \<Longrightarrow> i < length q \<Longrightarrow> time_of_event (q ! i) \<le> time_of_event (q ! 0)"
proof (induction i rule: less_induct)
  case (less i)
  show ?case
  proof (cases "i = 0")
    case False
    with less.prems have "time_of_event (q ! i) \<le> time_of_event (q ! ((i - 1) div 2))"
      by (simp add: max_heap_def)
    also have "\<dots> \<le> time_of_event (q ! 0)"
      using less.IH [of "(i - 1) div 2"] less.prems False by auto
    finally show ?thesis .
  qed simp
qed

lemma max_heap_peek:
  assumes "max_heap q" and "Peek q = Some x" and "y \<in> set q"
  shows "time_of_event y \<le> time_of_event x"
proof -
  obtain i where "i < length q" "q ! i = y" using assms(3) by (metis in_set_conv_nth)
  with max_heap_root [OF assms(1), of i] have "time_of_event y \<le> time_of_event (q ! 0)" by simp
  moreover have "q ! 0 = x" using assms(2) by (auto simp: Peek_def split: if_splits)
  ultimately show ?thesis by simp
qed

lemma max_heap_foldl_Push: "max_heap q \<Longrightarrow> max_heap (foldl Push q xs)"
  by (induction xs arbitrary: q) (auto simp: max_heap_Push)

lemma mset_foldl_Push: "mset (foldl Push q xs) = mset q + mset xs"
  by (induction xs arbitrary: q) (auto simp: mset_Push)

section \<open>Popping until the queue is empty\<close>

function drain :: "WaitingItem list \<Rightarrow> WaitingItem list" where
  "drain q = (case Pop q of (None, _) \<Rightarrow> [] | (Some x, q') \<Rightarrow> x # drain q')"
  by pat_completeness auto
termination
  by (relation "measure length") (auto dest: length_Pop [OF sym])

declare drain.simps [simp del]

lemma mset_drain: "mset (drain q) = mset q"
proof (induction q rule: drain.induct)
  case (1 q)
  then show ?case
    by (subst drain.simps) (auto simp: mset_Pop Pop_Some_iff split: prod.split option.split
        dest: arg_cong [where f = fst])
qed

end
