(* ===== verification/WaitingItems.thy ===== *)
theory WaitingItems
  imports JobPriorityQueue
begin

text \<open>
  The event queue as the code has it: \<open>heap_\<close> is a vector of pointers to \<open>WaitingItem\<close> objects
  that the monitor allocates and deletes (\<open>src/src/common/JobPriorityQueue.cpp\<close>, and the \<open>new\<close>
  and \<open>delete\<close> of \<open>JobMonitor.cpp\<close>). The objects live in a store of addresses that are never
  used twice; the read of a deleted object is \<open>None\<close>. The operations are those of
  \<open>JobPriorityQueue\<close> on the pointers, and the lemmas say that on live objects they do to the
  objects what those do to the items, and who owns an object afterwards.
\<close>

type_synonym item_store = "nat \<Rightarrow> WaitingItem option"

record ItemQueue =
  item_objects :: item_store
  next_item :: nat
  item_heap :: "nat list"

definition event_time :: "item_store \<Rightarrow> nat \<Rightarrow> time_point option" where
  "event_time h a = map_option time_of_event (h a)"

function ptr_Up :: "item_store \<Rightarrow> nat list \<Rightarrow> nat \<Rightarrow> nat list option" where
  "ptr_Up h queue pos =
     (if pos = 0 then Some queue
      else let parent = (pos - 1) div 2 in
        (case (event_time h (queue ! parent), event_time h (queue ! pos)) of
           (Some t, Some u) \<Rightarrow>
             if t < u then ptr_Up h (swap queue parent pos) parent else Some queue
         | _ \<Rightarrow> None))"
  by pat_completeness auto
termination
  by (relation "measure (\<lambda>(h, queue, pos). pos)") auto

function ptr_Down :: "item_store \<Rightarrow> nat list \<Rightarrow> nat \<Rightarrow> nat list option" where
  "ptr_Down h queue pos =
     (let pos_child1 = 2 * pos + 1; pos_child2 = 2 * pos + 2 in
      if pos_child1 \<ge> length queue then Some queue
      else if pos_child2 \<ge> length queue then Some queue
      else
        (case (event_time h (queue ! pos_child1), event_time h (queue ! pos_child2),
               event_time h (queue ! pos)) of
           (Some t1, Some t2, Some t) \<Rightarrow>
             let pos_to_check = (if t1 < t2 then pos_child1 else pos_child2) in
             if t < (if t1 < t2 then t1 else t2) then Some queue
             else ptr_Down h (swap queue pos_to_check pos) pos_to_check
         | _ \<Rightarrow> None))"
  by pat_completeness auto
termination
  by (relation "measure (\<lambda>(h, queue, pos). length queue - pos)") (auto simp: Let_def split: if_splits)

declare ptr_Up.simps [simp del] ptr_Down.simps [simp del]

text \<open>\<open>new WaitingItem\<close> and \<open>delete\<close>.\<close>

definition new_WaitingItem :: "WaitingItem \<Rightarrow> ItemQueue \<Rightarrow> nat \<times> ItemQueue" where
  "new_WaitingItem wt s =
     (next_item s, s\<lparr>item_objects := (item_objects s)(next_item s \<mapsto> wt), next_item := next_item s + 1\<rparr>)"

definition delete_WaitingItem :: "nat \<Rightarrow> ItemQueue \<Rightarrow> ItemQueue option" where
  "delete_WaitingItem a s =
     (if item_objects s a = None then None
      else Some (s\<lparr>item_objects := (item_objects s)(a := None)\<rparr>))"

text \<open>The constructor reserves room for a hundred pointers; the vector is empty.\<close>

definition JobPriorityQueue_new :: ItemQueue where
  "JobPriorityQueue_new = \<lparr>item_objects = (\<lambda>_. None), next_item = 0, item_heap = []\<rparr>"

definition ptr_Peek :: "ItemQueue \<Rightarrow> nat option" where
  "ptr_Peek s = (if length (item_heap s) = 0 then None else Some (item_heap s ! 0))"

definition ptr_Push :: "nat \<Rightarrow> ItemQueue \<Rightarrow> ItemQueue option" where
  "ptr_Push a s =
     (let heap' = item_heap s @ [a] in
      map_option (\<lambda>q. s\<lparr>item_heap := q\<rparr>) (ptr_Up (item_objects s) heap' (length heap' - 1)))"

definition ptr_Pop :: "ItemQueue \<Rightarrow> (nat option \<times> ItemQueue) option" where
  "ptr_Pop s =
     (let heap = item_heap s in
      if length heap = 0 then Some (None, s)
      else let heap1 = butlast (heap[0 := heap ! (length heap - 1)]) in
        map_option (\<lambda>q. (Some (heap ! 0), s\<lparr>item_heap := q\<rparr>))
          (if length heap1 \<noteq> 0 then ptr_Down (item_objects s) heap1 0 else Some heap1))"

text \<open>\<open>Remove\<close> takes the pointer out of the vector and forgets it.\<close>

function ptr_Remove_from :: "item_store \<Rightarrow> nat list \<Rightarrow> string \<Rightarrow> nat \<Rightarrow> (bool \<times> nat list) option" where
  "ptr_Remove_from h heap job i =
     (if i < length heap then
        (case h (heap ! i) of
           None \<Rightarrow> None
         | Some wt \<Rightarrow>
             if wi_jobid wt = job then
               let heap1 = heap[i := heap ! (length heap - 1)] in
               if i = length heap - 1 then Some (True, butlast heap1)
               else map_option (Pair True) (ptr_Down h (butlast heap1) i)
             else ptr_Remove_from h heap job (Suc i))
      else Some (False, heap))"
  by pat_completeness auto
termination
  by (relation "measure (\<lambda>(h, heap, job, i). length heap - i)") auto

declare ptr_Remove_from.simps [simp del]

definition ptr_Remove :: "string \<Rightarrow> ItemQueue \<Rightarrow> (bool \<times> ItemQueue) option" where
  "ptr_Remove job s =
     map_option (\<lambda>(b, q). (b, s\<lparr>item_heap := q\<rparr>)) (ptr_Remove_from (item_objects s) (item_heap s) job 0)"

section \<open>What the pointers point to\<close>

definition all_live :: "item_store \<Rightarrow> nat list \<Rightarrow> bool" where
  "all_live h q \<longleftrightarrow> (\<forall>a\<in>set q. h a \<noteq> None)"

definition deref :: "item_store \<Rightarrow> nat list \<Rightarrow> WaitingItem list" where
  "deref h q = map (the \<circ> h) q"

lemma length_deref [simp]: "length (deref h q) = length q"
  by (simp add: deref_def)

lemma deref_nth: "i < length q \<Longrightarrow> deref h q ! i = the (h (q ! i))"
  by (simp add: deref_def)

lemma deref_swap: "i < length q \<Longrightarrow> j < length q \<Longrightarrow> deref h (swap q i j) = swap (deref h q) i j"
  by (simp add: deref_def swap_def map_update)

lemma all_live_swap: "i < length q \<Longrightarrow> j < length q \<Longrightarrow> all_live h (swap q i j) = all_live h q"
  by (simp add: all_live_def)

lemma event_time_live:
  "all_live h q \<Longrightarrow> i < length q \<Longrightarrow> event_time h (q ! i) = Some (time_of_event (deref h q ! i))"
  by (auto simp: all_live_def event_time_def deref_nth dest!: bspec [where x = "q ! i"])

text \<open>Sifting moves pointers as it moves items.\<close>

lemma ptr_Up_deref:
  "all_live h q \<Longrightarrow> pos < length q \<Longrightarrow>
   \<exists>q'. ptr_Up h q pos = Some q' \<and> deref h q' = Up (deref h q) pos \<and> mset q' = mset q"
proof (induction h q pos rule: ptr_Up.induct)
  case (1 h q pos)
  let ?parent = "(pos - 1) div 2"
  show ?case
  proof (cases "pos = 0")
    case True
    then show ?thesis by (simp add: ptr_Up.simps Up.simps)
  next
    case False
    with "1.prems" have parent: "?parent < length q" by linarith
    note t = event_time_live [OF "1.prems"(1) parent] event_time_live [OF "1.prems"]
    show ?thesis
    proof (cases "time_of_event (deref h q ! ?parent) < time_of_event (deref h q ! pos)")
      case True
      from "1.IH" [OF False refl _ t True] "1.prems" parent
      have "\<exists>q'. ptr_Up h (swap q ?parent pos) ?parent = Some q' \<and>
        deref h q' = Up (deref h (swap q ?parent pos)) ?parent \<and> mset q' = mset (swap q ?parent pos)"
        by (simp add: all_live_swap t)
      with True False t parent "1.prems" show ?thesis
        by (subst ptr_Up.simps, subst Up.simps) (simp add: Let_def deref_swap)
    next
      case False': False
      with False t show ?thesis by (subst ptr_Up.simps, subst Up.simps) (simp add: Let_def)
    qed
  qed
qed

lemma ptr_Down_deref:
  "all_live h q \<Longrightarrow> pos < length q \<Longrightarrow>
   \<exists>q'. ptr_Down h q pos = Some q' \<and> deref h q' = Down (deref h q) pos \<and> mset q' = mset q"
proof (induction "length q - pos" arbitrary: q pos rule: less_induct)
  case less
  let ?c1 = "2 * pos + 1" and ?c2 = "2 * pos + 2" and ?d = "deref h q"
  show ?case
  proof (cases "?c2 < length q")
    case False
    then show ?thesis by (auto simp: ptr_Down.simps [of h q] Down.simps [of ?d] Let_def)
  next
    case True
    then have c: "\<not> length q \<le> ?c1" "\<not> length q \<le> ?c2" by simp_all
    note t = event_time_live [OF less.prems(1), of ?c1] event_time_live [OF less.prems(1), of ?c2]
      event_time_live [OF less.prems]
    let ?c = "if time_of_event (?d ! ?c1) < time_of_event (?d ! ?c2) then ?c1 else ?c2"
    have chosen: "?c < length q" and time: "(if time_of_event (?d ! ?c1) < time_of_event (?d ! ?c2)
        then time_of_event (?d ! ?c1) else time_of_event (?d ! ?c2)) = time_of_event (?d ! ?c)"
      using True by simp_all
    show ?thesis
    proof (cases "time_of_event (?d ! pos) < time_of_event (?d ! ?c)")
      case True
      with c t chosen show ?thesis
        by (subst ptr_Down.simps, subst Down.simps) (simp add: Let_def split: if_splits)
    next
      case False
      have "length (swap q ?c pos) - ?c < length q - pos" using chosen less.prems(2) by auto
      from less.hyps [OF this] less.prems chosen
      have "\<exists>q'. ptr_Down h (swap q ?c pos) ?c = Some q' \<and>
        deref h q' = Down (deref h (swap q ?c pos)) ?c \<and> mset q' = mset (swap q ?c pos)"
        by (simp add: all_live_swap)
      with c t chosen False less.prems show ?thesis
        by (subst ptr_Down.simps, subst Down.simps) (simp add: Let_def deref_swap split: if_splits)
    qed
  qed
qed


lemma ptr_Remove_from_deref:
  "all_live h q \<Longrightarrow>
   \<exists>b q'. ptr_Remove_from h q job i = Some (b, q') \<and> (b, deref h q') = Remove_from (deref h q) job i \<and>
     (if b then \<exists>a. mset q = add_mset a (mset q') else q' = q)"
proof (induction "length q - i" arbitrary: i rule: less_induct)
  case less
  show ?case
  proof (cases "i < length q")
    case False
    then show ?thesis by (auto simp: ptr_Remove_from.simps [of h q] Remove_from.simps [of "deref h q"])
  next
    case i: True
    then obtain wt where wt: "h (q ! i) = Some wt"
      using less.prems by (auto simp: all_live_def dest!: bspec [where x = "q ! i"])
    then have d: "deref h q ! i = wt" using i by (simp add: deref_nth)
    let ?q1 = "butlast (q[i := q ! (length q - 1)])"
    have "q ! (length q - 1) \<in> set q" using i by (intro nth_mem) simp
    then have "set ?q1 \<subseteq> set q"
      using set_update_subset_insert [of q i "q ! (length q - 1)"] by (auto dest: in_set_butlastD)
    then have q1: "all_live h ?q1" using less.prems by (auto simp: all_live_def)
    have d1: "deref h ?q1 = butlast ((deref h q)[i := deref h q ! (length q - 1)])"
      using i by (simp add: deref_def map_butlast map_update)
    have m1: "mset q = add_mset (q ! i) (mset ?q1)" using add_mset_butlast_update [OF i] by simp
    show ?thesis
    proof (cases "wi_jobid wt = job")
      case False
      then have "\<exists>b q'. ptr_Remove_from h q job (Suc i) = Some (b, q') \<and>
          (b, deref h q') = Remove_from (deref h q) job (Suc i) \<and>
          (if b then \<exists>a. mset q = add_mset a (mset q') else q' = q)"
        using less.hyps [of "Suc i"] less.prems i by simp
      with i wt d False show ?thesis
        by (subst ptr_Remove_from.simps, subst Remove_from.simps) simp
    next
      case job: True
      show ?thesis
      proof (cases "i = length q - 1")
        case True
        with i wt d job d1 m1 show ?thesis
          by (subst ptr_Remove_from.simps, subst Remove_from.simps) (auto simp: Let_def)
      next
        case False
        then have "i < length ?q1" using i by simp
        from ptr_Down_deref [OF q1 this] obtain q' where "ptr_Down h ?q1 i = Some q'"
          "deref h q' = Down (deref h ?q1) i" "mset q' = mset ?q1" by blast
        with i wt d job d1 m1 False show ?thesis
          by (subst ptr_Remove_from.simps, subst Remove_from.simps) (auto simp: Let_def)
      qed
    qed
  qed
qed

section \<open>Ownership\<close>

text \<open>
  No pointer is in the vector twice, all of them and those in \<open>held\<close> (items popped and not yet
  deleted) point to live objects, and \<open>lost\<close> are the live objects nobody has a pointer to.
\<close>

definition owned :: "nat set \<Rightarrow> nat set \<Rightarrow> ItemQueue \<Rightarrow> bool" where
  "owned held lost s \<longleftrightarrow> distinct (item_heap s) \<and>
     dom (item_objects s) = set (item_heap s) \<union> held \<union> lost \<and>
     set (item_heap s) \<inter> held = {} \<and> set (item_heap s) \<inter> lost = {} \<and> held \<inter> lost = {} \<and>
     (\<forall>a\<in>dom (item_objects s). a < next_item s)"

definition items_of :: "ItemQueue \<Rightarrow> WaitingItem list" where
  "items_of s = deref (item_objects s) (item_heap s)"

lemma owned_live: "owned held lost s \<Longrightarrow> all_live (item_objects s) (item_heap s)"
  by (auto simp: owned_def all_live_def)

text \<open>\<open>RegisterJob\<close> and \<open>StartJob\<close>: a new object is pushed.\<close>

definition push_new :: "WaitingItem \<Rightarrow> ItemQueue \<Rightarrow> ItemQueue option" where
  "push_new wt s = (case new_WaitingItem wt s of (a, s1) \<Rightarrow> ptr_Push a s1)"

lemma push_new_spec:
  assumes "owned held lost s"
  shows "\<exists>s'. push_new wt s = Some s' \<and> items_of s' = Push (items_of s) wt \<and> owned held lost s'"
proof -
  let ?a = "next_item s" and ?h = "(item_objects s)(next_item s \<mapsto> wt)"
  have fresh: "?a \<notin> dom (item_objects s)" using assms by (auto simp: owned_def)
  then have new: "?a \<notin> set (item_heap s)" "?a \<notin> held" "?a \<notin> lost" using assms by (auto simp: owned_def)
  have l: "all_live ?h (item_heap s @ [?a])" using owned_live [OF assms] by (simp add: all_live_def)
  have d: "deref ?h (item_heap s @ [?a]) = items_of s @ [wt]"
    using new(1) by (auto simp: deref_def items_of_def)
  obtain q where q: "ptr_Up ?h (item_heap s @ [?a]) (length (item_heap s)) = Some q"
    "deref ?h q = Up (items_of s @ [wt]) (length (item_heap s))" "mset q = mset (item_heap s @ [?a])"
    using ptr_Up_deref [OF l, of "length (item_heap s)"] d by auto
  have "set q = insert ?a (set (item_heap s))" using mset_eq_setD [OF q(3)] by simp
  moreover have "distinct q"
    using mset_eq_imp_distinct_iff [OF q(3)] new(1) assms by (simp add: owned_def)
  ultimately show ?thesis using q assms new fresh
    by (auto simp: push_new_def new_WaitingItem_def ptr_Push_def Let_def items_of_def Push_def owned_def
        less_Suc_eq)
qed

lemma taken_out:
  assumes "mset q0 = add_mset a (mset q)" and "distinct q0"
  shows "distinct q" "a \<notin> set q" "set q0 = insert a (set q)"
proof -
  have "mset q0 = mset (a # q)" using assms(1) by simp
  from mset_eq_setD [OF this] mset_eq_imp_distinct_iff [OF this] assms(2)
  show "distinct q" "a \<notin> set q" "set q0 = insert a (set q)" by simp_all
qed

lemma owned_taken_out:
  assumes "owned held lost s" and "mset (item_heap s) = add_mset a (mset q)"
  shows "owned (insert a held) lost (s\<lparr>item_heap := q\<rparr>)" "owned held (insert a lost) (s\<lparr>item_heap := q\<rparr>)"
    "a \<notin> held" "a \<notin> lost" "a \<in> dom (item_objects s)"
  using assms(1) taken_out [OF assms(2)] by (auto simp: owned_def)

text \<open>The monitor's turn: an object is popped, handled and deleted.\<close>

lemma ptr_Pop_spec:
  assumes own: "owned held lost s" and "item_heap s \<noteq> []"
  shows "\<exists>a s' wt. ptr_Pop s = Some (Some a, s') \<and> item_objects s' a = Some wt \<and>
    Pop (items_of s) = (Some wt, items_of s') \<and> owned (insert a held) lost s' \<and> a \<notin> held"
proof -
  let ?h = "item_objects s" and ?q = "item_heap s"
  let ?q1 = "butlast (?q[0 := ?q ! (length ?q - 1)])"
  have ne: "0 < length ?q" using assms(2) by simp
  have m1: "mset ?q = add_mset (?q ! 0) (mset ?q1)" using add_mset_butlast_update [OF ne] by simp
  have d1: "deref ?h ?q1 = butlast ((deref ?h ?q)[0 := deref ?h ?q ! (length ?q - 1)])"
    using ne by (simp add: deref_def map_butlast map_update)
  have l1: "all_live ?h ?q1"
    using owned_live [OF own] taken_out(3) [OF m1] own by (auto simp: all_live_def owned_def)
  obtain q where q: "(if length ?q1 \<noteq> 0 then ptr_Down ?h ?q1 0 else Some ?q1) = Some q"
    "deref ?h q = (if length ?q1 \<noteq> 0 then Down (deref ?h ?q1) 0 else deref ?h ?q1)" "mset q = mset ?q1"
    using ptr_Down_deref [OF l1, of 0] by (cases "length ?q1 = 0") auto
  have own': "mset ?q = add_mset (?q ! 0) (mset q)" using m1 q(3) by simp
  obtain wt where wt: "?h (?q ! 0) = Some wt" using owned_taken_out(5) [OF own own'] by auto
  have "length (butlast ((deref ?h ?q)[0 := deref ?h ?q ! (length ?q - 1)])) = length ?q1" by simp
  then have "Pop (deref ?h ?q) = (Some (deref ?h ?q ! 0), if length ?q1 \<noteq> 0 then Down (deref ?h ?q1) 0 else deref ?h ?q1)"
    unfolding Pop_def Let_def length_deref d1 using ne by simp
  then have "Pop (items_of s) = (Some wt, deref ?h q)"
    using ne q(2) wt by (simp add: items_of_def deref_nth del: length_butlast)
  moreover have "ptr_Pop s = Some (Some (?q ! 0), s\<lparr>item_heap := q\<rparr>)"
    unfolding ptr_Pop_def Let_def q(1) using ne by simp
  ultimately show ?thesis
    using owned_taken_out(1,3) [OF own own'] wt by (auto simp: items_of_def)
qed

lemma ptr_Pop_empty: "item_heap s = [] \<Longrightarrow> ptr_Pop s = Some (None, s)"
  by (simp add: ptr_Pop_def)

lemma delete_WaitingItem_spec:
  assumes "owned (insert a held) lost s" and "a \<notin> held"
  shows "\<exists>s'. delete_WaitingItem a s = Some s' \<and> owned held lost s' \<and> items_of s' = items_of s"
proof -
  have "a \<in> dom (item_objects s)" "a \<notin> set (item_heap s)" "a \<notin> lost"
    using assms(1) by (auto simp: owned_def)
  with assms show ?thesis
    by (auto simp: delete_WaitingItem_def owned_def items_of_def deref_def)
qed

text \<open>\<open>Remove\<close>: the object of the event stays, and no pointer to it.\<close>

lemma ptr_Remove_spec:
  assumes own: "owned held lost s"
  shows "\<exists>b s'. ptr_Remove job s = Some (b, s') \<and> (b, items_of s') = Remove (items_of s) job \<and>
    item_objects s' = item_objects s \<and>
    (if b then \<exists>a. a \<in> dom (item_objects s) - lost \<and> owned held (insert a lost) s' else s' = s)"
proof -
  obtain b q where r: "ptr_Remove_from (item_objects s) (item_heap s) job 0 = Some (b, q)"
    "(b, deref (item_objects s) q) = Remove_from (items_of s) job 0"
    "if b then \<exists>a. mset (item_heap s) = add_mset a (mset q) else q = item_heap s"
    using ptr_Remove_from_deref [OF owned_live [OF own]] unfolding items_of_def by blast
  show ?thesis
  proof (cases b)
    case True
    then obtain a where "mset (item_heap s) = add_mset a (mset q)" using r(3) by auto
    from owned_taken_out(2,4,5) [OF own this] True r(1,2) show ?thesis
      by (auto simp: ptr_Remove_def Remove_def items_of_def)
  next
    case False
    with r show ?thesis by (auto simp: ptr_Remove_def Remove_def items_of_def)
  qed
qed

section \<open>Every run of the queue's clients\<close>

text \<open>
  The operations on the queue in any order, as the threads of the program issue them: a job is
  registered or started (\<open>EventNew\<close>), the monitor pops an item (\<open>EventPop\<close>, only when it
  has none in hand), reads and deletes the one in hand after it gave the lock back
  (\<open>EventDelete\<close>), and a job is unregistered (\<open>EventRemove\<close>). The first component of the
  state is the monitor's local variable \<open>wt\<close>.
\<close>

datatype event_op = EventNew WaitingItem | EventPop | EventDelete | EventRemove string

fun ptr_event :: "event_op \<Rightarrow> nat option \<times> ItemQueue \<Rightarrow> (nat option \<times> ItemQueue) option" where
  "ptr_event (EventNew wt) (hand, s) = map_option (Pair hand) (push_new wt s)"
| "ptr_event EventPop (None, s) = ptr_Pop s"
| "ptr_event EventPop (Some a, s) = Some (Some a, s)"
| "ptr_event EventDelete (None, s) = Some (None, s)"
| "ptr_event EventDelete (Some a, s) = map_option (Pair None) (delete_WaitingItem a s)"
| "ptr_event (EventRemove job) (hand, s) = map_option (Pair hand \<circ> snd) (ptr_Remove job s)"

fun ptr_events :: "event_op list \<Rightarrow> nat option \<times> ItemQueue \<Rightarrow> (nat option \<times> ItemQueue) option" where
  "ptr_events [] st = Some st"
| "ptr_events (e # es) st = (case ptr_event e st of None \<Rightarrow> None | Some st' \<Rightarrow> ptr_events es st')"

text \<open>The same run on the items, counting the calls of \<open>Remove\<close> that found their job.\<close>

type_synonym item_run = "WaitingItem option \<times> WaitingItem list \<times> nat"

fun item_event :: "event_op \<Rightarrow> item_run \<Rightarrow> item_run" where
  "item_event (EventNew wt) (hand, q, n) = (hand, Push q wt, n)"
| "item_event EventPop (None, q, n) = (case Pop q of (x, q') \<Rightarrow> (x, q', n))"
| "item_event EventPop (Some x, q, n) = (Some x, q, n)"
| "item_event EventDelete (hand, q, n) = (None, q, n)"
| "item_event (EventRemove job) (hand, q, n) =
     (case Remove q job of (b, q') \<Rightarrow> (hand, q', if b then Suc n else n))"

definition tracked :: "item_run \<Rightarrow> nat option \<times> ItemQueue \<Rightarrow> bool" where
  "tracked r st = (case st of (hand, s) \<Rightarrow> case r of (x, q, n) \<Rightarrow>
     \<exists>lost. finite lost \<and> card lost = n \<and> owned (set_option hand) lost s \<and>
       x = map_option (the \<circ> item_objects s) hand \<and> q = items_of s)"

lemma ptr_event_tracked:
  assumes "tracked r st"
  shows "\<exists>st'. ptr_event e st = Some st' \<and> tracked (item_event e r) st'"
proof -
  obtain hand s x q n where st: "st = (hand, s)" "r = (x, q, n)" by (cases st, cases r) auto
  with assms obtain lost where own: "owned (set_option hand) lost s"
    and r: "finite lost" "card lost = n" "x = map_option (the \<circ> item_objects s) hand" "q = items_of s"
    by (auto simp: tracked_def)
  show ?thesis
  proof (cases e)
    case (EventNew wt)
    from push_new_spec [OF own, of wt] obtain s' where s': "push_new wt s = Some s'"
      "items_of s' = Push (items_of s) wt" "owned (set_option hand) lost s'" by blast
    have "map_option (the \<circ> item_objects s') hand = map_option (the \<circ> item_objects s) hand"
      by (cases hand) (use s'(1) own in \<open>auto simp: push_new_def new_WaitingItem_def ptr_Push_def Let_def owned_def\<close>)
    with s' r EventNew st show ?thesis by (auto simp: tracked_def intro!: exI [of _ lost])
  next
    case EventPop
    show ?thesis
    proof (cases hand)
      case None
      show ?thesis
      proof (cases "item_heap s = []")
        case True
        then have "Pop (items_of s) = (None, items_of s)" by (simp add: items_of_def deref_def Pop_Nil)
        with True None EventPop st own r show ?thesis
          by (auto simp: tracked_def ptr_Pop_empty intro!: exI [of _ lost])
      next
        case False
        from ptr_Pop_spec [OF own False] obtain a s' wt where s': "ptr_Pop s = Some (Some a, s')"
          "item_objects s' a = Some wt" "Pop (items_of s) = (Some wt, items_of s')"
          "owned (insert a (set_option hand)) lost s'" by blast
        with s' None EventPop st r show ?thesis
          by (auto simp: tracked_def intro!: exI [of _ lost])
      qed
    next
      case (Some a)
      with EventPop st own r show ?thesis by (auto simp: tracked_def intro!: exI [of _ lost])
    qed
  next
    case EventDelete
    show ?thesis
    proof (cases hand)
      case None
      with EventDelete st own r show ?thesis by (auto simp: tracked_def intro!: exI [of _ lost])
    next
      case (Some a)
      with own have "owned (insert a {}) lost s" by simp
      from delete_WaitingItem_spec [OF this] obtain s' where "delete_WaitingItem a s = Some s'"
        "owned {} lost s'" "items_of s' = items_of s" by auto
      with Some EventDelete st r show ?thesis by (auto simp: tracked_def intro!: exI [of _ lost])
    qed
  next
    case (EventRemove job)
    from ptr_Remove_spec [OF own, of job] obtain b s' where s': "ptr_Remove job s = Some (b, s')"
      "(b, items_of s') = Remove (items_of s) job" "item_objects s' = item_objects s"
      and own': "if b then \<exists>a. a \<in> dom (item_objects s) - lost \<and> owned (set_option hand) (insert a lost) s' else s' = s"
      by blast
    show ?thesis
    proof (cases b)
      case True
      with own' obtain a where "a \<notin> lost" "owned (set_option hand) (insert a lost) s'" by auto
      with True s' EventRemove st r s'(2) [symmetric] show ?thesis
        by (auto simp: tracked_def intro!: exI [of _ "insert a lost"])
    next
      case False
      with own' s' EventRemove st r own s'(2) [symmetric] show ?thesis
        by (auto simp: tracked_def intro!: exI [of _ lost])
    qed
  qed
qed

lemma ptr_events_tracked:
  "tracked r st \<Longrightarrow> \<exists>st'. ptr_events es st = Some st' \<and> tracked (fold item_event es r) st'"
proof (induction es arbitrary: r st)
  case (Cons e es)
  from ptr_event_tracked [OF Cons.prems, of e] obtain st' where "ptr_event e st = Some st'"
    "tracked (item_event e r) st'" by blast
  with Cons.IH [of "item_event e r" st'] show ?case by simp
qed simp

lemma tracked_new: "tracked (None, [], 0) (None, JobPriorityQueue_new)"
  by (auto simp: tracked_def owned_def JobPriorityQueue_new_def items_of_def deref_def)

text \<open>How many objects there are.\<close>

lemma tracked_objects:
  assumes "tracked (x, q, n) (hand, s)"
  shows "card (dom (item_objects s)) = length q + (case hand of None \<Rightarrow> 0 | Some _ \<Rightarrow> 1) + n"
proof -
  from assms obtain lost where own: "owned (set_option hand) lost s" and "finite lost" "card lost = n" "q = items_of s"
    by (auto simp: tracked_def)
  moreover from own have "dom (item_objects s) = set (item_heap s) \<union> (set_option hand \<union> lost)"
    "set (item_heap s) \<inter> (set_option hand \<union> lost) = {}" "set_option hand \<inter> lost = {}"
    "distinct (item_heap s)"
    by (auto simp: owned_def)
  ultimately show ?thesis
    by (cases hand) (simp_all add: card_Un_disjoint distinct_card items_of_def)
qed

end
