(* ===== verification/MemoryScheduleState.thy ===== *)
theory MemoryScheduleState
  imports Job
begin

text \<open>
  \<open>src/src/common/ScheduleState.h\<close>, \<open>MemoryScheduleState.h/.cpp\<close>: the schedule.
  \<open>schedule_\<close> and \<open>jobs_\<close> share \<open>Job\<close> objects through pointers, and
  \<open>UpdateJob\<close> writes through one of them, so the objects live in an explicit store
  \<open>ms_heap\<close> from addresses to jobs; a read of an address that is not allocated is
  undefined behaviour, the outer \<open>None\<close> of every operation. Each method runs under
  \<open>schedule_mut_\<close> from its first to its last line, so it is one atomic function here.
\<close>

type_synonym addr = nat

record MemoryScheduleState =
  ms_schedule :: "(string \<times> addr list) list"
  ms_jobs :: "(string \<times> addr) list"
  ms_heap :: "addr \<rightharpoonup> Job"
  ms_next :: addr

definition empty_state :: MemoryScheduleState where
  "empty_state = \<lparr>ms_schedule = [], ms_jobs = [], ms_heap = Map.empty, ms_next = 0\<rparr>"

section \<open>Operations\<close>

text \<open>\<open>schedule_[ost]\<close> creates an empty list for a key that is missing.\<close>

definition subscript :: "string \<Rightarrow> (string \<times> addr list) list \<Rightarrow> addr list" where
  "subscript ost sched = (case map_of sched ost of Some l \<Rightarrow> l | None \<Rightarrow> [])"

definition subscript_touch :: "string \<Rightarrow> (string \<times> addr list) list \<Rightarrow> (string \<times> addr list) list" where
  "subscript_touch ost sched =
     (if map_of sched ost = None then smap_put ost [] sched else sched)"

definition ScheduleState_Init :: "MemoryScheduleState \<Rightarrow> bool \<times> MemoryScheduleState" where
  "ScheduleState_Init s = (True, s)"

definition ScheduleState_TearDown :: "MemoryScheduleState \<Rightarrow> bool \<times> MemoryScheduleState" where
  "ScheduleState_TearDown s = (True, s)"

definition GetClusterState :: "MemoryScheduleState \<Rightarrow> (string \<times> addr list) list" where
  "GetClusterState s = fold (\<lambda>(ost, l). smap_put ost l) (ms_schedule s) []"

definition GetOSTState :: "MemoryScheduleState \<Rightarrow> string \<Rightarrow> addr list option" where
  "GetOSTState s ost = map_of (ms_schedule s) ost"

definition ScheduleState_Reset :: "MemoryScheduleState \<Rightarrow> MemoryScheduleState" where
  "ScheduleState_Reset s = s\<lparr>ms_heap := (ms_heap s) |` (- snd ` set (ms_jobs s)),
               ms_schedule := [], ms_jobs := []\<rparr>"

text \<open>The inner loop of \<open>AddJob\<close>: insert before the first job that starts later.\<close>

fun insert_by_start :: "(addr \<rightharpoonup> Job) \<Rightarrow> time_point \<Rightarrow> addr \<Rightarrow> addr list \<Rightarrow> addr list option" where
  "insert_by_start h tstart a [] = Some [a]"
| "insert_by_start h tstart a (b # bs) =
     (case h b of None \<Rightarrow> None
      | Some j \<Rightarrow>
          if job_tstart j > tstart then Some (a # b # bs)
          else map_option ((#) b) (insert_by_start h tstart a bs))"

fun add_to_osts ::
  "(addr \<rightharpoonup> Job) \<Rightarrow> time_point \<Rightarrow> addr \<Rightarrow> string list \<Rightarrow> (string \<times> addr list) list
    \<Rightarrow> (string \<times> addr list) list option" where
  "add_to_osts h tstart a [] sched = Some sched"
| "add_to_osts h tstart a (ost # osts) sched =
     (let sched1 = subscript_touch ost sched in
      case insert_by_start h tstart a (subscript ost sched1) of None \<Rightarrow> None
      | Some l \<Rightarrow> add_to_osts h tstart a osts (smap_put ost l sched1))"

definition AddJob ::
  "MemoryScheduleState \<Rightarrow> string \<Rightarrow> Job \<Rightarrow> string list \<Rightarrow> (bool \<times> MemoryScheduleState) option" where
  "AddJob s jobid job osts =
     (if map_of (ms_jobs s) jobid \<noteq> None then Some (False, s)
      else
        let to_insert_job = ms_next s;
            h = (ms_heap s)(to_insert_job \<mapsto> job)
        in case add_to_osts h (job_tstart job) to_insert_job osts (ms_schedule s) of
             None \<Rightarrow> None
           | Some sched \<Rightarrow>
               Some (True, s\<lparr>ms_heap := h, ms_next := Suc to_insert_job, ms_schedule := sched,
                             ms_jobs := smap_put jobid to_insert_job (ms_jobs s)\<rparr>))"

text \<open>
  \<open>RemoveJob\<close> declares \<open>std::list<Job*> ost_job_list = schedule_[ost]\<close>, a copy: the
  erasure changes the copy, which the next iteration drops. The job object itself is not
  deleted.
\<close>

fun erase_job :: "(addr \<rightharpoonup> Job) \<Rightarrow> string \<Rightarrow> addr list \<Rightarrow> addr list option" where
  "erase_job h jobid [] = Some []"
| "erase_job h jobid (b # bs) =
     (case h b of None \<Rightarrow> None
      | Some j \<Rightarrow> if job_id j = jobid then Some bs else map_option ((#) b) (erase_job h jobid bs))"

fun remove_from_osts ::
  "(addr \<rightharpoonup> Job) \<Rightarrow> string \<Rightarrow> string list \<Rightarrow> (string \<times> addr list) list
    \<Rightarrow> (string \<times> addr list) list option" where
  "remove_from_osts h jobid [] sched = Some sched"
| "remove_from_osts h jobid (ost # osts) sched =
     (let ost_job_list = subscript ost sched; sched1 = subscript_touch ost sched in
      case erase_job h jobid ost_job_list of None \<Rightarrow> None
      | Some dropped_copy \<Rightarrow> remove_from_osts h jobid osts sched1)"

definition RemoveJob :: "MemoryScheduleState \<Rightarrow> string \<Rightarrow> (bool \<times> MemoryScheduleState) option" where
  "RemoveJob s jobid =
     (case map_of (ms_jobs s) jobid of None \<Rightarrow> Some (False, s)
      | Some a \<Rightarrow>
          let s1 = s\<lparr>ms_jobs := smap_del jobid (ms_jobs s)\<rparr> in
          (case ms_heap s1 a of None \<Rightarrow> None
           | Some job \<Rightarrow>
               (case remove_from_osts (ms_heap s1) jobid (job_osts job) (ms_schedule s1) of
                  None \<Rightarrow> None
                | Some sched \<Rightarrow> Some (True, s1\<lparr>ms_schedule := sched\<rparr>))))"

definition UpdateJob ::
  "MemoryScheduleState \<Rightarrow> string \<Rightarrow> JobState \<Rightarrow> (bool \<times> MemoryScheduleState) option" where
  "UpdateJob s jobid new_state =
     (case map_of (ms_jobs s) jobid of None \<Rightarrow> Some (False, s)
      | Some a \<Rightarrow>
          (case ms_heap s a of None \<Rightarrow> None
           | Some j \<Rightarrow>
               Some (True, s\<lparr>ms_heap := (ms_heap s)(a \<mapsto> j\<lparr>job_state := new_state\<rparr>)\<rparr>)))"

fun copy_jobs :: "(addr \<rightharpoonup> Job) \<Rightarrow> (string \<times> addr) list \<Rightarrow> (string \<times> Job) list option" where
  "copy_jobs h [] = Some []"
| "copy_jobs h ((k, a) # m) =
     (case h a of None \<Rightarrow> None
      | Some j \<Rightarrow> map_option ((#) (k, j)) (copy_jobs h m))"

definition GetAllJobs :: "MemoryScheduleState \<Rightarrow> (string \<times> Job) list option" where
  "GetAllJobs s = copy_jobs (ms_heap s) (ms_jobs s)"

text \<open>The getters: the result is the return value and the out parameter afterwards.\<close>

definition find_job :: "MemoryScheduleState \<Rightarrow> string \<Rightarrow> Job option option" where
  "find_job s jobid =
     (case map_of (ms_jobs s) jobid of None \<Rightarrow> Some None
      | Some a \<Rightarrow> map_option Some (ms_heap s a))"

definition GetJobThroughput :: "MemoryScheduleState \<Rightarrow> string \<Rightarrow> u32 \<Rightarrow> (bool \<times> u32) option" where
  "GetJobThroughput s jobid throughput =
     map_option (\<lambda>it. case it of None \<Rightarrow> (False, throughput) | Some j \<Rightarrow> (True, job_throughput j))
       (find_job s jobid)"

definition GetJobStatus :: "MemoryScheduleState \<Rightarrow> string \<Rightarrow> JobState \<Rightarrow> (bool \<times> JobState) option" where
  "GetJobStatus s jobid state =
     map_option (\<lambda>it. case it of None \<Rightarrow> (False, state) | Some j \<Rightarrow> (True, job_state j))
       (find_job s jobid)"

definition GetJobEnd :: "MemoryScheduleState \<Rightarrow> string \<Rightarrow> time_point \<Rightarrow> (bool \<times> time_point) option" where
  "GetJobEnd s jobid tend =
     map_option (\<lambda>it. case it of None \<Rightarrow> (False, tend) | Some j \<Rightarrow> (True, job_tend j))
       (find_job s jobid)"

definition GetJobOstIds ::
  "MemoryScheduleState \<Rightarrow> string \<Rightarrow> string list \<Rightarrow> (bool \<times> string list) option" where
  "GetJobOstIds s jobid osts_out =
     map_option (\<lambda>it. case it of None \<Rightarrow> (False, osts_out)
                      | Some j \<Rightarrow> (True, osts_out @ job_osts j))
       (find_job s jobid)"

section \<open>Well-formed states\<close>

text \<open>
  Every pointer the object holds is allocated, distinct keys of \<open>jobs_\<close> own distinct
  objects, new addresses are fresh, and both maps iterate in key order. \<open>abs_jobs\<close> is
  what the object stands for: a finite map from job ids to jobs.
\<close>

definition allocated :: "(addr \<rightharpoonup> Job) \<Rightarrow> (string \<times> addr list) list \<Rightarrow> bool" where
  "allocated h sched \<longleftrightarrow> (\<forall>ost. set (subscript ost sched) \<subseteq> dom h)"

definition wf_state :: "MemoryScheduleState \<Rightarrow> bool" where
  "wf_state s \<longleftrightarrow>
     smap_ok (ms_schedule s) \<and> smap_ok (ms_jobs s) \<and>
     allocated (ms_heap s) (ms_schedule s) \<and>
     ran (map_of (ms_jobs s)) \<subseteq> dom (ms_heap s) \<and>
     (\<forall>k k' a. map_of (ms_jobs s) k = Some a \<longrightarrow> map_of (ms_jobs s) k' = Some a \<longrightarrow> k = k') \<and>
     (\<forall>a \<in> dom (ms_heap s). a < ms_next s)"

definition abs_jobs :: "MemoryScheduleState \<Rightarrow> string \<rightharpoonup> Job" where
  "abs_jobs s = (\<lambda>k. case map_of (ms_jobs s) k of None \<Rightarrow> None | Some a \<Rightarrow> ms_heap s a)"

definition starts_sorted :: "(addr \<rightharpoonup> Job) \<Rightarrow> addr list \<Rightarrow> bool" where
  "starts_sorted h l \<longleftrightarrow> sorted (map (\<lambda>a. job_tstart (the (h a))) l)"

definition lists_sorted :: "MemoryScheduleState \<Rightarrow> bool" where
  "lists_sorted s \<longleftrightarrow>
     (\<forall>ost. starts_sorted (ms_heap s) (subscript ost (ms_schedule s)))"

lemma abs_jobs_bind: "abs_jobs s = (\<lambda>k. Option.bind (map_of (ms_jobs s) k) (ms_heap s))"
  by (auto simp: abs_jobs_def fun_eq_iff split: option.split)

lemma wf_empty [simp]: "wf_state empty_state"
  by (simp add: wf_state_def empty_state_def allocated_def ran_def subscript_def)

lemma abs_empty [simp]: "abs_jobs empty_state = Map.empty"
  by (simp add: abs_jobs_def empty_state_def fun_eq_iff)

lemma wf_pointer: "wf_state s \<Longrightarrow> map_of (ms_jobs s) k = Some a \<Longrightarrow> \<exists>j. ms_heap s a = Some j"
  by (auto simp: wf_state_def ran_def)

lemma abs_None_iff: "wf_state s \<Longrightarrow> abs_jobs s k = None \<longleftrightarrow> map_of (ms_jobs s) k = None"
  by (auto simp: abs_jobs_def split: option.splits dest: wf_pointer)

lemma wf_key_unique:
  "wf_state s \<Longrightarrow> map_of (ms_jobs s) k = Some a \<Longrightarrow> map_of (ms_jobs s) k' = Some a \<Longrightarrow> k = k'"
  unfolding wf_state_def by blast

lemma wf_fresh: "wf_state s \<Longrightarrow> ms_heap s (ms_next s) = None"
  by (auto simp: wf_state_def)

subsection \<open>The inner loops\<close>

lemma subscript_touch_simps [simp]:
  "subscript ost' (subscript_touch ost sched) = subscript ost' sched"
  "smap_ok sched \<Longrightarrow> smap_ok (subscript_touch ost sched)"
  by (auto simp: subscript_def subscript_touch_def smap_simps smap.ok_put)

lemma subscript_put [simp]:
  "subscript ost (smap_put ost' l sched) = (if ost = ost' then l else subscript ost sched)"
  by (simp add: subscript_def smap_simps)

lemma allocated_simps [simp]:
  "allocated h (subscript_touch ost sched) = allocated h sched"
  "allocated h sched \<Longrightarrow> set l \<subseteq> dom h \<Longrightarrow> allocated h (smap_put ost l sched)"
  by (auto simp: allocated_def)

lemma allocated_subscript: "allocated h sched \<Longrightarrow> set (subscript ost sched) \<subseteq> dom h"
  by (simp add: allocated_def)

lemma allocated_mono: "allocated h sched \<Longrightarrow> dom h \<subseteq> dom h' \<Longrightarrow> allocated h' sched"
  unfolding allocated_def by blast

lemma insert_by_start_Some:
  "set l \<subseteq> dom h \<Longrightarrow> \<exists>l'. insert_by_start h t a l = Some l' \<and> mset l' = add_mset a (mset l)"
  by (induction l) (fastforce split: option.splits)+

lemma insert_by_start_mset:
  "insert_by_start h t a l = Some l' \<Longrightarrow> mset l' = add_mset a (mset l)"
  by (induction l arbitrary: l') (auto split: option.splits if_splits)

lemma insert_by_start_sorted:
  "insert_by_start h (job_tstart (the (h a))) a l = Some l' \<Longrightarrow> starts_sorted h l \<Longrightarrow> starts_sorted h l'"
proof (induction l arbitrary: l')
  case (Cons b l)
  show ?case
  proof (cases "job_tstart (the (h b)) > job_tstart (the (h a))")
    case True
    with Cons.prems show ?thesis by (fastforce simp: starts_sorted_def split: option.splits)
  next
    case False
    with Cons.prems obtain l'' where l'': "insert_by_start h (job_tstart (the (h a))) a l = Some l''"
        "l' = b # l''" by (auto split: option.splits)
    have "set l'' = insert a (set l)"
      using insert_by_start_mset [OF l''(1)] by (metis set_mset_add_mset_insert set_mset_mset)
    with Cons.IH [OF l''(1)] Cons.prems(2) False l''(2) show ?thesis
      by (auto simp: starts_sorted_def)
  qed
qed (simp add: starts_sorted_def)

lemma erase_job_Some: "set l \<subseteq> dom h \<Longrightarrow> \<exists>l'. erase_job h k l = Some l'"
  by (induction l) (fastforce split: option.splits)+

lemma add_to_osts_Some:
  assumes "allocated h sched" and "smap_ok sched" and "a \<in> dom h"
  shows "\<exists>sched'. add_to_osts h t a osts sched = Some sched' \<and> allocated h sched' \<and> smap_ok sched'"
  using assms(1,2)
proof (induction osts arbitrary: sched)
  case (Cons ost osts)
  obtain l where l: "insert_by_start h t a (subscript ost sched) = Some l"
    "mset l = add_mset a (mset (subscript ost sched))"
    using insert_by_start_Some [OF allocated_subscript [OF Cons.prems(1)]] by blast
  then have "set l \<subseteq> dom h"
    using assms(3) allocated_subscript [OF Cons.prems(1)] by (metis insert_subset set_mset_add_mset_insert set_mset_mset)
  with Cons.IH [of "smap_put ost l (subscript_touch ost sched)"] Cons.prems l show ?case
    by (simp add: Let_def smap.ok_put)
qed auto

lemma remove_from_osts_Some:
  assumes "allocated h sched" and "smap_ok sched"
  shows "\<exists>sched'. remove_from_osts h k osts sched = Some sched' \<and> allocated h sched' \<and> smap_ok sched'
    \<and> (\<forall>ost. subscript ost sched' = subscript ost sched)"
  using assms
proof (induction osts arbitrary: sched)
  case (Cons ost osts)
  obtain l where "erase_job h k (subscript ost sched) = Some l"
    using erase_job_Some [OF allocated_subscript [OF Cons.prems(1)]] by blast
  with Cons.IH [of "subscript_touch ost sched"] Cons.prems show ?case
    by (simp add: Let_def)
qed auto

lemma add_to_osts_lists:
  "add_to_osts h t a osts sched = Some sched' \<Longrightarrow>
   mset (subscript ost sched') = mset (subscript ost sched) + replicate_mset (count_list osts ost) a"
proof (induction osts arbitrary: sched)
  case (Cons ost1 osts)
  then obtain l where l: "insert_by_start h t a (subscript ost1 sched) = Some l"
    "add_to_osts h t a osts (smap_put ost1 l (subscript_touch ost1 sched)) = Some sched'"
    by (auto simp: Let_def split: option.splits)
  have "mset l = add_mset a (mset (subscript ost1 sched))"
    using l(1) by (rule insert_by_start_mset)
  with Cons.IH [OF l(2)] show ?case by simp
qed simp

lemma add_to_osts_sorted:
  "add_to_osts h (job_tstart (the (h a))) a osts sched = Some sched' \<Longrightarrow>
   \<forall>ost. starts_sorted h (subscript ost sched) \<Longrightarrow> \<forall>ost. starts_sorted h (subscript ost sched')"
proof (induction osts arbitrary: sched)
  case (Cons ost1 osts)
  then obtain l where l: "insert_by_start h (job_tstart (the (h a))) a (subscript ost1 sched) = Some l"
    "add_to_osts h (job_tstart (the (h a))) a osts (smap_put ost1 l (subscript_touch ost1 sched)) = Some sched'"
    by (auto simp: Let_def split: option.splits)
  from l(1) Cons.prems(2) have "starts_sorted h l" by (blast intro: insert_by_start_sorted)
  with Cons.IH [OF l(2)] Cons.prems(2) show ?case by simp
qed simp

section \<open>The operations refine a finite map\<close>

lemma find_job_abs: "wf_state s \<Longrightarrow> find_job s k = Some (abs_jobs s k)"
  by (auto simp: find_job_def abs_jobs_def split: option.splits dest: wf_pointer)

lemma AddJob_exists: "wf_state s \<Longrightarrow> abs_jobs s k \<noteq> None \<Longrightarrow> AddJob s k j osts = Some (False, s)"
  by (simp add: AddJob_def abs_None_iff)

lemma AddJob_new:
  assumes wf: "wf_state s" and new: "abs_jobs s k = None"
  shows "\<exists>s'. AddJob s k j osts = Some (True, s') \<and> wf_state s' \<and> abs_jobs s' = (abs_jobs s)(k \<mapsto> j) \<and>
    add_to_osts ((ms_heap s)(ms_next s \<mapsto> j)) (job_tstart j) (ms_next s) osts (ms_schedule s)
      = Some (ms_schedule s') \<and> ms_heap s' = (ms_heap s)(ms_next s \<mapsto> j)"
proof -
  let ?a = "ms_next s" and ?h = "(ms_heap s)(ms_next s \<mapsto> j)"
  have "allocated ?h (ms_schedule s)"
    using wf allocated_mono [of "ms_heap s" "ms_schedule s" ?h] by (auto simp: wf_state_def)
  then obtain sched where sched: "add_to_osts ?h (job_tstart j) ?a osts (ms_schedule s) = Some sched"
      "allocated ?h sched" "smap_ok sched"
    using add_to_osts_Some [of ?h "ms_schedule s" ?a "job_tstart j" osts] wf
    by (auto simp: wf_state_def)
  let ?s = "s\<lparr>ms_heap := ?h, ms_next := Suc ?a, ms_schedule := sched, ms_jobs := smap_put k ?a (ms_jobs s)\<rparr>"
  have add: "AddJob s k j osts = Some (True, ?s)"
    using new wf sched by (simp add: AddJob_def abs_None_iff Let_def)
  have fresh: "map_of (ms_jobs s) k' \<noteq> Some ?a" for k'
    using wf_pointer [OF wf] wf_fresh [OF wf] by fastforce
  have "wf_state ?s"
    using wf sched fresh unfolding wf_state_def
    by (auto simp: smap_simps smap.ok_put ran_def less_Suc_eq)
  moreover have "abs_jobs ?s = (abs_jobs s)(k \<mapsto> j)"
    using fresh by (auto simp: abs_jobs_def smap_simps fun_eq_iff split: option.splits)
  ultimately show ?thesis using add sched by auto
qed

lemma RemoveJob_missing: "wf_state s \<Longrightarrow> abs_jobs s k = None \<Longrightarrow> RemoveJob s k = Some (False, s)"
  by (simp add: RemoveJob_def abs_None_iff)

lemma RemoveJob_present:
  assumes wf: "wf_state s" and j: "abs_jobs s k = Some j"
  shows "\<exists>s'. RemoveJob s k = Some (True, s') \<and> wf_state s' \<and> abs_jobs s' = (abs_jobs s)(k := None) \<and>
    ms_heap s' = ms_heap s \<and> (\<forall>ost. subscript ost (ms_schedule s') = subscript ost (ms_schedule s))"
proof -
  obtain a where a: "map_of (ms_jobs s) k = Some a" "ms_heap s a = Some j"
    using j by (auto simp: abs_jobs_def split: option.splits)
  obtain sched where sched: "remove_from_osts (ms_heap s) k (job_osts j) (ms_schedule s) = Some sched"
    "allocated (ms_heap s) sched" "smap_ok sched" "\<forall>ost. subscript ost sched = subscript ost (ms_schedule s)"
    using wf remove_from_osts_Some [of "ms_heap s" "ms_schedule s" k "job_osts j"]
    by (auto simp: wf_state_def)
  let ?s = "s\<lparr>ms_jobs := smap_del k (ms_jobs s), ms_schedule := sched\<rparr>"
  have "RemoveJob s k = Some (True, ?s)"
    using a sched by (simp add: RemoveJob_def Let_def)
  moreover have "wf_state ?s"
    using wf sched unfolding wf_state_def
    by (auto simp: smap_simps smap.ok_del ran_def split: if_splits)
  moreover have "abs_jobs ?s = (abs_jobs s)(k := None)"
    by (auto simp: abs_jobs_def smap_simps fun_eq_iff split: option.split)
  ultimately show ?thesis using sched by auto
qed

lemma UpdateJob_missing: "wf_state s \<Longrightarrow> abs_jobs s k = None \<Longrightarrow> UpdateJob s k st = Some (False, s)"
  by (simp add: UpdateJob_def abs_None_iff)

lemma UpdateJob_present:
  assumes wf: "wf_state s" and j: "abs_jobs s k = Some j"
  shows "\<exists>s' a. UpdateJob s k st = Some (True, s') \<and> wf_state s' \<and>
    abs_jobs s' = (abs_jobs s)(k \<mapsto> j\<lparr>job_state := st\<rparr>) \<and>
    ms_schedule s' = ms_schedule s \<and> ms_heap s a = Some j \<and>
    ms_heap s' = (ms_heap s)(a \<mapsto> j\<lparr>job_state := st\<rparr>)"
proof -
  obtain a where a: "map_of (ms_jobs s) k = Some a" "ms_heap s a = Some j"
    using j by (auto simp: abs_jobs_def split: option.splits)
  let ?s = "s\<lparr>ms_heap := (ms_heap s)(a \<mapsto> j\<lparr>job_state := st\<rparr>)\<rparr>"
  have "UpdateJob s k st = Some (True, ?s)"
    using a by (simp add: UpdateJob_def)
  moreover have "wf_state ?s"
    using wf a allocated_mono [of "ms_heap s" "ms_schedule s" "ms_heap ?s"] unfolding wf_state_def
    by (auto simp: ran_def)
  moreover have "abs_jobs ?s = (abs_jobs s)(k \<mapsto> j\<lparr>job_state := st\<rparr>)"
    using a wf_key_unique [OF wf] by (fastforce simp: abs_jobs_def fun_eq_iff split: option.splits)
  ultimately show ?thesis using a by auto
qed

lemma copy_jobs_Some:
  "\<forall>(k, a) \<in> set m. h a \<noteq> None \<Longrightarrow>
   \<exists>js. copy_jobs h m = Some js \<and> map fst js = map fst m \<and>
     map_of js = (\<lambda>k. Option.bind (map_of m k) h)"
  by (induction h m rule: copy_jobs.induct) (auto simp: fun_eq_iff split: option.splits)

lemma GetAllJobs_abs:
  assumes "wf_state s"
  shows "\<exists>js. GetAllJobs s = Some js \<and> smap_ok js \<and> map_of js = abs_jobs s"
proof -
  have "\<forall>(k, a) \<in> set (ms_jobs s). ms_heap s a \<noteq> None"
    using assms wf_pointer [OF assms] by (fastforce simp: wf_state_def smap_in_set_iff)
  from copy_jobs_Some [OF this] assms show ?thesis
    by (auto simp: GetAllJobs_def abs_jobs_bind smap_ok_def wf_state_def)
qed

lemma wf_Reset: "wf_state s \<Longrightarrow> wf_state (ScheduleState_Reset s)"
  by (auto simp: wf_state_def ScheduleState_Reset_def allocated_def subscript_def ran_def)

lemma abs_Reset: "abs_jobs (ScheduleState_Reset s) = Map.empty"
  by (simp add: abs_jobs_def ScheduleState_Reset_def fun_eq_iff)

section \<open>The interface \<open>ScheduleState\<close> and its laws\<close>

text \<open>
  The abstract class \<open>ScheduleState\<close> as the job monitor and the schedulers use it. The
  laws say that the object behaves as the finite map \<open>\<alpha>\<close> and that no call is undefined.
\<close>

locale schedule_store =
  fixes \<alpha> :: "'s \<Rightarrow> string \<rightharpoonup> Job"
    and wf :: "'s \<Rightarrow> bool"
    and add :: "'s \<Rightarrow> string \<Rightarrow> Job \<Rightarrow> string list \<Rightarrow> (bool \<times> 's) option"
    and rem :: "'s \<Rightarrow> string \<Rightarrow> (bool \<times> 's) option"
    and upd :: "'s \<Rightarrow> string \<Rightarrow> JobState \<Rightarrow> (bool \<times> 's) option"
    and status :: "'s \<Rightarrow> string \<Rightarrow> JobState \<Rightarrow> (bool \<times> JobState) option"
  assumes add_law: "wf s \<Longrightarrow> \<exists>s'. add s k j os = Some (\<alpha> s k = None, s') \<and> wf s' \<and>
        \<alpha> s' = (if \<alpha> s k = None then (\<alpha> s)(k \<mapsto> j) else \<alpha> s)"
    and rem_law: "wf s \<Longrightarrow> \<exists>s'. rem s k = Some (\<alpha> s k \<noteq> None, s') \<and> wf s' \<and>
        \<alpha> s' = (\<alpha> s)(k := None)"
    and upd_law: "wf s \<Longrightarrow> \<exists>s'. upd s k st = Some (\<alpha> s k \<noteq> None, s') \<and> wf s' \<and>
        \<alpha> s' = (\<alpha> s)(k := map_option (\<lambda>j. j\<lparr>job_state := st\<rparr>) (\<alpha> s k))"
    and status_law: "wf s \<Longrightarrow> status s k o0 =
        Some (case \<alpha> s k of None \<Rightarrow> (False, o0) | Some j \<Rightarrow> (True, job_state j))"
begin

lemma add_cases:
  assumes "wf s"
  obtains (new) s' where "\<alpha> s k = None" "add s k j os = Some (True, s')" "wf s'" "\<alpha> s' = (\<alpha> s)(k \<mapsto> j)"
  | (exists) s' where "\<alpha> s k \<noteq> None" "add s k j os = Some (False, s')" "wf s'" "\<alpha> s' = \<alpha> s"
  using add_law [OF assms, of k j os] by (auto split: if_splits)

lemma add_then_status:
  assumes "wf s" and "add s k j os = Some (True, s')"
  shows "status s' k o0 = Some (True, job_state j)"
  using add_law [OF assms(1), of k j os] assms(2) by (auto simp: status_law split: if_splits)

lemma rem_then_status:
  assumes "wf s" and "rem s k = Some (b, s')"
  shows "status s' k o0 = Some (False, o0)"
  using rem_law [OF assms(1), of k] assms(2) by (auto simp: status_law)

lemma upd_then_status:
  assumes "wf s" and "upd s k st = Some (True, s')"
  shows "status s' k o0 = Some (True, st)"
  using upd_law [OF assms(1), of k st] assms(2) by (auto simp: status_law)

lemma add_rem_id:
  assumes "wf s" and "add s k j os = Some (True, s1)"
  shows "\<exists>s2. rem s1 k = Some (True, s2) \<and> wf s2 \<and> \<alpha> s2 = \<alpha> s"
proof -
  have s1: "wf s1" "\<alpha> s1 = (\<alpha> s)(k \<mapsto> j)" "\<alpha> s k = None"
    using add_law [OF assms(1), of k j os] assms(2) by (auto split: if_splits)
  then have "(\<alpha> s1)(k := None) = \<alpha> s" by (auto simp: fun_eq_iff)
  with rem_law [OF s1(1), of k] s1 show ?thesis by auto
qed

end

interpretation mss: schedule_store abs_jobs wf_state AddJob RemoveJob UpdateJob GetJobStatus
proof unfold_locales
  fix s k j os assume wf: "wf_state s"
  show "\<exists>s'. AddJob s k j os = Some (abs_jobs s k = None, s') \<and> wf_state s' \<and>
      abs_jobs s' = (if abs_jobs s k = None then (abs_jobs s)(k \<mapsto> j) else abs_jobs s)"
    using AddJob_new [OF wf, of k j os] AddJob_exists [OF wf, of k j os] wf by auto
next
  fix s k assume wf: "wf_state s"
  show "\<exists>s'. RemoveJob s k = Some (abs_jobs s k \<noteq> None, s') \<and> wf_state s' \<and>
      abs_jobs s' = (abs_jobs s)(k := None)"
    using RemoveJob_present [OF wf, of k] RemoveJob_missing [OF wf, of k] wf
    by (cases "abs_jobs s k") auto
next
  fix s k st assume wf: "wf_state s"
  show "\<exists>s'. UpdateJob s k st = Some (abs_jobs s k \<noteq> None, s') \<and> wf_state s' \<and>
      abs_jobs s' = (abs_jobs s)(k := map_option (\<lambda>j. j\<lparr>job_state := st\<rparr>) (abs_jobs s k))"
  proof (cases "abs_jobs s k")
    case None
    then have "(abs_jobs s)(k := None) = abs_jobs s" by auto
    with UpdateJob_missing [OF wf None, of st] wf None show ?thesis by simp
  next
    case (Some j)
    with UpdateJob_present [OF wf Some, of st] show ?thesis by auto
  qed
next
  fix s k o0 assume "wf_state s"
  then show "GetJobStatus s k o0 =
      Some (case abs_jobs s k of None \<Rightarrow> (False, o0) | Some j \<Rightarrow> (True, job_state j))"
    by (simp add: GetJobStatus_def find_job_abs)
qed

lemma getter_laws:
  assumes "wf_state s"
  shows "GetJobThroughput s k t =
      Some (case abs_jobs s k of None \<Rightarrow> (False, t) | Some j \<Rightarrow> (True, job_throughput j))"
    and "GetJobEnd s k e =
      Some (case abs_jobs s k of None \<Rightarrow> (False, e) | Some j \<Rightarrow> (True, job_tend j))"
    and "GetJobOstIds s k os =
      Some (case abs_jobs s k of None \<Rightarrow> (False, os) | Some j \<Rightarrow> (True, os @ job_osts j))"
  using find_job_abs [OF assms]
  by (simp_all add: GetJobThroughput_def GetJobEnd_def GetJobOstIds_def)

lemmas store_laws = mss.status_law getter_laws

section \<open>The job lists of the OSTs\<close>

lemma starts_sorted_cong:
  "(\<And>a. a \<in> set l \<Longrightarrow> map_option job_tstart (h a) = map_option job_tstart (h' a) \<and> h a \<noteq> None) \<Longrightarrow>
   starts_sorted h l = starts_sorted h' l"
proof -
  assume *: "\<And>a. a \<in> set l \<Longrightarrow> map_option job_tstart (h a) = map_option job_tstart (h' a) \<and> h a \<noteq> None"
  have "map (\<lambda>a. job_tstart (the (h a))) l = map (\<lambda>a. job_tstart (the (h' a))) l"
    using * by auto (metis map_option_eq_Some option.sel)
  then show ?thesis by (simp only: starts_sorted_def)
qed

lemma AddJob_sorted:
  assumes wf: "wf_state s" and sorted: "lists_sorted s" and add: "AddJob s k j osts = Some (b, s')"
  shows "lists_sorted s'"
proof (cases "abs_jobs s k")
  case (Some j')
  with AddJob_exists [OF wf, of k j osts] add sorted show ?thesis by auto
next
  case None
  let ?h = "(ms_heap s)(ms_next s \<mapsto> j)"
  have s': "add_to_osts ?h (job_tstart j) (ms_next s) osts (ms_schedule s) = Some (ms_schedule s')"
    "ms_heap s' = ?h" using AddJob_new [OF wf None, of j osts] add by auto
  have "starts_sorted ?h (subscript ost (ms_schedule s))" for ost
  proof -
    have "set (subscript ost (ms_schedule s)) \<subseteq> dom (ms_heap s)"
      using wf by (simp add: wf_state_def allocated_subscript)
    then have "starts_sorted (ms_heap s) (subscript ost (ms_schedule s)) =
        starts_sorted ?h (subscript ost (ms_schedule s))"
      using wf_fresh [OF wf] by (intro starts_sorted_cong) auto
    with sorted show ?thesis by (simp add: lists_sorted_def)
  qed
  with add_to_osts_sorted [of ?h "ms_next s"] s' show ?thesis
    by (simp add: lists_sorted_def)
qed

lemma RemoveJob_sorted:
  assumes wf: "wf_state s" and "lists_sorted s" and "RemoveJob s k = Some (b, s')"
  shows "lists_sorted s'"
  using assms RemoveJob_present [OF wf, of k] RemoveJob_missing [OF wf, of k]
  by (cases "abs_jobs s k") (auto simp: lists_sorted_def)

lemma UpdateJob_sorted:
  assumes wf: "wf_state s" and "lists_sorted s" and "UpdateJob s k st = Some (b, s')"
  shows "lists_sorted s'"
proof (cases "abs_jobs s k")
  case None
  with UpdateJob_missing [OF wf] assms show ?thesis by auto
next
  case (Some j)
  with UpdateJob_present [OF wf Some, of st] assms(3) obtain a where
    s': "ms_schedule s' = ms_schedule s" "ms_heap s a = Some j"
      "ms_heap s' = (ms_heap s)(a \<mapsto> j\<lparr>job_state := st\<rparr>)" by auto
  have "starts_sorted (ms_heap s) (subscript ost (ms_schedule s)) =
      starts_sorted (ms_heap s') (subscript ost (ms_schedule s))" for ost
    using s' wf allocated_subscript [of "ms_heap s" "ms_schedule s" ost]
    by (intro starts_sorted_cong) (auto simp: wf_state_def)
  with assms(2) s'(1) show ?thesis by (simp add: lists_sorted_def)
qed

end
