(* ===== verification/Exec.thy ===== *)
theory Exec
  imports Prelude
begin

text \<open>
  \<open>src/src/common/util.h\<close>: running a shell command and collecting its output.
  What the shell does is outside the program: \<open>popen\<close> is a parameter, a function of the
  world \<open>'w\<close> and the command that gives the bytes the process writes (\<open>None\<close> when
  \<open>popen\<close> returns a null pointer) and the world afterwards. The reading loop with its
  128-byte buffer is the code's.
\<close>

type_synonym 'w popen = "'w \<Rightarrow> string \<Rightarrow> string option \<times> 'w"

text \<open>A \<open>char *\<close> ends at its first zero byte.\<close>

definition c_str :: "string \<Rightarrow> string" where
  "c_str s = takeWhile (\<lambda>c. c \<noteq> CHR 0x00) s"

text \<open>\<open>fgets\<close> with room for \<open>n\<close> characters: the buffer and the unread bytes.\<close>

fun fgets :: "nat \<Rightarrow> string \<Rightarrow> string \<times> string" where
  "fgets 0 bytes = ([], bytes)"
| "fgets (Suc n) [] = ([], [])"
| "fgets (Suc n) (c # bytes) =
     (if c = CHR 0x0A then ([c], bytes)
      else let (buffer, rest) = fgets n bytes in (c # buffer, rest))"

lemma fgets_append: "fgets n bytes = (buffer, rest) \<Longrightarrow> buffer @ rest = bytes"
  by (induction n bytes arbitrary: buffer rule: fgets.induct) (auto split: if_splits prod.splits)

lemma fgets_shorter: "fgets (Suc n) (c # bytes) = (buffer, rest) \<Longrightarrow> length rest < Suc (length bytes)"
  by (auto split: if_splits prod.splits dest!: fgets_append)

function read_pipe :: "string \<Rightarrow> string" where
  "read_pipe bytes =
     (if bytes = [] then []
      else let (buffer, rest) = fgets 127 bytes in c_str buffer @ read_pipe rest)"
  by pat_completeness auto
termination
proof (relation "measure length")
  fix bytes buffer rest and p :: "string \<times> string"
  assume "bytes \<noteq> []" and "p = fgets 127 bytes" and "(buffer, rest) = p"
  then show "(rest, bytes) \<in> measure length"
    by (cases bytes) (auto simp: numeral_eq_Suc dest: fgets_shorter [OF sym] simp del: fgets.simps)
qed simp

declare read_pipe.simps [simp del]

definition exec :: "'w popen \<Rightarrow> 'w \<Rightarrow> string \<Rightarrow> string \<Rightarrow> bool \<times> string \<times> 'w" where
  "exec popen w cmd out =
     (case popen w (c_str cmd) of
        (None, w') \<Rightarrow> (False, out, w')
      | (Some bytes, w') \<Rightarrow> (True, out @ read_pipe bytes, w'))"

lemma c_str_id: "CHR 0x00 \<notin> set s \<Longrightarrow> c_str s = s"
  unfolding c_str_def by (rule takeWhile_eq_all_conv [THEN iffD2]) auto

lemma c_str_no_zero: "CHR 0x00 \<notin> set (c_str s)"
  unfolding c_str_def by (auto dest: set_takeWhileD)

lemma read_pipe_id: "CHR 0x00 \<notin> set bytes \<Longrightarrow> read_pipe bytes = bytes"
proof (induction bytes rule: read_pipe.induct)
  case (1 bytes)
  obtain buffer rest where f: "fgets 127 bytes = (buffer, rest)" by (cases "fgets 127 bytes")
  from fgets_append [OF f] have app: "bytes = buffer @ rest" by simp
  with "1.prems" have no_zero: "CHR 0x00 \<notin> set buffer" "CHR 0x00 \<notin> set rest" by auto
  show ?case
  proof (cases "bytes = []")
    case False
    with "1.IH" f no_zero have "read_pipe rest = rest" by auto
    with False f no_zero app [symmetric] show ?thesis
      by (simp add: read_pipe.simps [of bytes] c_str_id)
  qed (simp add: read_pipe.simps)
qed

lemma read_pipe_no_zero: "CHR 0x00 \<notin> set (read_pipe bytes)"
proof (induction bytes rule: read_pipe.induct)
  case (1 bytes)
  then show ?case
    by (auto simp: read_pipe.simps [of bytes] c_str_no_zero split: prod.split)
qed

section \<open>\<open>std::to_string\<close> for unsigned integers\<close>

function to_string_nat :: "nat \<Rightarrow> string" where
  "to_string_nat n =
     (if n < 10 then [char_of (48 + n)] else to_string_nat (n div 10) @ [char_of (48 + n mod 10)])"
  by pat_completeness auto
termination
  by (relation "measure id") auto

declare to_string_nat.simps [simp del]

definition to_string :: "u32 \<Rightarrow> string" where
  "to_string x = to_string_nat (unat x)"

definition digits_value :: "string \<Rightarrow> nat" where
  "digits_value ds = foldl (\<lambda>v c. 10 * v + (of_char c - 48)) 0 ds"

lemma of_char_digit: "d < 10 \<Longrightarrow> (of_char (char_of (48 + d) :: char) :: nat) = 48 + d"
  by simp

lemma digits_value_to_string_nat: "digits_value (to_string_nat n) = n"
proof (induction n rule: to_string_nat.induct)
  case (1 n)
  show ?case
  proof (cases "n < 10")
    case True
    then show ?thesis
      by (simp add: to_string_nat.simps [of n] digits_value_def of_char_digit del: of_char_of)
  next
    case False
    with 1 have "digits_value (to_string_nat (n div 10)) = n div 10" by simp
    with False show ?thesis
      by (simp add: to_string_nat.simps [of n] digits_value_def of_char_digit del: of_char_of)
  qed
qed

lemma to_string_inject: "to_string x = to_string y \<longleftrightarrow> x = y"
  unfolding to_string_def by (metis digits_value_to_string_nat word_unat_eq_iff)

end
