(* ===== verification/RuleSetter.thy ===== *)
theory RuleSetter
  imports Exec
begin

text \<open>
  \<open>src/src/common/RuleSetter.h\<close>, \<open>SSHRuleSetter.h/.cpp\<close>: starting and stopping a TBF
  rule on an OSS. The abstract class is the record of its two virtual methods; each takes
  the world and returns its result with the world afterwards.
\<close>

record 'w RuleSetter =
  SetRule :: "'w \<Rightarrow> string \<Rightarrow> string \<Rightarrow> string \<Rightarrow> u32 \<Rightarrow> bool \<times> 'w"
  RemoveRule :: "'w \<Rightarrow> string \<Rightarrow> string \<Rightarrow> string \<Rightarrow> bool \<times> 'w"

definition BuildLocalSetRuleCommand :: "string \<Rightarrow> string \<Rightarrow> u32 \<Rightarrow> string" where
  "BuildLocalSetRuleCommand job_id rule_name rpc_rate_limit =
     ''lctl set_param ost.OSS.ost_io.nrs_tbf_rule='' @ [CHR 0x22] @ ''start '' @ rule_name @ '' {'' @
     job_id @ ''} '' @ to_string rpc_rate_limit @ [CHR 0x22]"

definition BuildLocalRemoveRuleCommand :: "string \<Rightarrow> string \<Rightarrow> string" where
  "BuildLocalRemoveRuleCommand job_id rule_name =
     ''lctl set_param ost.OSS.ost_io.nrs_tbf_rule='' @ [CHR 0x22] @ ''stop '' @ rule_name @ [CHR 0x22]"

definition SSHRuleSetter_SetRule ::
  "'w popen \<Rightarrow> 'w \<Rightarrow> string \<Rightarrow> string \<Rightarrow> string \<Rightarrow> u32 \<Rightarrow> bool \<times> 'w" where
  "SSHRuleSetter_SetRule popen w ip job_id rule_name rpc_rate_limit =
     (if length ip = 0 then (False, w)
      else
        let cmd = ''ssh '' @ ip @ '' '' @ BuildLocalSetRuleCommand job_id rule_name rpc_rate_limit
        in case exec popen w cmd [] of (ok, out, w') \<Rightarrow> (ok, w'))"

definition SSHRuleSetter_RemoveRule ::
  "'w popen \<Rightarrow> 'w \<Rightarrow> string \<Rightarrow> string \<Rightarrow> string \<Rightarrow> bool \<times> 'w" where
  "SSHRuleSetter_RemoveRule popen w ip rule_name job_id =
     (let cmd = ''ssh '' @ ip @ '' '' @ BuildLocalRemoveRuleCommand job_id rule_name
      in case exec popen w cmd [] of (ok, out, w') \<Rightarrow> (ok, w'))"

definition SSHRuleSetter :: "'w popen \<Rightarrow> 'w RuleSetter" where
  "SSHRuleSetter popen =
     \<lparr>SetRule = SSHRuleSetter_SetRule popen, RemoveRule = SSHRuleSetter_RemoveRule popen\<rparr>"

end
