(* ===== verification/LustreInterface.thy ===== *)
theory LustreInterface
  imports Exec
begin

text \<open>
  \<open>src/src/common/Lustre.h\<close>: the abstract class \<open>Lustre\<close>. Its users hold a
  \<open>shared_ptr<Lustre>\<close> and call virtual methods, so the object is the record of those
  methods. Each takes the world, its arguments and its out parameters' current values, and
  returns its result, the out parameters and the world afterwards.
\<close>

record getOstsResults =
  ost_number :: string
  ost_uuid :: string
  ost_status :: string

record 'w Lustre =
  lustre_Init :: "'w \<Rightarrow> bool \<times> 'w"
  lustre_MBsToRPCs :: "u32 \<Rightarrow> u32"
  lustre_RPCsToMBs :: "u32 \<Rightarrow> u32"
  lustre_GetOstList :: "'w \<Rightarrow> string \<Rightarrow> getOstsResults list \<Rightarrow> bool \<times> getOstsResults list \<times> 'w"
  lustre_GetOstsForFile :: "'w \<Rightarrow> string \<Rightarrow> string list \<Rightarrow> bool \<times> string list \<times> 'w"
  lustre_GetIPOfOst :: "'w \<Rightarrow> string \<Rightarrow> string \<Rightarrow> bool \<times> string \<times> 'w"

end
