(* ===== verification/OstCaches.thy ===== *)
theory OstCaches
  imports LustreInterface
begin

text \<open>
  \<open>src/src/common/OstIpsCache.h/.cpp\<close> and \<open>OstIdsConverter.h/.cpp\<close>: two lookups that ask
  Lustre once and remember the answer. Both maps are \<open>unordered_map\<close>s that are never
  iterated over, hence HOL maps. Each call holds the cache's mutex throughout.
\<close>

section \<open>The IP cache\<close>

definition GetIp ::
  "'w Lustre \<Rightarrow> (string \<rightharpoonup> string) \<Rightarrow> 'w \<Rightarrow> string \<Rightarrow> string \<times> (string \<rightharpoonup> string) \<times> 'w" where
  "GetIp lustre uuid_to_ip_cache w uuid =
     (case uuid_to_ip_cache uuid of
        Some ip \<Rightarrow> (ip, uuid_to_ip_cache, w)
      | None \<Rightarrow>
          (case lustre_GetIPOfOst lustre w uuid [] of
             (ok, ip, w') \<Rightarrow>
               if \<not> ok then ([], uuid_to_ip_cache, w')
               else (ip, uuid_to_ip_cache(uuid \<mapsto> ip), w')))"

section \<open>The id converter\<close>

definition UpdateCache ::
  "'w Lustre \<Rightarrow> (string \<rightharpoonup> string) \<Rightarrow> 'w \<Rightarrow> (string \<rightharpoonup> string) \<times> 'w" where
  "UpdateCache lustre id_to_uuid w =
     (case lustre_GetOstList lustre w [] [] of
        (ok, ost_list, w') \<Rightarrow>
          if ok then (fold (\<lambda>r m. m(ost_number r \<mapsto> ost_uuid r)) ost_list Map.empty, w')
          else (id_to_uuid, w'))"

definition ToUUID ::
  "'w Lustre \<Rightarrow> (string \<rightharpoonup> string) \<Rightarrow> 'w \<Rightarrow> string \<Rightarrow> string \<times> (string \<rightharpoonup> string) \<times> 'w" where
  "ToUUID lustre id_to_uuid w ost_id =
     (case id_to_uuid ost_id of
        Some uuid \<Rightarrow> (uuid, id_to_uuid, w)
      | None \<Rightarrow>
          (case UpdateCache lustre id_to_uuid w of
             (m, w') \<Rightarrow>
               (case m ost_id of Some uuid \<Rightarrow> (uuid, m, w') | None \<Rightarrow> ([], m, w'))))"

section \<open>What a cached lookup promises\<close>

text \<open>
  A remembered key is answered from memory without touching the world, and a lookup that
  found something remembers it. A growing cache never forgets.
\<close>

locale cached_lookup =
  fixes lookup :: "(string \<rightharpoonup> string) \<Rightarrow> 'w \<Rightarrow> string \<Rightarrow> string \<times> (string \<rightharpoonup> string) \<times> 'w"
  assumes hit: "c k = Some v \<Longrightarrow> lookup c w k = (v, c, w)"
    and fill: "lookup c w k = (v, c', w') \<Longrightarrow> v \<noteq> [] \<Longrightarrow> c' k = Some v"
begin

lemma second_lookup_is_free:
  "lookup c w k = (v, c', w') \<Longrightarrow> v \<noteq> [] \<Longrightarrow> lookup c' w'' k = (v, c', w'')"
  by (rule hit) (rule fill)

end

locale growing_cache = cached_lookup lookup
  for lookup :: "(string \<rightharpoonup> string) \<Rightarrow> 'w \<Rightarrow> string \<Rightarrow> string \<times> (string \<rightharpoonup> string) \<times> 'w" +
  assumes grow: "lookup c w k = (v, c', w') \<Longrightarrow> c \<subseteq>\<^sub>m c'"
begin

text \<open>Looking a whole list up, left to right.\<close>

fun lookup_all :: "(string \<rightharpoonup> string) \<Rightarrow> 'w \<Rightarrow> string list \<Rightarrow> string list \<times> (string \<rightharpoonup> string) \<times> 'w" where
  "lookup_all c w [] = ([], c, w)"
| "lookup_all c w (k # ks) =
     (case lookup c w k of (v, c1, w1) \<Rightarrow>
        (case lookup_all c1 w1 ks of (vs, c2, w2) \<Rightarrow> (v # vs, c2, w2)))"

lemma lookup_all_grow: "lookup_all c w ks = (vs, c', w') \<Longrightarrow> c \<subseteq>\<^sub>m c'"
  by (induction c w ks arbitrary: vs c' w' rule: lookup_all.induct)
    (auto split: prod.splits intro: grow map_le_trans)

lemma lookup_all_hits:
  "list_all2 (\<lambda>k v. c k = Some v) ks vs \<Longrightarrow> lookup_all c w ks = (vs, c, w)"
  by (induction ks arbitrary: vs) (auto simp: list_all2_Cons1 hit)

lemma lookup_all_fill:
  "lookup_all c w ks = (vs, c', w') \<Longrightarrow> [] \<notin> set vs \<Longrightarrow> list_all2 (\<lambda>k v. c' k = Some v) ks vs"
proof (induction c w ks arbitrary: vs c' w' rule: lookup_all.induct)
  case (2 c w k ks)
  then obtain v c1 w1 vs' where step: "lookup c w k = (v, c1, w1)"
    "lookup_all c1 w1 ks = (vs', c', w')" "vs = v # vs'"
    by (auto split: prod.splits)
  have "c1 k = Some v" using fill [OF step(1)] "2.prems"(2) step(3) by auto
  then have "c' k = Some v" using lookup_all_grow [OF step(2)] by (metis domI map_le_def)
  with "2.IH" [OF step(1) [symmetric] refl step(2)] "2.prems"(2) step(3) show ?case by auto
qed simp

lemma lookup_all_twice:
  "lookup_all c w ks = (vs, c', w') \<Longrightarrow> [] \<notin> set vs \<Longrightarrow> lookup_all c' w'' ks = (vs, c', w'')"
  by (blast intro: lookup_all_hits lookup_all_fill)

end

lemma GetIp_hit: "c uuid = Some ip \<Longrightarrow> GetIp lustre c w uuid = (ip, c, w)"
  by (simp add: GetIp_def)

lemma GetIp_fill: "GetIp lustre c w uuid = (ip, c', w') \<Longrightarrow> ip \<noteq> [] \<Longrightarrow> c' uuid = Some ip"
  by (auto simp: GetIp_def split: option.splits prod.splits if_splits)

lemma GetIp_grow: "GetIp lustre c w uuid = (ip, c', w') \<Longrightarrow> c \<subseteq>\<^sub>m c'"
  by (auto simp: GetIp_def map_le_def split: option.splits prod.splits if_splits)

interpretation ips: growing_cache "GetIp lustre" for lustre
  by unfold_locales (auto intro: GetIp_hit GetIp_fill GetIp_grow)

interpretation ids: cached_lookup "ToUUID lustre" for lustre
  by unfold_locales (auto simp: ToUUID_def split: option.splits prod.splits)

lemma GetIp_failure_not_cached:
  "c uuid = None \<Longrightarrow> lustre_GetIPOfOst lustre w uuid [] = (False, ip, w') \<Longrightarrow>
   GetIp lustre c w uuid = ([], c, w')"
  by (simp add: GetIp_def)

lemma UpdateCache_last:
  "lustre_GetOstList lustre w [] [] = (True, rs, w') \<Longrightarrow>
   UpdateCache lustre c w = (map_of (rev (map (\<lambda>r. (ost_number r, ost_uuid r)) rs)), w')"
proof -
  have "fold (\<lambda>r m. m(ost_number r \<mapsto> ost_uuid r)) rs m =
      m ++ map_of (rev (map (\<lambda>r. (ost_number r, ost_uuid r)) rs))" for m
    by (induction rs arbitrary: m) auto
  then show "lustre_GetOstList lustre w [] [] = (True, rs, w') \<Longrightarrow> ?thesis"
    by (simp add: UpdateCache_def)
qed

end
