(* ===== verification/RuleManager.thy ===== *)
theory RuleManager
  imports RuleSetter OstCaches "HOL-Library.AList"
begin

text \<open>
  \<open>src/src/common/RuleManager.h/.cpp\<close>: which TBF rules are active for which job, and the
  calls that set and remove them on the OSSs.

  \<open>oss_to_mbs_map\<close> is an \<open>unordered_map\<close> that is iterated over: it is an association
  list in insertion order, one of the orders the standard leaves open. The futures of
  \<open>std::async\<close> with the default policy may run deferred, at \<open>get\<close> or \<open>wait\<close>: this theory
  runs them then, in index order; \<open>AsyncRules\<close> has every order.
\<close>

record RuleDefinition =
  rule_name :: string
  ost_ips :: "string list"

record RuleManager =
  rm_ip_cache :: "string \<rightharpoonup> string"
  rm_id_cache :: "string \<rightharpoonup> string"
  active_rules :: "string \<rightharpoonup> RuleDefinition"

text \<open>The rule manager after its constructor, on caches that were just constructed.\<close>

definition empty_rules :: RuleManager where
  "empty_rules = \<lparr>rm_ip_cache = Map.empty, rm_id_cache = Map.empty, active_rules = Map.empty\<rparr>"

definition lustre_tbf_rule_postfix :: string where
  "lustre_tbf_rule_postfix = ''_qosp''"

section \<open>Operations\<close>

text \<open>The loop of \<open>determineOstIps\<close>; the caches are members of the collaborators.\<close>

fun determineOstIps ::
  "'w Lustre \<Rightarrow> RuleManager \<Rightarrow> 'w \<Rightarrow> string list \<Rightarrow> string list
    \<Rightarrow> bool \<times> string list \<times> RuleManager \<times> 'w" where
  "determineOstIps lustre rm w [] ips = (True, ips, rm, w)"
| "determineOstIps lustre rm w (ost_id # ost_ids) ips =
     (case ToUUID lustre (rm_id_cache rm) w ost_id of
        (uuid, idc, w1) \<Rightarrow>
          (case GetIp lustre (rm_ip_cache rm) w1 uuid of
             (ip, ipc, w2) \<Rightarrow>
               let rm' = rm\<lparr>rm_id_cache := idc, rm_ip_cache := ipc\<rparr> in
               if ip = [] then (False, ips, rm', w2)
               else determineOstIps lustre rm' w2 ost_ids (ips @ [ip])))"

fun computeOssToMBsAndCountUnique ::
  "u32 \<Rightarrow> string list \<Rightarrow> (string \<times> u32) list \<Rightarrow> string list \<Rightarrow> (string \<times> u32) list \<times> string list" where
  "computeOssToMBsAndCountUnique min_throughput_mbs [] oss_to_mbs_map unique_ost_ips =
     (oss_to_mbs_map, unique_ost_ips)"
| "computeOssToMBsAndCountUnique min_throughput_mbs (ip # ips) oss_to_mbs_map unique_ost_ips =
     (case map_of oss_to_mbs_map ip of
        Some mbs \<Rightarrow>
          computeOssToMBsAndCountUnique min_throughput_mbs ips
            (AList.update ip (mbs + min_throughput_mbs) oss_to_mbs_map) unique_ost_ips
      | None \<Rightarrow>
          computeOssToMBsAndCountUnique min_throughput_mbs ips
            (AList.update ip min_throughput_mbs oss_to_mbs_map) (unique_ost_ips @ [ip]))"

fun run_set_tasks ::
  "'w RuleSetter \<Rightarrow> 'w \<Rightarrow> (string \<times> u32) list \<Rightarrow> string \<Rightarrow> string \<Rightarrow> bool list \<times> 'w" where
  "run_set_tasks setter w [] job rule = ([], w)"
| "run_set_tasks setter w ((ip, mbs) # es) job rule =
     (case SetRule setter w ip job rule mbs of
        (ok, w1) \<Rightarrow> (case run_set_tasks setter w1 es job rule of (oks, w2) \<Rightarrow> (ok # oks, w2)))"

fun run_remove_tasks :: "'w RuleSetter \<Rightarrow> 'w \<Rightarrow> string list \<Rightarrow> string \<Rightarrow> string \<Rightarrow> 'w" where
  "run_remove_tasks setter w [] rule job = w"
| "run_remove_tasks setter w (ip # ips) rule job =
     (case RemoveRule setter w ip rule job of (ok, w1) \<Rightarrow> run_remove_tasks setter w1 ips rule job)"

text \<open>
  The second loop of \<open>SetRulesAsync\<close> starts a clean-up task for the entries whose
  \<open>SetRule\<close> returned false.
\<close>

definition SetRulesAsync ::
  "'w RuleSetter \<Rightarrow> 'w \<Rightarrow> (string \<times> u32) list \<Rightarrow> string \<Rightarrow> string \<Rightarrow> bool \<times> 'w" where
  "SetRulesAsync setter w entries job_id rule =
     (case run_set_tasks setter w entries job_id rule of
        (results, w1) \<Rightarrow>
          let cleanup_tasks = map (fst \<circ> fst) (filter (\<lambda>(e, ok). \<not> ok) (zip entries results));
              w2 = run_remove_tasks setter w1 cleanup_tasks rule job_id
          in (cleanup_tasks = [], w2))"

definition RemoveRulesAsync ::
  "'w RuleSetter \<Rightarrow> 'w \<Rightarrow> string \<Rightarrow> string \<Rightarrow> string list \<Rightarrow> 'w" where
  "RemoveRulesAsync setter w job_id rule ips = run_remove_tasks setter w ips rule job_id"

definition SetRules ::
  "'w Lustre \<Rightarrow> 'w RuleSetter \<Rightarrow> RuleManager \<Rightarrow> 'w \<Rightarrow> string list \<Rightarrow> string \<Rightarrow> u32
    \<Rightarrow> bool \<times> RuleManager \<times> 'w" where
  "SetRules lustre setter rm w ost_ids job_id min_throughput_mbs =
     (if ost_ids = [] \<or> active_rules rm job_id \<noteq> None then (False, rm, w)
      else
        (case determineOstIps lustre rm w ost_ids [] of
           (found, ips, rm1, w1) \<Rightarrow>
             if \<not> found then (False, rm1, w1)
             else
               (case computeOssToMBsAndCountUnique min_throughput_mbs ips [] [] of
                  (oss_to_mbs_map, unique_ost_ips) \<Rightarrow>
                    let rule = lustre_tbf_rule_postfix @ job_id in
                    (case SetRulesAsync setter w1 oss_to_mbs_map job_id rule of
                       (ok, w2) \<Rightarrow>
                         if \<not> ok then (False, rm1, w2)
                         else (True,
                               rm1\<lparr>active_rules := (active_rules rm1)
                                 (job_id \<mapsto> \<lparr>rule_name = rule, ost_ips = unique_ost_ips\<rparr>)\<rparr>,
                               w2)))))"

definition RemoveRules ::
  "'w RuleSetter \<Rightarrow> RuleManager \<Rightarrow> 'w \<Rightarrow> string \<Rightarrow> bool \<times> RuleManager \<times> 'w" where
  "RemoveRules setter rm w job_id =
     (case active_rules rm job_id of
        None \<Rightarrow> (False, rm, w)
      | Some d \<Rightarrow>
          let w' = RemoveRulesAsync setter w job_id (rule_name d) (ost_ips d)
          in (True, rm\<lparr>active_rules := (active_rules rm)(job_id := None)\<rparr>, w'))"

section \<open>The limit of an OSS\<close>

lemma compute_keys:
  "computeOssToMBsAndCountUnique m ips mp uniq = (mp', uniq') \<Longrightarrow> map fst mp = uniq \<Longrightarrow> map fst mp' = uniq'"
proof (induction m ips mp uniq rule: computeOssToMBsAndCountUnique.induct)
  case (2 m ip ips mp uniq)
  show ?case
  proof (cases "map_of mp ip")
    case None
    then have "ip \<notin> set (map fst mp)" by (simp add: map_of_eq_None_iff)
    with 2 None show ?thesis by (simp add: update_keys)
  next
    case (Some v)
    then have "ip \<in> set (map fst mp)" by (metis map_of_eq_None_iff option.distinct(1) set_map)
    with 2 Some show ?thesis by (simp add: update_keys)
  qed
qed simp

lemma compute_distinct:
  "computeOssToMBsAndCountUnique m ips mp uniq = (mp', uniq') \<Longrightarrow> distinct (map fst mp) \<Longrightarrow> distinct (map fst mp')"
  by (induction m ips mp uniq rule: computeOssToMBsAndCountUnique.induct)
    (auto simp: distinct_update split: option.splits)

lemma compute_map:
  "computeOssToMBsAndCountUnique m ips mp uniq = (mp', uniq') \<Longrightarrow>
   map_of mp' ip = (if ip \<in> set ips
     then Some ((case map_of mp ip of None \<Rightarrow> 0 | Some v \<Rightarrow> v) + of_nat (count_list ips ip) * m)
     else map_of mp ip)"
  by (induction m ips mp uniq rule: computeOssToMBsAndCountUnique.induct)
    (auto simp: update_conv' algebra_simps split: option.splits if_splits)

section \<open>The bookkeeping of active rules\<close>

lemma determineOstIps_active:
  "determineOstIps lustre rm w ids ips = (b, ips', rm', w') \<Longrightarrow> active_rules rm' = active_rules rm"
  by (induction lustre rm w ids ips arbitrary: b ips' rm' w' rule: determineOstIps.induct)
    (auto simp: Let_def split: prod.splits if_splits)

lemma determineOstIps_found:
  "determineOstIps lustre rm w ids ips = (True, ips', rm', w') \<Longrightarrow>
   \<exists>found. ips' = ips @ found \<and> length found = length ids \<and> [] \<notin> set found"
proof (induction ids arbitrary: rm w ips)
  case (Cons i ids)
  then obtain rm1 w1 ip where ip: "ip \<noteq> []"
    and rest: "determineOstIps lustre rm1 w1 ids (ips @ [ip]) = (True, ips', rm', w')"
    by (auto simp: Let_def split: prod.splits if_splits)
  from Cons.IH [OF rest] obtain found where
    "ips' = (ips @ [ip]) @ found" "length found = length ids" "[] \<notin> set found" by blast
  with ip show ?case by (intro exI [of _ "ip # found"]) auto
qed simp

lemma SetRules_active:
  assumes "SetRules lustre setter rm w ids job mbs = (ok, rm', w')"
  shows "if ok then ids \<noteq> [] \<and> active_rules rm job = None \<and>
      (\<exists>ips. active_rules rm' = (active_rules rm)
        (job \<mapsto> \<lparr>rule_name = lustre_tbf_rule_postfix @ job, ost_ips = ips\<rparr>))
    else active_rules rm' = active_rules rm"
proof (cases "ids = [] \<or> active_rules rm job \<noteq> None")
  case True
  with assms show ?thesis by (simp add: SetRules_def)
next
  case False
  obtain found ips rm1 w1 where d: "determineOstIps lustre rm w ids [] = (found, ips, rm1, w1)"
    by (cases "determineOstIps lustre rm w ids []") auto
  from assms False d determineOstIps_active [OF d] show ?thesis
    by (auto simp: SetRules_def Let_def split: prod.splits if_splits)
qed

lemma RemoveRules_active:
  "RemoveRules setter rm w job = (ok, rm', w') \<Longrightarrow>
   ok = (active_rules rm job \<noteq> None) \<and> active_rules rm' = (active_rules rm)(job := None)"
  by (auto simp: RemoveRules_def Let_def fun_eq_iff split: option.splits)

section \<open>The rules on the OSSs\<close>

text \<open>
  What a rule setter and Lustre owe the rule manager, in terms of the pairs of OSS address
  and rule name that are installed: a call that succeeds installs or removes the rule, one
  that fails installs nothing, and queries change nothing.
\<close>

definition installs :: "'w RuleSetter \<Rightarrow> ('w \<Rightarrow> (string \<times> string) set) \<Rightarrow> bool" where
  "installs setter inst \<longleftrightarrow>
     (\<forall>w ip job rule mbs ok w'. SetRule setter w ip job rule mbs = (ok, w') \<longrightarrow>
        inst w' = (if ok then insert (ip, rule) (inst w) else inst w)) \<and>
     (\<forall>w ip job rule ok w'. RemoveRule setter w ip rule job = (ok, w') \<longrightarrow>
        inst w' = inst w - {(ip, rule)})"

definition only_queries :: "'w Lustre \<Rightarrow> ('w \<Rightarrow> (string \<times> string) set) \<Rightarrow> bool" where
  "only_queries lustre inst \<longleftrightarrow>
     (\<forall>w path out ok out' w'. lustre_GetOstList lustre w path out = (ok, out', w') \<longrightarrow> inst w' = inst w) \<and>
     (\<forall>w uuid ip ok ip' w'. lustre_GetIPOfOst lustre w uuid ip = (ok, ip', w') \<longrightarrow> inst w' = inst w)"

definition rules_at :: "string list \<Rightarrow> string \<Rightarrow> (string \<times> string) set" where
  "rules_at ips rule = (\<lambda>ip. (ip, rule)) ` set ips"

lemma determineOstIps_queries:
  assumes q: "only_queries lustre inst"
  shows "determineOstIps lustre rm w ids ips = (b, ips', rm', w') \<Longrightarrow> inst w' = inst w"
proof (induction ids arbitrary: rm w ips)
  case (Cons i ids)
  have "ToUUID lustre c w0 i = (u, c', w1) \<Longrightarrow> inst w1 = inst w0" for c w0 i u c' w1
    using q by (auto simp: ToUUID_def UpdateCache_def only_queries_def split: option.splits prod.splits if_splits)
  moreover have "GetIp lustre c w0 u = (ip, c', w1) \<Longrightarrow> inst w1 = inst w0" for c w0 u ip c' w1
    using q by (auto simp: GetIp_def only_queries_def split: option.splits prod.splits if_splits)
  ultimately show ?case
    using Cons by (fastforce simp: Let_def split: prod.splits if_splits)
qed simp

lemma run_remove_tasks_inst:
  assumes "installs setter inst"
  shows "inst (run_remove_tasks setter w ips rule job) = inst w - rules_at ips rule"
  using assms by (induction ips arbitrary: w)
    (auto simp: installs_def rules_at_def split: prod.splits)

lemma run_set_tasks_inst:
  assumes "installs setter inst"
  shows "run_set_tasks setter w es job rule = (oks, w') \<Longrightarrow> length oks = length es \<and>
    inst w' = inst w \<union> rules_at (map (fst \<circ> fst) (filter snd (zip es oks))) rule"
proof (induction es arbitrary: w oks)
  case (Cons e es)
  obtain ip mbs where e: "e = (ip, mbs)" by (cases e)
  obtain ok w1 where s: "SetRule setter w ip job rule mbs = (ok, w1)"
    by (cases "SetRule setter w ip job rule mbs")
  with Cons.prems e obtain oks' where r: "run_set_tasks setter w1 es job rule = (oks', w')" "oks = ok # oks'"
    by (auto split: prod.splits)
  have "inst w1 = (if ok then insert (ip, rule) (inst w) else inst w)"
    using assms s by (auto simp: installs_def)
  with Cons.IH [OF r(1)] r(2) e show ?case by (auto simp: rules_at_def)
qed (simp add: rules_at_def)

lemma SetRulesAsync_inst:
  assumes inst: "installs setter inst" and run: "SetRulesAsync setter w es job rule = (ok, w')"
  shows "\<exists>oks. length oks = length es \<and> ok = (\<forall>b \<in> set oks. b) \<and>
    inst w' = (inst w \<union> rules_at (map (fst \<circ> fst) (filter snd (zip es oks))) rule)
      - rules_at (map (fst \<circ> fst) (filter (Not \<circ> snd) (zip es oks))) rule"
proof -
  obtain oks w1 where s: "run_set_tasks setter w es job rule = (oks, w1)"
    by (cases "run_set_tasks setter w es job rule")
  note set_inst = run_set_tasks_inst [OF inst s]
  let ?failed = "map (fst \<circ> fst) (filter (\<lambda>(e, ok). \<not> ok) (zip es oks))"
  have ok: "ok = (?failed = [])" and w': "w' = run_remove_tasks setter w1 ?failed rule job"
    using run s by (simp_all add: SetRulesAsync_def Let_def)
  have "(?failed = []) = (\<forall>b \<in> set oks. b)"
  proof -
    have "(?failed = []) = (\<forall>b \<in> set (map snd (zip es oks)). b)"
      by (auto simp: filter_empty_conv)
    then show ?thesis using set_inst by simp
  qed
  moreover have "(\<lambda>(e, ok). \<not> ok) = Not \<circ> (snd :: (string \<times> u32) \<times> bool \<Rightarrow> bool)" by auto
  ultimately show ?thesis
    using set_inst ok w' run_remove_tasks_inst [OF inst] by (intro exI [of _ oks]) auto
qed

lemma SetRules_success:
  assumes inst: "installs setter inst" and queries: "only_queries lustre inst"
    and set_rules: "SetRules lustre setter rm w ids job mbs = (True, rm', w')"
  shows "\<exists>d. active_rules rm' job = Some d \<and> distinct (ost_ips d) \<and>
    inst w' = inst w \<union> rules_at (ost_ips d) (rule_name d)"
proof -
  have g: "ids \<noteq> []" "active_rules rm job = None"
    using SetRules_active [OF set_rules] by auto
  obtain found ips rm1 w1 where d: "determineOstIps lustre rm w ids [] = (found, ips, rm1, w1)"
    by (cases "determineOstIps lustre rm w ids []") auto
  obtain es uniq where c: "computeOssToMBsAndCountUnique mbs ips [] [] = (es, uniq)"
    by (cases "computeOssToMBsAndCountUnique mbs ips [] []")
  obtain ok w2 where async: "SetRulesAsync setter w1 es job (lustre_tbf_rule_postfix @ job) = (ok, w2)"
    by (cases "SetRulesAsync setter w1 es job (lustre_tbf_rule_postfix @ job)")
  have ok: "ok" "w2 = w'"
    "active_rules rm' job = Some \<lparr>rule_name = lustre_tbf_rule_postfix @ job, ost_ips = uniq\<rparr>"
    using set_rules g d c async by (auto simp: SetRules_def Let_def split: if_splits)
  have keys: "map fst es = uniq" "distinct uniq"
    using compute_keys [OF c] compute_distinct [OF c] by simp_all
  obtain oks where oks: "length oks = length es" "\<forall>b \<in> set oks. b"
    "inst w' = (inst w1 \<union> rules_at (map (fst \<circ> fst) (filter snd (zip es oks)))
        (lustre_tbf_rule_postfix @ job))
      - rules_at (map (fst \<circ> fst) (filter (Not \<circ> snd) (zip es oks))) (lustre_tbf_rule_postfix @ job)"
    using SetRulesAsync_inst [OF inst async] ok by auto
  have "filter snd (zip es oks) = zip es oks" "filter (Not \<circ> snd) (zip es oks) = []"
    using oks(2) by (auto simp: filter_id_conv filter_empty_conv dest: set_zip_rightD)
  moreover have "map (fst \<circ> fst) (zip es oks) = uniq"
    using oks(1) keys(1) by (metis list.map_comp map_fst_zip)
  ultimately have "inst w' = inst w1 \<union> rules_at uniq (lustre_tbf_rule_postfix @ job)"
    using oks(3) by (simp add: rules_at_def)
  with ok(3) keys(2) determineOstIps_queries [OF queries d] show ?thesis by simp
qed

lemma RemoveRules_inst:
  assumes "installs setter inst" and "RemoveRules setter rm w job = (ok, rm', w')"
  shows "inst w' = inst w - (case active_rules rm job of None \<Rightarrow> {}
    | Some d \<Rightarrow> rules_at (ost_ips d) (rule_name d))"
  using assms by (auto simp: RemoveRules_def RemoveRulesAsync_def Let_def run_remove_tasks_inst
      split: option.splits)

lemma rules_at_filter:
  assumes "distinct (map fst es)" and "length oks = length es" and "i < length es"
  shows "(fst (es ! i), rule) \<in> rules_at (map (fst \<circ> fst) (filter P (zip es oks))) rule'
    \<longleftrightarrow> rule = rule' \<and> P (es ! i, oks ! i)"
proof -
  have z: "length (zip es oks) = length es" using assms(2) by simp
  have "x = (es ! i, oks ! i)" if "x \<in> set (zip es oks)" "fst (fst x) = fst (es ! i)" for x
  proof -
    from that(1) obtain n where n: "n < length es" "x = (es ! n, oks ! n)"
      using assms(2) by (auto simp: set_zip)
    with that(2) assms have "map fst es ! n = map fst es ! i" by simp
    with n(1) assms(1,3) have "n = i" by (simp only: nth_eq_iff_index_eq length_map)
    with n show ?thesis by simp
  qed
  moreover have "(es ! i, oks ! i) \<in> set (zip es oks)"
    using assms(2,3) by (auto simp: set_zip)
  ultimately have *: "(\<exists>x \<in> set (zip es oks). P x \<and> fst (fst x) = fst (es ! i)) \<longleftrightarrow> P (es ! i, oks ! i)"
    by (metis fst_conv)
  have "(fst (es ! i), rule) \<in> rules_at (map (fst \<circ> fst) (filter P (zip es oks))) rule' \<longleftrightarrow>
      rule = rule' \<and> (\<exists>x \<in> set (zip es oks). P x \<and> fst (fst x) = fst (es ! i))"
    unfolding rules_at_def by (auto simp: image_iff) blast
  with * show ?thesis by simp
qed

text \<open>Each OSS ends with the rule exactly when its own \<open>SetRule\<close> succeeded.\<close>

lemma SetRulesAsync_each:
  assumes inst: "installs setter inst" and dist: "distinct (map fst es)"
    and run: "SetRulesAsync setter w es job rule = (ok, w')"
    and new: "\<forall>i<length es. (fst (es ! i), rule) \<notin> inst w"
  shows "\<exists>oks. length oks = length es \<and> ok = (\<forall>b \<in> set oks. b) \<and>
    (\<forall>i<length es. (fst (es ! i), rule) \<in> inst w' \<longleftrightarrow> oks ! i)"
proof -
  obtain oks where oks: "length oks = length es" "ok = (\<forall>b \<in> set oks. b)"
    "inst w' = (inst w \<union> rules_at (map (fst \<circ> fst) (filter snd (zip es oks))) rule)
      - rules_at (map (fst \<circ> fst) (filter (Not \<circ> snd) (zip es oks))) rule"
    using SetRulesAsync_inst [OF inst run] by blast
  have "(fst (es ! i), rule) \<in> inst w' \<longleftrightarrow> oks ! i" if "i < length es" for i
    using rules_at_filter [OF dist oks(1) that, of rule snd rule]
      rules_at_filter [OF dist oks(1) that, of rule "Not \<circ> snd" rule] new that
    by (simp add: oks(3))
  with oks show ?thesis by blast
qed

text \<open>Setting the rules of a job and removing them again.\<close>

lemma set_then_remove:
  assumes inst: "installs setter inst" and queries: "only_queries lustre inst"
    and set_rules: "SetRules lustre setter rm w ids job mbs = (True, rm1, w1)"
    and new: "\<forall>ip. (ip, lustre_tbf_rule_postfix @ job) \<notin> inst w"
  shows "\<exists>rm2 w2. RemoveRules setter rm1 w1 job = (True, rm2, w2) \<and>
    active_rules rm2 = active_rules rm \<and> inst w2 = inst w"
proof -
  from SetRules_active [OF set_rules] obtain ips where a: "active_rules rm job = None"
    "active_rules rm1 = (active_rules rm)
      (job \<mapsto> \<lparr>rule_name = lustre_tbf_rule_postfix @ job, ost_ips = ips\<rparr>)" by auto
  from SetRules_success [OF inst queries set_rules] a have
    "inst w1 = inst w \<union> rules_at ips (lustre_tbf_rule_postfix @ job)" by auto
  moreover obtain ok rm2 w2 where r: "RemoveRules setter rm1 w1 job = (ok, rm2, w2)"
    by (cases "RemoveRules setter rm1 w1 job")
  moreover note RemoveRules_active [OF r] RemoveRules_inst [OF inst r]
  moreover have "((active_rules rm)(job \<mapsto> d))(job := None) = active_rules rm" for d
    using a(1) by auto
  ultimately show ?thesis
    using a(2) new by (auto simp: rules_at_def)
qed

end
