(* ===== verification/JobMonitor.thy ===== *)
theory JobMonitor
  imports JobPriorityQueue MemoryScheduleState RuleManager
begin

text \<open>
  \<open>src/src/common/JobMonitor.h/.cpp\<close>: the component that starts and stops jobs when
  their time comes. A monitor state holds the queue, the in-flight set and the thread flags
  of the class, and the two objects it shares with the scheduler, the schedule and the
  rule manager, with the world those act on.

  The functions of this theory run one call from its first line to its last. A result
  \<open>None\<close> is a call that does not return: undefined behaviour, or a wait on
  \<open>in_flight_jobs_cv_\<close> that no other thread ends. \<open>MonitorThreads\<close> interleaves the
  calls' atomic sections.
\<close>

record 'w Env =
  env_lustre :: "'w Lustre"
  env_setter :: "'w RuleSetter"

record 'w Monitor =
  mon_schedule :: MemoryScheduleState
  mon_rules :: RuleManager
  mon_world :: 'w
  job_priority_queue :: "WaitingItem list"
  in_flight_jobs :: "string set"
  monitor_thread_started :: bool
  monitor_thread_exit_flag :: bool
  monitor_thread_is_active :: bool

definition new_monitor :: "MemoryScheduleState \<Rightarrow> RuleManager \<Rightarrow> 'w \<Rightarrow> 'w Monitor" where
  "new_monitor s rm w =
     \<lparr>mon_schedule = s, mon_rules = rm, mon_world = w, job_priority_queue = [],
      in_flight_jobs = {}, monitor_thread_started = False, monitor_thread_exit_flag = False,
      monitor_thread_is_active = False\<rparr>"

section \<open>Queue access\<close>

definition push_item :: "string \<Rightarrow> time_point \<Rightarrow> JobEvent \<Rightarrow> 'w Monitor \<Rightarrow> 'w Monitor" where
  "push_item jobid time event m =
     m\<lparr>job_priority_queue := Push (job_priority_queue m)
         \<lparr>wi_jobid = jobid, time_of_event = time, eventType = event\<rparr>\<rparr>"

definition RegisterJob :: "'w Monitor \<Rightarrow> Job \<Rightarrow> bool \<times> 'w Monitor" where
  "RegisterJob m job = (True, push_item (job_id job) (job_tstart job) JOBSTART m)"

definition RemoveJobFromPrioQueue :: "'w Monitor \<Rightarrow> Job \<Rightarrow> 'w Monitor" where
  "RemoveJobFromPrioQueue m job =
     (case Remove (job_priority_queue m) (job_id job) of
        (removed, q) \<Rightarrow> m\<lparr>job_priority_queue := q\<rparr>)"

definition isThereAReadyJob :: "'w Monitor \<Rightarrow> time_point \<Rightarrow> bool" where
  "isThereAReadyJob m now =
     (case Peek (job_priority_queue m) of None \<Rightarrow> False | Some x \<Rightarrow> time_of_event x < now)"

fun fill_queue :: "(string \<times> Job) list \<Rightarrow> 'w Monitor \<Rightarrow> 'w Monitor" where
  "fill_queue [] m = m"
| "fill_queue ((k, job) # existing_jobs) m =
     fill_queue existing_jobs
       (case job_state job of
          SCHEDULED \<Rightarrow> push_item (job_id job) (job_tstart job) JOBSTART m
        | ACTIVE \<Rightarrow> push_item (job_id job) (job_tend job) JOBSTOP m
        | INITIALIZED \<Rightarrow> m
        | DONE \<Rightarrow> m)"

definition FillWithExistingJobs :: "'w Monitor \<Rightarrow> 'w Monitor option" where
  "FillWithExistingJobs m =
     do { existing_jobs \<leftarrow> GetAllJobs (mon_schedule m); Some (fill_queue existing_jobs m) }"

text \<open>
  \<open>Init\<close>; \<open>pointers_set\<close> says that neither \<open>scheduleState_\<close> nor \<open>rule_manager_\<close> is
  null. Starting the thread is the step of \<open>MonitorThreads\<close> that follows.
\<close>

definition JobMonitor_Init :: "bool \<Rightarrow> 'w Monitor \<Rightarrow> (bool \<times> 'w Monitor) option" where
  "JobMonitor_Init pointers_set m =
     (if \<not> pointers_set then Some (False, m)
      else do {
        m1 \<leftarrow> FillWithExistingJobs m;
        if \<not> monitor_thread_started m1 then Some (True, m1\<lparr>monitor_thread_started := True\<rparr>)
        else Some (False, m1)
      })"

section \<open>In-flight jobs\<close>

definition BlockJob :: "'w Monitor \<Rightarrow> string \<Rightarrow> 'w Monitor option" where
  "BlockJob m jobid =
     (if jobid \<in> in_flight_jobs m then None
      else Some (m\<lparr>in_flight_jobs := insert jobid (in_flight_jobs m)\<rparr>))"

definition UnblockJob :: "'w Monitor \<Rightarrow> string \<Rightarrow> 'w Monitor" where
  "UnblockJob m jobid = m\<lparr>in_flight_jobs := in_flight_jobs m - {jobid}\<rparr>"

section \<open>Starting and stopping a job\<close>

text \<open>
  Locals the code leaves uninitialised before a getter writes them start at \<open>0\<close> or the
  first enumerator here; they are read only after the getter returned true.
\<close>

definition SetNrsRules :: "'w Env \<Rightarrow> 'w Monitor \<Rightarrow> string \<Rightarrow> (bool \<times> 'w Monitor) option" where
  "SetNrsRules env m jobid =
     do {
       (found, requested_throughput) \<leftarrow> GetJobThroughput (mon_schedule m) jobid 0;
       if \<not> found then Some (False, m)
       else do {
         (ignored, osts_ids) \<leftarrow> GetJobOstIds (mon_schedule m) jobid [];
         case SetRules (env_lustre env) (env_setter env) (mon_rules m) (mon_world m)
                osts_ids jobid requested_throughput of
           (ok, rm, w) \<Rightarrow> Some (ok, m\<lparr>mon_rules := rm, mon_world := w\<rparr>)
       }
     }"

definition StartJob :: "'w Env \<Rightarrow> 'w Monitor \<Rightarrow> string \<Rightarrow> (bool \<times> 'w Monitor) option" where
  "StartJob env m jobid =
     do {
       (found, state) \<leftarrow> GetJobStatus (mon_schedule m) jobid INITIALIZED;
       if \<not> found then Some (False, m)
       else if state \<noteq> SCHEDULED then Some (False, m)
       else do {
         (set_ok, m1) \<leftarrow> SetNrsRules env m jobid;
         if \<not> set_ok then Some (False, m1)
         else do {
           (upd_ok, s2) \<leftarrow> UpdateJob (mon_schedule m1) jobid ACTIVE;
           let m2 = m1\<lparr>mon_schedule := s2\<rparr>;
           if \<not> upd_ok then Some (False, m2)
           else do {
             (end_ok, tend) \<leftarrow> GetJobEnd (mon_schedule m2) jobid 0;
             if \<not> end_ok then Some (False, m2)
             else Some (True, push_item jobid tend JOBSTOP m2)
           }
         }
       }
     }"

definition StopJob :: "'w Env \<Rightarrow> 'w Monitor \<Rightarrow> string \<Rightarrow> (bool \<times> 'w Monitor) option" where
  "StopJob env m jobid =
     do {
       (found, state) \<leftarrow> GetJobStatus (mon_schedule m) jobid INITIALIZED;
       if \<not> found then Some (False, m)
       else if state \<noteq> ACTIVE then Some (False, m)
       else
         case RemoveRules (env_setter env) (mon_rules m) (mon_world m) jobid of
           (removed, rm, w) \<Rightarrow>
             do {
               (ok, s2) \<leftarrow> UpdateJob (mon_schedule m) jobid DONE;
               Some (ok, m\<lparr>mon_schedule := s2, mon_rules := rm, mon_world := w\<rparr>)
             }
     }"

section \<open>The monitor thread's handler and the clients' call\<close>

definition handle_event :: "'w Env \<Rightarrow> 'w Monitor \<Rightarrow> string \<Rightarrow> JobEvent \<Rightarrow> 'w Monitor option" where
  "handle_event env m jobid event =
     (case event of
        JOBSTART \<Rightarrow> do { (ok, m1) \<leftarrow> StartJob env m jobid; Some m1 }
      | JOBSTOP \<Rightarrow>
          do {
            (ok, m1) \<leftarrow> StopJob env m jobid;
            (removed, s) \<leftarrow> RemoveJob (mon_schedule m1) jobid;
            Some (m1\<lparr>mon_schedule := s\<rparr>)
          })"

definition Handle :: "'w Env \<Rightarrow> 'w Monitor \<Rightarrow> string \<Rightarrow> JobEvent \<Rightarrow> 'w Monitor option" where
  "Handle env m jobid event =
     do {
       m1 \<leftarrow> BlockJob m jobid;
       m2 \<leftarrow> handle_event env m1 jobid event;
       Some (UnblockJob m2 jobid)
     }"

definition UnregisterJob :: "'w Env \<Rightarrow> 'w Monitor \<Rightarrow> Job \<Rightarrow> (bool \<times> 'w Monitor) option" where
  "UnregisterJob env m job =
     do {
       m1 \<leftarrow> BlockJob m (job_id job);
       let m2 = RemoveJobFromPrioQueue m1 job;
       (found, state) \<leftarrow> GetJobStatus (mon_schedule m2) (job_id job) INITIALIZED;
       if \<not> found then Some (True, UnblockJob m2 (job_id job))
       else if state = ACTIVE then
         do {
           (stopped, m3) \<leftarrow> StopJob env m2 (job_id job);
           if \<not> stopped then Some (False, UnblockJob m3 (job_id job))
           else Some (True, UnblockJob m3 (job_id job))
         }
       else Some (True, UnblockJob m2 (job_id job))
     }"

section \<open>What each call does\<close>

text \<open>
  The calls are described through three views of a monitor state: the jobs of the schedule
  as a map, the queue as a bag of items, and the active rules.
\<close>

abbreviation mjobs :: "'w Monitor \<Rightarrow> string \<rightharpoonup> Job" where
  "mjobs m \<equiv> abs_jobs (mon_schedule m)"

abbreviation mitems :: "'w Monitor \<Rightarrow> WaitingItem multiset" where
  "mitems m \<equiv> mset (job_priority_queue m)"

abbreviation mrules :: "'w Monitor \<Rightarrow> string \<rightharpoonup> RuleDefinition" where
  "mrules m \<equiv> active_rules (mon_rules m)"

abbreviation mwf :: "'w Monitor \<Rightarrow> bool" where
  "mwf m \<equiv> wf_state (mon_schedule m)"

text \<open>Two states that agree on everything the threads coordinate through.\<close>

definition frame :: "'w Monitor \<Rightarrow> 'w Monitor \<Rightarrow> bool" where
  "frame m m' \<longleftrightarrow> in_flight_jobs m' = in_flight_jobs m \<and>
     monitor_thread_started m' = monitor_thread_started m \<and>
     monitor_thread_exit_flag m' = monitor_thread_exit_flag m \<and>
     monitor_thread_is_active m' = monitor_thread_is_active m"

lemma frame_refl [simp]: "frame m m"
  by (simp add: frame_def)

lemma frame_trans: "frame a b \<Longrightarrow> frame b c \<Longrightarrow> frame a c"
  by (simp add: frame_def)

lemma frame_updates [simp]:
  "frame a (b\<lparr>mon_schedule := s\<rparr>) = frame a b"
  "frame a (b\<lparr>mon_rules := r\<rparr>) = frame a b"
  "frame a (b\<lparr>mon_world := w\<rparr>) = frame a b"
  "frame a (b\<lparr>job_priority_queue := q\<rparr>) = frame a b"
  by (simp_all add: frame_def)

lemma push_item_simps [simp]:
  "mon_schedule (push_item k t e m) = mon_schedule m"
  "mon_rules (push_item k t e m) = mon_rules m"
  "mon_world (push_item k t e m) = mon_world m"
  "mitems (push_item k t e m) = add_mset \<lparr>wi_jobid = k, time_of_event = t, eventType = e\<rparr> (mitems m)"
  "in_flight_jobs (push_item k t e m) = in_flight_jobs m"
  "frame m' (push_item k t e m) = frame m' m"
  by (simp_all add: push_item_def mset_Push frame_def)

lemma isThereAReadyJob_Pop:
  "isThereAReadyJob m now \<Longrightarrow>
   \<exists>x q. Pop (job_priority_queue m) = (Some x, q) \<and> time_of_event x < now"
  by (auto simp: isThereAReadyJob_def split: option.splits dest: jpq.peek_Some)

lemma SetNrsRules_spec:
  assumes "mwf m" and "mjobs m k = Some j"
  shows "\<exists>ok rm w. SetNrsRules env m k = Some (ok, m\<lparr>mon_rules := rm, mon_world := w\<rparr>) \<and>
    SetRules (env_lustre env) (env_setter env) (mon_rules m) (mon_world m) (job_osts j) k
      (job_throughput j) = (ok, rm, w)"
  using assms
  by (cases "SetRules (env_lustre env) (env_setter env) (mon_rules m) (mon_world m) (job_osts j) k
      (job_throughput j)") (simp add: SetNrsRules_def store_laws)

lemma StartJob_refuses:
  assumes "mwf m" and "\<And>j. mjobs m k = Some j \<Longrightarrow> job_state j \<noteq> SCHEDULED"
  shows "StartJob env m k = Some (False, m)"
  using assms by (cases "mjobs m k") (simp_all add: StartJob_def store_laws)

definition stop_item :: "string \<Rightarrow> Job \<Rightarrow> WaitingItem" where
  "stop_item k j = \<lparr>wi_jobid = k, time_of_event = job_tend j, eventType = JOBSTOP\<rparr>"

definition start_item :: "string \<Rightarrow> Job \<Rightarrow> WaitingItem" where
  "start_item k j = \<lparr>wi_jobid = k, time_of_event = job_tstart j, eventType = JOBSTART\<rparr>"

lemma StartJob_scheduled:
  assumes wf: "mwf m" and j: "mjobs m k = Some j" "job_state j = SCHEDULED"
  shows "\<exists>ok m'. StartJob env m k = Some (ok, m') \<and> mwf m' \<and> frame m m' \<and>
    (if ok then mrules m k = None \<and> mjobs m' = (mjobs m)(k \<mapsto> j\<lparr>job_state := ACTIVE\<rparr>) \<and>
        mitems m' = add_mset (stop_item k j) (mitems m) \<and> (\<exists>d. mrules m' = (mrules m)(k \<mapsto> d))
     else mjobs m' = mjobs m \<and> mitems m' = mitems m \<and> mrules m' = mrules m)"
proof -
  obtain ok rm w where s: "SetNrsRules env m k = Some (ok, m\<lparr>mon_rules := rm, mon_world := w\<rparr>)"
    "SetRules (env_lustre env) (env_setter env) (mon_rules m) (mon_world m) (job_osts j) k
      (job_throughput j) = (ok, rm, w)"
    using SetNrsRules_spec [OF wf j(1)] by blast
  note active = SetRules_active [OF s(2)]
  obtain s2 where u: "UpdateJob (mon_schedule m) k ACTIVE = Some (True, s2)" "wf_state s2"
    "abs_jobs s2 = (mjobs m)(k \<mapsto> j\<lparr>job_state := ACTIVE\<rparr>)"
    using mss.upd_law [OF wf, of k ACTIVE] j by auto
  show ?thesis
  proof (cases ok)
    case True
    with wf j s(1) u have "StartJob env m k = Some (True, push_item k (job_tend j) JOBSTOP
        (m\<lparr>mon_rules := rm, mon_world := w, mon_schedule := s2\<rparr>))"
      by (simp add: StartJob_def store_laws)
    moreover from True active obtain ips where "mrules m k = None"
      "active_rules rm = (mrules m)
        (k \<mapsto> \<lparr>rule_name = lustre_tbf_rule_postfix @ k, ost_ips = ips\<rparr>)" by auto
    ultimately show ?thesis
      using u by (intro exI [of _ True] exI [of _ "push_item k (job_tend j) JOBSTOP
        (m\<lparr>mon_rules := rm, mon_world := w, mon_schedule := s2\<rparr>)"] conjI)
        (auto simp: stop_item_def)
  next
    case False
    with wf j s(1) have "StartJob env m k = Some (False, m\<lparr>mon_rules := rm, mon_world := w\<rparr>)"
      by (simp add: StartJob_def store_laws)
    with False active wf show ?thesis
      by (intro exI [of _ False] exI [of _ "m\<lparr>mon_rules := rm, mon_world := w\<rparr>"] conjI)
        auto
  qed
qed

lemma StopJob_refuses:
  assumes "mwf m" and "\<And>j. mjobs m k = Some j \<Longrightarrow> job_state j \<noteq> ACTIVE"
  shows "StopJob env m k = Some (False, m)"
  using assms by (cases "mjobs m k") (simp_all add: StopJob_def store_laws)

lemma StopJob_active:
  assumes wf: "mwf m" and j: "mjobs m k = Some j" "job_state j = ACTIVE"
  shows "\<exists>m'. StopJob env m k = Some (True, m') \<and> mwf m' \<and> frame m m' \<and>
    mjobs m' = (mjobs m)(k \<mapsto> j\<lparr>job_state := DONE\<rparr>) \<and>
    job_priority_queue m' = job_priority_queue m \<and> mrules m' = (mrules m)(k := None)"
proof -
  obtain ok rm w where r: "RemoveRules (env_setter env) (mon_rules m) (mon_world m) k = (ok, rm, w)"
    by (cases "RemoveRules (env_setter env) (mon_rules m) (mon_world m) k") auto
  obtain s2 where u: "UpdateJob (mon_schedule m) k DONE = Some (True, s2)" "wf_state s2"
    "abs_jobs s2 = (mjobs m)(k \<mapsto> j\<lparr>job_state := DONE\<rparr>)"
    using mss.upd_law [OF wf, of k DONE] j by auto
  from wf j r u RemoveRules_active [OF r] show ?thesis
    by (auto simp: StopJob_def store_laws)
qed

lemma handle_stop:
  assumes wf: "mwf m"
  shows "\<exists>m'. handle_event env m k JOBSTOP = Some m' \<and> mwf m' \<and> frame m m' \<and>
    mjobs m' = (mjobs m)(k := None) \<and> job_priority_queue m' = job_priority_queue m \<and>
    mrules m' = (if \<exists>j. mjobs m k = Some j \<and> job_state j = ACTIVE
      then (mrules m)(k := None) else mrules m)"
proof -
  obtain b m1 where m1: "StopJob env m k = Some (b, m1)" "mwf m1" "frame m m1"
    "(mjobs m1)(k := None) = (mjobs m)(k := None)" "job_priority_queue m1 = job_priority_queue m"
    "mrules m1 = (if \<exists>j. mjobs m k = Some j \<and> job_state j = ACTIVE
      then (mrules m)(k := None) else mrules m)"
  proof (cases "\<exists>j. mjobs m k = Some j \<and> job_state j = ACTIVE")
    case True
    then obtain j where "mjobs m k = Some j" "job_state j = ACTIVE" by blast
    from StopJob_active [OF wf this, of env] True that show ?thesis by auto
  next
    case False
    with StopJob_refuses [OF wf, of k env] wf that show ?thesis by auto
  qed
  obtain s where "RemoveJob (mon_schedule m1) k = Some (mjobs m1 k \<noteq> None, s)" "wf_state s"
    "abs_jobs s = (mjobs m1)(k := None)"
    using mss.rem_law [OF m1(2), of k] by blast
  with m1 show ?thesis by (auto simp: handle_event_def)
qed

lemma UnregisterJob_spec:
  assumes wf: "mwf m" and free: "job_id job \<notin> in_flight_jobs m"
  shows "\<exists>m'. UnregisterJob env m job = Some (True, m') \<and> mwf m' \<and> frame m m' \<and>
    job_priority_queue m' = snd (Remove (job_priority_queue m) (job_id job)) \<and>
    (if \<exists>j. mjobs m (job_id job) = Some j \<and> job_state j = ACTIVE
     then mjobs m' = (mjobs m)(job_id job := map_option (\<lambda>j. j\<lparr>job_state := DONE\<rparr>) (mjobs m (job_id job)))
        \<and> mrules m' = (mrules m)(job_id job := None)
     else mjobs m' = mjobs m \<and> mrules m' = mrules m)"
proof -
  let ?k = "job_id job"
  let ?m1 = "m\<lparr>in_flight_jobs := insert ?k (in_flight_jobs m)\<rparr>"
  obtain b q where r: "Remove (job_priority_queue m) ?k = (b, q)"
    by (cases "Remove (job_priority_queue m) ?k")
  let ?m2 = "?m1\<lparr>job_priority_queue := q\<rparr>"
  have block: "BlockJob m ?k = Some ?m1" using free by (simp add: BlockJob_def)
  have m2: "RemoveJobFromPrioQueue ?m1 job = ?m2" using r by (simp add: RemoveJobFromPrioQueue_def)
  have unblock: "frame ?m2 x \<Longrightarrow> frame m (UnblockJob x ?k)" for x
    using free by (simp add: frame_def UnblockJob_def)
  show ?thesis
  proof (cases "\<exists>j. mjobs m ?k = Some j \<and> job_state j = ACTIVE")
    case True
    then obtain j where j: "mjobs ?m2 ?k = Some j" "job_state j = ACTIVE" by auto
    have wf2: "mwf ?m2" using wf by simp
    obtain m3 where m3: "StopJob env ?m2 ?k = Some (True, m3)" "mwf m3" "frame ?m2 m3"
      "mjobs m3 = (mjobs ?m2)(?k \<mapsto> j\<lparr>job_state := DONE\<rparr>)"
      "job_priority_queue m3 = job_priority_queue ?m2" "mrules m3 = (mrules ?m2)(?k := None)"
      using StopJob_active [OF wf2 j] by blast
    have "UnregisterJob env m job = Some (True, UnblockJob m3 ?k)"
      using block m2 wf2 j m3(1) by (simp add: UnregisterJob_def store_laws)
    with m3 unblock [OF m3(3)] r j True show ?thesis
      by (auto simp: UnblockJob_def)
  next
    case False
    then have "UnregisterJob env m job = Some (True, UnblockJob ?m2 ?k)"
      using block m2 wf by (auto simp: UnregisterJob_def store_laws split: option.split)
    with False wf r unblock [of ?m2] show ?thesis by (auto simp: UnblockJob_def)
  qed
qed

end
