(* ===== verification/MonitorLoop.thy ===== *)
theory MonitorLoop
  imports JobMonitor
begin

text \<open>
  The monitor thread of \<open>src/src/common/JobMonitor.cpp\<close>: the loop of \<open>Monitor\<close> that
  handles every event whose time has come, the wait between two passes, and \<open>TearDown\<close>.

  \<open>isThereAReadyJob\<close> reads \<open>system_clock::now()\<close> at each test of the loop; \<open>clock n\<close>
  is the value the \<open>n\<close>-th test reads. The loop is a total function: its measure counts
  two for a start event and one for a stop event, because starting a job may queue the
  stop of that job and nothing else is ever queued by a handler.
\<close>

section \<open>What a handler may queue\<close>

lemma SetNrsRules_queue:
  "SetNrsRules env m k = Some (ok, m') \<Longrightarrow> job_priority_queue m' = job_priority_queue m"
  apply (auto simp: SetNrsRules_def bind_eq_Some_conv split: if_split_asm)
  subgoal for a b aa osts
    by (cases "SetRules (env_lustre env) (env_setter env) (mon_rules m) (mon_world m) osts k b") auto
  done

lemma StartJob_queue:
  assumes "StartJob env m k = Some (ok, m')"
  shows "job_priority_queue m' = job_priority_queue m \<or>
    (\<exists>t. mitems m' = add_mset \<lparr>wi_jobid = k, time_of_event = t, eventType = JOBSTOP\<rparr> (mitems m))"
  using assms
  by (auto simp: StartJob_def bind_eq_Some_conv Let_def mset_Push push_item_def
      dest: SetNrsRules_queue split: if_splits prod.splits)

lemma StopJob_queue:
  "StopJob env m k = Some (ok, m') \<Longrightarrow> job_priority_queue m' = job_priority_queue m"
  by (auto simp: StopJob_def bind_eq_Some_conv split: if_splits prod.splits)

lemma Handle_queue:
  assumes "Handle env m k event = Some m'"
  shows "job_priority_queue m' = job_priority_queue m \<or> event = JOBSTART \<and>
    (\<exists>t. mitems m' = add_mset \<lparr>wi_jobid = k, time_of_event = t, eventType = JOBSTOP\<rparr> (mitems m))"
proof -
  obtain m1 m2 where m1: "BlockJob m k = Some m1" and m2: "handle_event env m1 k event = Some m2"
    and m': "m' = UnblockJob m2 k"
    using assms by (auto simp: Handle_def bind_eq_Some_conv)
  have "job_priority_queue m1 = job_priority_queue m"
    using m1 by (auto simp: BlockJob_def split: if_splits)
  moreover have "job_priority_queue m' = job_priority_queue m2"
    by (simp add: m' UnblockJob_def)
  moreover have "job_priority_queue m2 = job_priority_queue m1 \<or> event = JOBSTART \<and>
    (\<exists>t. mitems m2 = add_mset \<lparr>wi_jobid = k, time_of_event = t, eventType = JOBSTOP\<rparr> (mitems m1))"
  proof (cases event)
    case JOBSTART
    with m2 StartJob_queue [of env m1 k] show ?thesis
      by (auto simp: handle_event_def bind_eq_Some_conv)
  next
    case JOBSTOP
    with m2 StopJob_queue [of env m1 k] show ?thesis
      by (auto simp: handle_event_def bind_eq_Some_conv)
  qed
  ultimately show ?thesis by simp
qed

section \<open>The loop\<close>

fun event_weight :: "WaitingItem \<Rightarrow> nat" where
  "event_weight x = (case eventType x of JOBSTART \<Rightarrow> 2 | JOBSTOP \<Rightarrow> 1)"

definition queue_weight :: "'w Monitor \<Rightarrow> nat" where
  "queue_weight m = sum_mset (image_mset event_weight (mitems m))"

lemma handle_weight:
  assumes "Pop (job_priority_queue m) = (Some wt, q)"
    and "Handle env (m\<lparr>job_priority_queue := q\<rparr>) (wi_jobid wt) (eventType wt) = Some m'"
  shows "queue_weight m' < queue_weight m"
  using Handle_queue [OF assms(2)] mset_Pop [OF assms(1)]
  by (auto simp: queue_weight_def split: JobEvent.split)

function drain_ready :: "'w Env \<Rightarrow> (nat \<Rightarrow> time_point) \<Rightarrow> nat \<Rightarrow> 'w Monitor \<Rightarrow> 'w Monitor option" where
  "drain_ready env clock n m =
     (if \<not> isThereAReadyJob m (clock n) then Some m
      else (case Pop (job_priority_queue m) of
              (None, q) \<Rightarrow> None
            | (Some wt, q) \<Rightarrow>
                (case Handle env (m\<lparr>job_priority_queue := q\<rparr>) (wi_jobid wt) (eventType wt) of
                   None \<Rightarrow> None
                 | Some m1 \<Rightarrow> drain_ready env clock (Suc n) m1)))"
  by pat_completeness auto
termination
  by (relation "measure (\<lambda>(env, clock, n, m). queue_weight m)")
    (auto dest: handle_weight [OF sym])

declare drain_ready.simps [simp del]

text \<open>
  The rest of \<open>Monitor\<close> and \<open>TearDown\<close>, by the sections that hold the queue's mutex.
  \<open>TearDown\<close> returns once the thread is inactive; \<open>TearDown_signal\<close> is its first section
  and \<open>TearDown_may_return\<close> the condition it waits for.
\<close>

definition Monitor_enter :: "'w Monitor \<Rightarrow> 'w Monitor" where
  "Monitor_enter m = m\<lparr>monitor_thread_is_active := True\<rparr>"

definition Monitor_exit :: "'w Monitor \<Rightarrow> 'w Monitor" where
  "Monitor_exit m = m\<lparr>monitor_thread_is_active := False\<rparr>"

definition TearDown_signal :: "'w Monitor \<Rightarrow> 'w Monitor" where
  "TearDown_signal m = m\<lparr>monitor_thread_exit_flag := True\<rparr>"

definition TearDown_may_return :: "'w Monitor \<Rightarrow> bool" where
  "TearDown_may_return m \<longleftrightarrow> \<not> monitor_thread_is_active m"

text \<open>
  The whole call; \<open>thread\<close> is what the monitor thread still does after the flag is set.
\<close>

definition JobMonitor_TearDown ::
  "('w Monitor \<Rightarrow> 'w Monitor option) \<Rightarrow> 'w Monitor \<Rightarrow> (bool \<times> 'w Monitor) option" where
  "JobMonitor_TearDown thread m =
     do { m1 \<leftarrow> thread (TearDown_signal m);
          if TearDown_may_return m1 then Some (True, m1) else None }"

end
