(* ===== verification/JobScheduler.thy ===== *)
theory JobScheduler
  imports MonitorLoop
begin

text \<open>
  \<open>src/src/common/JobScheduler.h\<close>: the interface of the two schedulers, as a locale with
  the laws both keep, and the code they share: the load sum over an OST's job list and the
  removal of a job through the monitor.
\<close>

text \<open>
  The loop of \<open>GetMaxLoadInTimeInterval\<close>: the throughputs of the jobs that overlap the
  interval, in \<open>uint32_t\<close> arithmetic. \<open>None\<close> is a dangling \<open>Job *\<close>.
\<close>

fun sum_load :: "(addr \<rightharpoonup> Job) \<Rightarrow> time_point \<Rightarrow> time_point \<Rightarrow> addr list \<Rightarrow> u32 \<Rightarrow> u32 option" where
  "sum_load h start fin [] max_load_mb_sec = Some max_load_mb_sec"
| "sum_load h start fin (a # job_list) max_load_mb_sec =
     (case h a of None \<Rightarrow> None
      | Some job \<Rightarrow>
          if job_tstart job > fin \<or> job_tend job < start
          then sum_load h start fin job_list max_load_mb_sec
          else sum_load h start fin job_list (max_load_mb_sec + job_throughput job))"

definition overlaps :: "time_point \<Rightarrow> time_point \<Rightarrow> Job \<Rightarrow> bool" where
  "overlaps start fin job \<longleftrightarrow> job_tstart job \<le> fin \<and> start \<le> job_tend job"

lemma sum_load_value:
  "set l \<subseteq> dom h \<Longrightarrow>
   sum_load h start fin l acc = Some (acc +
     (\<Sum>j \<leftarrow> filter (overlaps start fin) (map (\<lambda>a. the (h a)) l). job_throughput j))"
  by (induction l arbitrary: acc) (auto simp: overlaps_def add.assoc)

lemma GetOSTState_allocated:
  "wf_state s \<Longrightarrow> GetOSTState s ost = Some l \<Longrightarrow> set l \<subseteq> dom (ms_heap s)"
  using allocated_subscript [of "ms_heap s" "ms_schedule s" ost]
  by (simp add: wf_state_def GetOSTState_def subscript_def)

text \<open>The common body of the two \<open>JobDoesNotExist\<close>s and of the two \<open>RemoveJob\<close>s.\<close>

definition JobDoesNotExist :: "'w Monitor \<Rightarrow> string \<Rightarrow> JobState \<Rightarrow> (bool \<times> JobState) option" where
  "JobDoesNotExist m jobid state =
     do { (found, state1) \<leftarrow> GetJobStatus (mon_schedule m) jobid state; Some (\<not> found, state1) }"

definition scheduler_RemoveJob ::
  "'w Env \<Rightarrow> 'w Monitor \<Rightarrow> string \<Rightarrow> (bool \<times> 'w Monitor) option" where
  "scheduler_RemoveJob env m jobid =
     do {
       (missing, state) \<leftarrow> JobDoesNotExist m jobid INITIALIZED;
       if missing then Some (False, m)
       else do {
         (ignored, m1) \<leftarrow> UnregisterJob env m (job_of_id jobid);
         (removed, s) \<leftarrow> RemoveJob (mon_schedule m1) jobid;
         Some (removed, m1\<lparr>mon_schedule := s\<rparr>)
       }
     }"

text \<open>The common end of the two \<open>ScheduleJob\<close>s: store the job and register its start.\<close>

definition add_and_register :: "'w Monitor \<Rightarrow> Job \<Rightarrow> (bool \<times> 'w Monitor) option" where
  "add_and_register m job =
     do {
       (added, s) \<leftarrow> AddJob (mon_schedule m) (job_id job) job (job_osts job);
       let m1 = m\<lparr>mon_schedule := s\<rparr>;
       if \<not> added then Some (False, m1)
       else (case RegisterJob m1 job of
               (registered, m2) \<Rightarrow>
                 if \<not> registered then
                   do { (removed, s2) \<leftarrow> RemoveJob (mon_schedule m2) (job_id job);
                        Some (False, m2\<lparr>mon_schedule := s2\<rparr>) }
                 else Some (True, m2))
     }"

section \<open>Their effect\<close>

definition is_active :: "'w Monitor \<Rightarrow> string \<Rightarrow> bool" where
  "is_active m k \<longleftrightarrow> (\<exists>j. mjobs m k = Some j \<and> job_state j = ACTIVE)"

lemma unregister_then_remove:
  assumes wf: "mwf m" and free: "k \<notin> in_flight_jobs m"
  shows "\<exists>m1 s. UnregisterJob env m (job_of_id k) = Some (True, m1) \<and>
    RemoveJob (mon_schedule m1) k = Some (mjobs m k \<noteq> None, s) \<and> wf_state s \<and>
    abs_jobs s = (mjobs m)(k := None) \<and> frame m m1 \<and>
    job_priority_queue m1 = snd (Remove (job_priority_queue m) k) \<and>
    mrules m1 = (if is_active m k then (mrules m)(k := None) else mrules m)"
proof -
  obtain m1 where m1: "UnregisterJob env m (job_of_id k) = Some (True, m1)" "mwf m1" "frame m m1"
    "job_priority_queue m1 = snd (Remove (job_priority_queue m) k)"
    "if is_active m k
     then mjobs m1 = (mjobs m)(k := map_option (\<lambda>j. j\<lparr>job_state := DONE\<rparr>) (mjobs m k))
        \<and> mrules m1 = (mrules m)(k := None)
     else mjobs m1 = mjobs m \<and> mrules m1 = mrules m"
    using UnregisterJob_spec [OF wf, of "job_of_id k" env] free by (auto simp: is_active_def)
  obtain s where s: "RemoveJob (mon_schedule m1) k = Some (mjobs m1 k \<noteq> None, s)" "wf_state s"
    "abs_jobs s = (mjobs m1)(k := None)"
    using mss.rem_law [OF m1(2), of k] by blast
  have "(mjobs m1 k \<noteq> None) = (mjobs m k \<noteq> None)" "(mjobs m1)(k := None) = (mjobs m)(k := None)"
    "mrules m1 = (if is_active m k then (mrules m)(k := None) else mrules m)"
    using m1(5) by (auto split: if_splits)
  with m1(1,3,4) s show ?thesis
    by (intro exI [of _ m1] exI [of _ s] conjI) simp_all
qed

lemma add_and_register_spec:
  assumes wf: "mwf m"
  shows "\<exists>m'. add_and_register m j = Some (mjobs m (job_id j) = None, m') \<and> mwf m' \<and> frame m m' \<and>
    mon_rules m' = mon_rules m \<and> mon_world m' = mon_world m \<and>
    (if mjobs m (job_id j) = None
     then mjobs m' = (mjobs m)(job_id j \<mapsto> j) \<and>
       mitems m' = add_mset (start_item (job_id j) j) (mitems m)
     else mjobs m' = mjobs m \<and> job_priority_queue m' = job_priority_queue m)"
proof (rule mss.add_cases [OF wf, where k = "job_id j" and j = j and os = "job_osts j"])
  fix s' assume s': "mjobs m (job_id j) = None"
    "AddJob (mon_schedule m) (job_id j) j (job_osts j) = Some (True, s')"
    "wf_state s'" "abs_jobs s' = (mjobs m)(job_id j \<mapsto> j)"
  then show ?thesis
    by (intro exI [of _ "push_item (job_id j) (job_tstart j) JOBSTART (m\<lparr>mon_schedule := s'\<rparr>)"])
      (simp add: add_and_register_def RegisterJob_def start_item_def)
next
  fix s' assume "mjobs m (job_id j) \<noteq> None"
    "AddJob (mon_schedule m) (job_id j) j (job_osts j) = Some (False, s')"
    "wf_state s'" "abs_jobs s' = mjobs m"
  then show ?thesis
    by (intro exI [of _ "m\<lparr>mon_schedule := s'\<rparr>"]) (simp add: add_and_register_def)
qed

lemma scheduler_RemoveJob_spec:
  assumes wf: "mwf m" and free: "k \<notin> in_flight_jobs m"
  shows "\<exists>m'. scheduler_RemoveJob env m k = Some (mjobs m k \<noteq> None, m') \<and> mwf m' \<and> frame m m' \<and>
    mjobs m' = (mjobs m)(k := None) \<and>
    job_priority_queue m' = (if mjobs m k = None then job_priority_queue m
      else snd (Remove (job_priority_queue m) k)) \<and>
    mrules m' = (if is_active m k then (mrules m)(k := None) else mrules m)"
proof (cases "mjobs m k")
  case None
  then have "(mjobs m)(k := None) = mjobs m" by auto
  with None wf show ?thesis
    by (intro exI [of _ m]) (simp add: scheduler_RemoveJob_def JobDoesNotExist_def store_laws is_active_def)
next
  case (Some j)
  obtain m1 s where "UnregisterJob env m (job_of_id k) = Some (True, m1)"
    "RemoveJob (mon_schedule m1) k = Some (mjobs m k \<noteq> None, s)" "wf_state s"
    "abs_jobs s = (mjobs m)(k := None)" "frame m m1"
    "job_priority_queue m1 = snd (Remove (job_priority_queue m) k)"
    "mrules m1 = (if is_active m k then (mrules m)(k := None) else mrules m)"
    using unregister_then_remove [OF wf free] by blast
  with Some wf show ?thesis
    by (intro exI [of _ "m1\<lparr>mon_schedule := s\<rparr>"]) (simp add: scheduler_RemoveJob_def JobDoesNotExist_def store_laws)
qed

section \<open>The interface\<close>

text \<open>
  \<open>stored j\<close> is the job object as a scheduler puts it into the schedule. A refused job
  changes nothing; an accepted one is stored under its id with its start event.
\<close>

locale job_scheduler =
  fixes schedule :: "'w Monitor \<Rightarrow> Job \<Rightarrow> (bool \<times> Job \<times> 'w Monitor) option"
    and remove :: "'w Env \<Rightarrow> 'w Monitor \<Rightarrow> string \<Rightarrow> (bool \<times> 'w Monitor) option"
    and stored :: "Job \<Rightarrow> Job"
  assumes schedule_law: "mwf m \<Longrightarrow> \<exists>b j' m'. schedule m j = Some (b, j', m') \<and> mwf m' \<and> frame m m' \<and>
        mon_rules m' = mon_rules m \<and> mon_world m' = mon_world m \<and>
        (if b then mjobs m (job_id j) = None \<and> mjobs m' = (mjobs m)(job_id j \<mapsto> stored j) \<and>
           mitems m' = add_mset (start_item (job_id j) j) (mitems m)
         else mjobs m' = mjobs m \<and> job_priority_queue m' = job_priority_queue m)"
    and remove_law: "mwf m \<Longrightarrow> k \<notin> in_flight_jobs m \<Longrightarrow>
        \<exists>m'. remove env m k = Some (mjobs m k \<noteq> None, m') \<and> mwf m' \<and> frame m m' \<and>
        mjobs m' = (mjobs m)(k := None) \<and>
        job_priority_queue m' = (if mjobs m k = None then job_priority_queue m
          else snd (Remove (job_priority_queue m) k)) \<and>
        mrules m' = (if is_active m k then (mrules m)(k := None) else mrules m)"
begin

lemma duplicate_refused:
  assumes "mwf m" and "mjobs m (job_id j) \<noteq> None"
  shows "\<exists>j' m'. schedule m j = Some (False, j', m') \<and> mjobs m' = mjobs m"
  using schedule_law [OF assms(1), of j] assms(2) by (auto split: if_splits)

lemma accepted:
  assumes "mwf m" and "schedule m j = Some (True, j', m')"
  shows "mwf m'" "frame m m'" "mjobs m (job_id j) = None"
    "mjobs m' = (mjobs m)(job_id j \<mapsto> stored j)"
    "mitems m' = add_mset (start_item (job_id j) j) (mitems m)" "mrules m' = mrules m"
  using schedule_law [OF assms(1), of j] assms(2) by auto

lemma refused:
  assumes "mwf m" and "schedule m j = Some (False, j', m')"
  shows "mwf m'" "frame m m'" "mjobs m' = mjobs m" "job_priority_queue m' = job_priority_queue m"
    "mrules m' = mrules m"
  using schedule_law [OF assms(1), of j] assms(2) by auto

lemma remove_then_unknown:
  assumes "mwf m" and "k \<notin> in_flight_jobs m" and "remove env m k = Some (b, m')"
  shows "\<exists>m''. remove env m' k = Some (False, m'')"
proof -
  have "mwf m'" "frame m m'" "mjobs m' k = None"
    using remove_law [OF assms(1,2), of env] assms(3) by auto
  with remove_law [of m' k env] assms(2) show ?thesis by (auto simp: frame_def)
qed

lemma schedule_then_remove:
  assumes wf: "mwf m" and free: "job_id j \<notin> in_flight_jobs m"
    and run: "schedule m j = Some (True, j', m')" and st: "job_state (stored j) \<noteq> ACTIVE"
  shows "\<exists>m''. remove env m' (job_id j) = Some (True, m'') \<and> mjobs m'' = mjobs m \<and>
    mrules m'' = mrules m"
proof -
  note m' = accepted [OF wf run]
  from free m'(2) have free': "job_id j \<notin> in_flight_jobs m'" by (simp add: frame_def)
  have "(mjobs m')(job_id j := None) = mjobs m" using m'(3,4) by auto
  with remove_law [OF m'(1) free', of env] m'(4,6) st show ?thesis
    by (auto simp: is_active_def)
qed

end

end
