(* ===== verification/Float32.thy ===== *)
theory Float32
  imports Complex_Main Prelude
begin

text \<open>
  The C++ \<open>float\<close> values the schedulers store and compare (IEEE binary32, as the targets of
  this program have it), as exact rationals. Conversions round to nearest, ties to even;
  a value beyond the largest finite float has no conversion (\<open>None\<close>, undefined in C++).
\<close>

definition round_half_even :: "rat \<Rightarrow> int" where
  "round_half_even x =
     (let f = \<lfloor>x\<rfloor>; d = x - of_int f
      in if d < 1/2 then f else if 1/2 < d then f + 1 else if even f then f else f + 1)"

definition float_max :: rat where
  "float_max = (2 ^ 24 - 1) * 2 ^ 104"

text \<open>The spacing of the floats around \<open>x\<close> is \<open>2 ^ k\<close> times the least one, \<open>2 ^ -149\<close>.\<close>

definition float_spacing :: "rat \<Rightarrow> nat option" where
  "float_spacing x = List.find (\<lambda>k. \<bar>x\<bar> * 2 ^ 149 < 2 ^ (k + 24)) [0..<254]"

definition float_of_rat :: "rat \<Rightarrow> rat option" where
  "float_of_rat x =
     (if float_max < \<bar>x\<bar> then None
      else (case float_spacing x of
              None \<Rightarrow> None
            | Some k \<Rightarrow> let u = 2 ^ k / 2 ^ 149 in Some (of_int (round_half_even (x / u)) * u)))"

definition float_of_u32 :: "u32 \<Rightarrow> rat" where
  "float_of_u32 w = (case float_of_rat (of_int (uint w)) of Some x \<Rightarrow> x | None \<Rightarrow> 0)"

section \<open>Exact conversions\<close>

lemma round_half_even_int [simp]: "round_half_even (of_int n) = n"
  by (simp add: round_half_even_def)

lemma find_upt_le:
  assumes "List.find P [0..<n] = Some k" and "j < n" and "P j"
  shows "k \<le> j"
  using assms by (auto simp: find_Some_iff) (metis not_le)

lemma find_upt_ex: "j < n \<Longrightarrow> P j \<Longrightarrow> \<exists>k. List.find P [0..<n] = Some k"
  by (cases "List.find P [0..<n]") (auto simp: find_None_iff)

lemma float_of_rat_small_int:
  assumes "\<bar>n\<bar> < 2 ^ 24"
  shows "float_of_rat (of_int n) = Some (of_int n)"
proof -
  have n: "\<bar>rat_of_int n\<bar> < 2 ^ 24"
    using assms by (metis of_int_abs of_int_less_iff of_int_numeral of_int_power)
  have fits: "\<bar>rat_of_int n\<bar> * 2 ^ 149 < 2 ^ (149 + 24)"
    using n by (simp add: power_add)
  obtain k where k: "float_spacing (of_int n) = Some k" "k \<le> 149"
  proof -
    obtain k where "float_spacing (of_int n) = Some k"
      using find_upt_ex [of 149 254 "\<lambda>k. \<bar>rat_of_int n\<bar> * 2 ^ 149 < 2 ^ (k + 24)"] fits
      by (auto simp: float_spacing_def)
    moreover from this have "k \<le> 149"
      unfolding float_spacing_def by (rule find_upt_le) (use fits in auto)
    ultimately show thesis by (rule that)
  qed
  define u :: rat where "u = 2 ^ k / 2 ^ 149"
  define N where "N = n * 2 ^ (149 - k)"
  have "(2::rat) ^ 149 = 2 ^ (149 - k) * 2 ^ k"
    using k(2) by (simp only: flip: power_add) simp
  then have N: "rat_of_int n / u = of_int N"
    by (simp only: u_def N_def) (simp add: field_simps)
  have "u \<noteq> 0" by (simp add: u_def)
  with N have again: "of_int N * u = rat_of_int n" by (simp add: field_simps)
  have "\<not> float_max < \<bar>rat_of_int n\<bar>"
    using n by (simp add: float_max_def)
  then have "float_of_rat (of_int n) = Some (of_int (round_half_even (rat_of_int n / u)) * u)"
    using k(1) by (simp add: float_of_rat_def Let_def u_def)
  with N again show ?thesis by simp
qed

text \<open>The integers below \<open>2 ^ 24\<close> are evaluated without looking for the spacing.\<close>

lemma float_of_rat_code [code]:
  "float_of_rat x =
     (if snd (quotient_of x) = 1 \<and> \<bar>fst (quotient_of x)\<bar> < 2 ^ 24 then Some x
      else if float_max < \<bar>x\<bar> then None
      else (case float_spacing x of
              None \<Rightarrow> None
            | Some k \<Rightarrow> let u = 2 ^ k / 2 ^ 149 in Some (of_int (round_half_even (x / u)) * u)))"
proof (cases "snd (quotient_of x) = 1 \<and> \<bar>fst (quotient_of x)\<bar> < 2 ^ 24")
  case True
  obtain n d where q: "quotient_of x = (n, d)" by (cases "quotient_of x")
  with True quotient_of_div [OF q] have "x = of_int n" "\<bar>n\<bar> < 2 ^ 24" by simp_all
  with True float_of_rat_small_int show ?thesis by simp
qed (auto simp: float_of_rat_def)

lemma float_of_u32_exact: "uint w < 2 ^ 24 \<Longrightarrow> float_of_u32 w = of_int (uint w)"
  using float_of_rat_small_int [of "uint w"] by (simp only: float_of_u32_def) simp

end
