(* ===== verification/OSTLimits.thy ===== *)
theory OSTLimits
  imports Float32
begin

text \<open>
  \<open>src/src/common/OSTLimitConfigParser.h/.cpp\<close>: the file with the MB/s each OST may
  serve. The JSON library is a parameter: the operations of \<open>nlohmann::json\<close> the code calls
  are the fields of \<open>Json\<close>, over any type \<open>'j\<close> of JSON values. A conversion of the wrong
  type throws, \<open>TypeError\<close>, and nothing up to \<open>main\<close> catches it; a double that no float
  can approximate is \<open>OutOfRange\<close>.
\<close>

record 'j Json =
  json_parse :: "string \<Rightarrow> 'j option" \<comment> \<open>\<open>j << in_stream\<close>, \<open>None\<close> when it throws\<close>
  json_empty :: "'j \<Rightarrow> bool"
  json_elements :: "'j \<Rightarrow> 'j list" \<comment> \<open>what \<open>for (auto &element : j)\<close> visits\<close>
  json_find :: "'j \<Rightarrow> string \<Rightarrow> 'j option" \<comment> \<open>\<open>None\<close> is \<open>end()\<close>\<close>
  json_string :: "'j \<Rightarrow> string option" \<comment> \<open>conversion to \<open>std::string\<close>, \<open>None\<close> when it throws\<close>
  json_double :: "'j \<Rightarrow> rat option" \<comment> \<open>\<open>get<double>()\<close>, \<open>None\<close> when it throws\<close>

datatype limits_error = TypeError | OutOfRange

type_synonym limits = "string \<rightharpoonup> rat"

definition get_float :: "'j Json \<Rightarrow> 'j \<Rightarrow> limits_error + rat" where
  "get_float json j =
     (case json_double json j of
        None \<Rightarrow> Inl TypeError
      | Some x \<Rightarrow> (case float_of_rat x of None \<Rightarrow> Inl OutOfRange | Some f \<Rightarrow> Inr f))"

fun ParseContent :: "'j Json \<Rightarrow> 'j list \<Rightarrow> limits \<Rightarrow> limits_error + limits" where
  "ParseContent json [] limits = Inr limits"
| "ParseContent json (element # elements) limits =
     (case (json_find json element ''name'', json_find json element ''max_mbs'') of
        (Some name_it, Some max_mb_per_sec_it) \<Rightarrow>
          (case json_string json name_it of
             None \<Rightarrow> Inl TypeError
           | Some name \<Rightarrow>
               (case get_float json max_mb_per_sec_it of
                  Inl e \<Rightarrow> Inl e
                | Inr f \<Rightarrow> ParseContent json elements (limits(name \<mapsto> f))))
      | _ \<Rightarrow> ParseContent json elements limits)"

text \<open>\<open>tryToParse\<close> catches what the library throws and gives \<open>None\<close> then.\<close>

definition tryToParse :: "('j, 'x) Json_scheme \<Rightarrow> string \<Rightarrow> 'j option" where
  "tryToParse json in_stream = json_parse json in_stream"

text \<open>\<open>Parse\<close> clears the limits first; \<open>GetLimits\<close> returns the second component.\<close>

definition OSTLimitConfigParser_Parse ::
  "'j Json \<Rightarrow> string \<Rightarrow> limits_error + bool \<times> limits" where
  "OSTLimitConfigParser_Parse json in_stream =
     (case tryToParse json in_stream of
        None \<Rightarrow> Inr (False, Map.empty)
      | Some j \<Rightarrow>
          if json_empty json j then Inr (True, Map.empty)
          else (case ParseContent json (json_elements json j) Map.empty of
                  Inl e \<Rightarrow> Inl e
                | Inr limits \<Rightarrow> Inr (True, limits)))"

section \<open>Lemmas\<close>

text \<open>A JSON value that is an entry for OST \<open>name\<close> with limit \<open>x\<close>.\<close>

definition limit_entry :: "'j Json \<Rightarrow> 'j \<Rightarrow> string \<times> rat \<Rightarrow> bool" where
  "limit_entry json element e \<longleftrightarrow>
     (\<exists>n x. json_find json element ''name'' = Some n \<and> json_string json n = Some (fst e) \<and>
            json_find json element ''max_mbs'' = Some x \<and> json_double json x = Some (snd e))"

lemma ParseContent_entries:
  assumes "list_all2 (limit_entry json) elements es"
    and "\<forall>e \<in> set es. float_of_rat (snd e) = Some (snd e)"
  shows "ParseContent json elements m = Inr (m ++ map_of (rev es))"
  using assms
  by (induction elements es arbitrary: m rule: list_all2_induct)
    (auto simp: limit_entry_def get_float_def)

lemma ParseContent_skips:
  "json_find json element ''name'' = None \<or> json_find json element ''max_mbs'' = None \<Longrightarrow>
   ParseContent json (element # elements) m = ParseContent json elements m"
  by (auto split: option.split)

end
