(* ===== verification/JobSchedulerStaticWorkloads.thy ===== *)
theory JobSchedulerStaticWorkloads
  imports JobScheduler OSTLimits
begin

text \<open>
  \<open>src/src/common/JobSchedulerStaticWorkloads.h/.cpp\<close>: the scheduler the server uses. It
  accepts a job when every OST of it has a configured limit that is not exceeded.

  \<open>GetMaxLoadInTimeInterval\<close> sums the loads into a local and then leaves its out
  parameter alone, unless the OST has no job list. \<open>ScheduleJob\<close> passes it the address of
  an uninitialised \<open>uint32_t\<close>, declared anew in every turn of its loop; what the memory
  holds there in turn \<open>n\<close> is the parameter \<open>uninit n\<close>.
\<close>

definition Static_GetMaxLoadInTimeInterval ::
  "MemoryScheduleState \<Rightarrow> string \<Rightarrow> time_point \<Rightarrow> time_point \<Rightarrow> u32 \<Rightarrow> (bool \<times> u32) option" where
  "Static_GetMaxLoadInTimeInterval s ost start fin maxLoadMBSec =
     (case GetOSTState s ost of
        None \<Rightarrow> Some (True, 0)
      | Some job_list \<Rightarrow>
          do { max_load_mb_sec \<leftarrow> sum_load (ms_heap s) start fin job_list 0;
               Some (True, maxLoadMBSec) })"

definition Static_AreEnoughResAvail :: "limits \<Rightarrow> Job \<Rightarrow> string \<Rightarrow> u32 \<Rightarrow> bool" where
  "Static_AreEnoughResAvail osts_max_mbs_limits job ost max_ost_mb_sec =
     (case osts_max_mbs_limits ost of
        None \<Rightarrow> False
      | Some limit \<Rightarrow> float_of_u32 (max_ost_mb_sec + job_throughput job) \<le> limit)"

fun Static_check_osts ::
  "limits \<Rightarrow> (nat \<Rightarrow> u32) \<Rightarrow> MemoryScheduleState \<Rightarrow> Job \<Rightarrow> nat \<Rightarrow> string list \<Rightarrow> bool option" where
  "Static_check_osts limits uninit s job n [] = Some True"
| "Static_check_osts limits uninit s job n (ost # osts) =
     do {
       (ok, max_ost_mb_sec) \<leftarrow>
         Static_GetMaxLoadInTimeInterval s ost (job_tstart job) (job_tend job) (uninit n);
       if \<not> ok then Some False
       else if \<not> Static_AreEnoughResAvail limits job ost max_ost_mb_sec then Some False
       else Static_check_osts limits uninit s job (Suc n) osts
     }"

definition Static_ScheduleJob ::
  "limits \<Rightarrow> (nat \<Rightarrow> u32) \<Rightarrow> 'w Monitor \<Rightarrow> Job \<Rightarrow> (bool \<times> Job \<times> 'w Monitor) option" where
  "Static_ScheduleJob limits uninit m job =
     do {
       enough \<leftarrow> Static_check_osts limits uninit (mon_schedule m) job 0 (job_osts job);
       if \<not> enough then Some (False, job, m)
       else do {
         let job' = job\<lparr>job_state := SCHEDULED\<rparr>;
         (ok, m') \<leftarrow> add_and_register m job';
         Some (ok, job', m')
       }
     }"

definition Static_RemoveJob :: "'w Env \<Rightarrow> 'w Monitor \<Rightarrow> string \<Rightarrow> (bool \<times> 'w Monitor) option" where
  "Static_RemoveJob env m jobid = scheduler_RemoveJob env m jobid"

definition UpdateLimits :: "limits \<Rightarrow> (string \<rightharpoonup> u32) \<Rightarrow> limits" where
  "UpdateLimits osts_max_mbs_limits new_limits = map_option float_of_u32 \<circ> new_limits"

text \<open>
  \<open>Init\<close>; \<open>read_file\<close> is the content of a file, \<open>None\<close> when it cannot be opened. The
  error is an exception that leaves \<open>Init\<close>.
\<close>

definition Static_Init ::
  "'j Json \<Rightarrow> (string \<Rightarrow> string option) \<Rightarrow> string \<Rightarrow> limits \<Rightarrow> limits_error + bool \<times> limits" where
  "Static_Init json read_file ost_limits_file osts_max_mbs_limits =
     (if ost_limits_file = [] then Inr (True, osts_max_mbs_limits)
      else (case read_file ost_limits_file of
              None \<Rightarrow> Inr (False, osts_max_mbs_limits)
            | Some is \<Rightarrow>
                (case OSTLimitConfigParser_Parse json is of
                   Inl e \<Rightarrow> Inl e
                 | Inr (ok, limits) \<Rightarrow>
                     Inr (if \<not> ok then (False, osts_max_mbs_limits) else (True, limits)))))"

definition Static_Teardown :: "'w Monitor \<Rightarrow> bool \<times> 'w Monitor" where
  "Static_Teardown m = (True, m)"

section \<open>Lemmas\<close>

lemma Static_GetMaxLoad_value:
  assumes "wf_state s"
  shows "Static_GetMaxLoadInTimeInterval s ost start fin out =
    Some (True, if GetOSTState s ost = None then 0 else out)"
  using GetOSTState_allocated [OF assms]
  by (auto simp: Static_GetMaxLoadInTimeInterval_def sum_load_value split: option.split)

lemma Static_check_osts_value:
  "wf_state s \<Longrightarrow> Static_check_osts limits uninit s job n osts = Some
     (\<forall>i<length osts. Static_AreEnoughResAvail limits job (osts ! i)
        (if GetOSTState s (osts ! i) = None then 0 else uninit (n + i)))"
proof (induction osts arbitrary: n)
  case (Cons ost osts)
  then show ?case
    by (simp add: Static_GetMaxLoad_value All_less_Suc2)
qed simp

lemma Static_ScheduleJob_law:
  assumes wf: "mwf m"
  shows "\<exists>b j' m'. Static_ScheduleJob limits uninit m j = Some (b, j', m') \<and> mwf m' \<and> frame m m' \<and>
    mon_rules m' = mon_rules m \<and> mon_world m' = mon_world m \<and>
    (if b then mjobs m (job_id j) = None \<and> mjobs m' = (mjobs m)(job_id j \<mapsto> j\<lparr>job_state := SCHEDULED\<rparr>) \<and>
       mitems m' = add_mset (start_item (job_id j) j) (mitems m)
     else mjobs m' = mjobs m \<and> job_priority_queue m' = job_priority_queue m)"
proof (cases "Static_check_osts limits uninit (mon_schedule m) j 0 (job_osts j) = Some True")
  case True
  with add_and_register_spec [OF wf, of "j\<lparr>job_state := SCHEDULED\<rparr>"] show ?thesis
    by (auto simp: Static_ScheduleJob_def start_item_def split: if_splits)
next
  case False
  with Static_check_osts_value [OF wf, of limits uninit j 0 "job_osts j"] wf show ?thesis
    by (intro exI [of _ False] exI [of _ j] exI [of _ m]) (simp add: Static_ScheduleJob_def)
qed

interpretation static: job_scheduler "Static_ScheduleJob limits uninit" Static_RemoveJob
    "\<lambda>j. j\<lparr>job_state := SCHEDULED\<rparr>" for limits uninit
proof unfold_locales
  fix m :: "'w Monitor" and j assume "mwf m"
  then show "\<exists>b j' m'. Static_ScheduleJob limits uninit m j = Some (b, j', m') \<and> mwf m' \<and> frame m m' \<and>
    mon_rules m' = mon_rules m \<and> mon_world m' = mon_world m \<and>
    (if b then mjobs m (job_id j) = None \<and> mjobs m' = (mjobs m)(job_id j \<mapsto> j\<lparr>job_state := SCHEDULED\<rparr>) \<and>
       mitems m' = add_mset (start_item (job_id j) j) (mitems m)
     else mjobs m' = mjobs m \<and> job_priority_queue m' = job_priority_queue m)"
    by (rule Static_ScheduleJob_law)
next
  fix m :: "'w Monitor" and env k assume "mwf m" and "k \<notin> in_flight_jobs m"
  then show "\<exists>m'. Static_RemoveJob env m k = Some (mjobs m k \<noteq> None, m') \<and> mwf m' \<and> frame m m' \<and>
    mjobs m' = (mjobs m)(k := None) \<and>
    job_priority_queue m' = (if mjobs m k = None then job_priority_queue m
      else snd (Remove (job_priority_queue m) k)) \<and>
    mrules m' = (if is_active m k then (mrules m)(k := None) else mrules m)"
    unfolding Static_RemoveJob_def by (rule scheduler_RemoveJob_spec)
qed

lemma AreEnoughResAvail_exact:
  assumes "limits ost = Some (of_int l)" and "uint (load + job_throughput j) < 2 ^ 24"
  shows "Static_AreEnoughResAvail limits j ost load \<longleftrightarrow> uint (load + job_throughput j) \<le> l"
  using assms(1) float_of_u32_exact [OF assms(2)]
  by (simp only: Static_AreEnoughResAvail_def option.case of_int_le_iff)

text \<open>
  When a job is accepted: what decides is the content of the uninitialised variable, not the
  load of the OST's other jobs.
\<close>

lemma Static_decision:
  assumes wf: "mwf m"
  shows "\<exists>j' m'. Static_ScheduleJob limits uninit m j = Some
    ((\<forall>i<length (job_osts j). Static_AreEnoughResAvail limits j (job_osts j ! i)
        (if GetOSTState (mon_schedule m) (job_osts j ! i) = None then 0 else uninit i)) \<and>
     mjobs m (job_id j) = None, j', m')"
proof -
  note v = Static_check_osts_value [OF wf, of limits uninit j 0 "job_osts j", simplified]
  obtain m' where "add_and_register m (j\<lparr>job_state := SCHEDULED\<rparr>) = Some (mjobs m (job_id j) = None, m')"
    using add_and_register_spec [OF wf, of "j\<lparr>job_state := SCHEDULED\<rparr>"] by auto
  with v show ?thesis by (auto simp: Static_ScheduleJob_def)
qed

end
