(* ===== verification/MonitorInvariant.thy ===== *)
theory MonitorInvariant
  imports JobSchedulerStaticWorkloads
begin

text \<open>
  The invariant that ties the schedule, the monitor's queue and the rule manager together
  between two calls, and its preservation by every operation of the server: scheduling a
  job, deleting one, handling an event, a whole pass of the monitor loop.

  It is a statement per job id. A job that is \<open>SCHEDULED\<close> has its start event queued, or
  lost it when its rules could not be set, and has no rules; an \<open>ACTIVE\<close> job has exactly
  its stop event queued and an entry in \<open>active_rules_\<close>; an id without a job has neither
  events nor rules. No other state is stored.
\<close>

fun key_inv :: "string \<Rightarrow> Job option \<Rightarrow> WaitingItem multiset \<Rightarrow> RuleDefinition option \<Rightarrow> bool" where
  "key_inv k None events rule \<longleftrightarrow> events = {#} \<and> rule = None"
| "key_inv k (Some j) events rule \<longleftrightarrow> job_id j = k \<and>
     (case job_state j of
        SCHEDULED \<Rightarrow> (events = {#} \<or> events = {#start_item k j#}) \<and> rule = None
      | ACTIVE \<Rightarrow> events = {#stop_item k j#} \<and> rule \<noteq> None
      | INITIALIZED \<Rightarrow> False
      | DONE \<Rightarrow> False)"

definition keys_inv :: "'w Monitor \<Rightarrow> bool" where
  "keys_inv m \<longleftrightarrow> (\<forall>k. key_inv k (mjobs m k) (pending (mitems m) k) (mrules m k))"

definition mon_inv :: "'w Monitor \<Rightarrow> bool" where
  "mon_inv m \<longleftrightarrow> mwf m \<and> in_flight_jobs m = {} \<and> keys_inv m"

lemma mon_invD:
  assumes "mon_inv m"
  shows "mwf m" and "in_flight_jobs m = {}" and "keys_inv m"
  using assms by (simp_all add: mon_inv_def)

lemma mon_inv_new: "mon_inv (new_monitor empty_state empty_rules w)"
  by (simp add: mon_inv_def keys_inv_def new_monitor_def empty_rules_def pending_def)

lemma key_inv_one: "key_inv k j events rule \<Longrightarrow> size events \<le> 1"
  by (cases j) (auto split: JobState.splits)

lemma keys_inv_one_event: "keys_inv m \<Longrightarrow> one_event (mitems m)"
  unfolding keys_inv_def one_event_def using key_inv_one by blast

lemma key_inv_active:
  "key_inv k j events rule \<Longrightarrow> rule \<noteq> None \<longleftrightarrow> (\<exists>j'. j = Some j' \<and> job_state j' = ACTIVE)"
  by (cases j) (auto split: JobState.splits)

lemma rules_iff_active: "keys_inv m \<Longrightarrow> mrules m k \<noteq> None \<longleftrightarrow> is_active m k"
  unfolding keys_inv_def is_active_def using key_inv_active by blast

lemma keys_inv_stored:
  assumes "keys_inv m" and "mjobs m k = Some j"
  shows "job_id j = k" and "job_state j = SCHEDULED \<or> job_state j = ACTIVE"
proof -
  have "key_inv k (Some j) (pending (mitems m) k) (mrules m k)"
    using assms by (metis keys_inv_def)
  then show "job_id j = k" "job_state j = SCHEDULED \<or> job_state j = ACTIVE"
    by (auto split: JobState.splits)
qed

text \<open>Only the key an operation works on has to be checked again.\<close>

lemma keys_inv_update:
  assumes "keys_inv m"
    and "\<And>k'. k' \<noteq> k \<Longrightarrow> mjobs m' k' = mjobs m k' \<and> mrules m' k' = mrules m k' \<and>
      pending (mitems m') k' = pending (mitems m) k'"
    and "key_inv k (mjobs m' k) (pending (mitems m') k) (mrules m' k)"
  shows "keys_inv m'"
  using assms unfolding keys_inv_def by metis

lemma key_inv_item:
  assumes "keys_inv m" and "x \<in># mitems m"
  shows "\<exists>j. mjobs m (wi_jobid x) = Some j \<and> job_id j = wi_jobid x \<and>
    pending (mitems m) (wi_jobid x) = {#x#} \<and>
    (eventType x = JOBSTART \<and> job_state j = SCHEDULED \<and> x = start_item (wi_jobid x) j \<or>
     eventType x = JOBSTOP \<and> job_state j = ACTIVE \<and> x = stop_item (wi_jobid x) j)"
proof -
  define k where "k = wi_jobid x"
  have "x \<in># pending (mitems m) k" using assms(2) by (simp add: pending_def k_def)
  moreover have "key_inv k (mjobs m k) (pending (mitems m) k) (mrules m k)"
    using assms(1) by (simp add: keys_inv_def)
  ultimately show ?thesis
    unfolding k_def [symmetric]
    by (cases "mjobs m k") (auto simp: start_item_def stop_item_def split: JobState.splits)
qed

section \<open>Scheduling and deleting a job\<close>

lemma schedule_inv:
  assumes inv: "mon_inv m" and run: "Static_ScheduleJob limits uninit m j = Some (b, j', m')"
  shows "mon_inv m'"
proof (cases b)
  case True
  with run have "Static_ScheduleJob limits uninit m j = Some (True, j', m')" by simp
  note m' = static.accepted [OF mon_invD(1) [OF inv] this]
  have "keys_inv m'"
  proof (rule keys_inv_update [OF mon_invD(3) [OF inv], of "job_id j"])
    show "key_inv (job_id j) (mjobs m' (job_id j)) (pending (mitems m') (job_id j)) (mrules m' (job_id j))"
      using m'(3,4,5,6) mon_invD(3) [OF inv]
      by (auto simp: keys_inv_def pending_add_mset start_item_def dest: spec [of _ "job_id j"])
  qed (use m' in \<open>auto simp: pending_add_mset start_item_def\<close>)
  with m' inv show ?thesis by (simp add: mon_inv_def frame_def)
next
  case False
  with run have "Static_ScheduleJob limits uninit m j = Some (False, j', m')" by simp
  note m' = static.refused [OF mon_invD(1) [OF inv] this]
  with inv show ?thesis by (simp add: mon_inv_def keys_inv_def frame_def)
qed

lemma removed_inv:
  assumes inv: "mon_inv m" and m': "mwf m'" "frame m m'" "mjobs m' = (mjobs m)(k := None)"
    "job_priority_queue m' = snd (Remove (job_priority_queue m) k)"
    "mrules m' = (if is_active m k then (mrules m)(k := None) else mrules m)"
  shows "mon_inv m'"
proof -
  note one = keys_inv_one_event [OF mon_invD(3) [OF inv]]
  obtain b q where q: "Remove (job_priority_queue m) k = (b, q)"
    by (cases "Remove (job_priority_queue m) k")
  note r = jpq.remove_one_event [OF one q]
  have "keys_inv m'"
  proof (rule keys_inv_update [OF mon_invD(3) [OF inv], of k])
    show "key_inv k (mjobs m' k) (pending (mitems m') k) (mrules m' k)"
      using m' q r(2) rules_iff_active [OF mon_invD(3) [OF inv], of k] by auto
  qed (use m' q r(3) in auto)
  with m' inv show ?thesis by (simp add: mon_inv_def frame_def)
qed

definition delete_job :: "'w Env \<Rightarrow> 'w Monitor \<Rightarrow> string \<Rightarrow> (bool \<times> 'w Monitor) option" where
  "delete_job env m jobid =
     do {
       (ignored, m1) \<leftarrow> UnregisterJob env m (job_of_id jobid);
       (removed, s) \<leftarrow> RemoveJob (mon_schedule m1) jobid;
       Some (removed, m1\<lparr>mon_schedule := s\<rparr>)
     }"

lemma delete_job_spec:
  assumes inv: "mon_inv m"
  shows "\<exists>m'. delete_job env m k = Some (mjobs m k \<noteq> None, m') \<and> mon_inv m' \<and>
    mjobs m' = (mjobs m)(k := None) \<and> mrules m' = (mrules m)(k := None) \<and>
    pending (mitems m') k = {#} \<and> (\<forall>k'. k' \<noteq> k \<longrightarrow> pending (mitems m') k' = pending (mitems m) k')"
proof -
  have free: "k \<notin> in_flight_jobs m" using inv by (simp add: mon_inv_def)
  obtain m1 s where d: "UnregisterJob env m (job_of_id k) = Some (True, m1)"
    "RemoveJob (mon_schedule m1) k = Some (mjobs m k \<noteq> None, s)" "wf_state s"
    "abs_jobs s = (mjobs m)(k := None)" "frame m m1"
    "job_priority_queue m1 = snd (Remove (job_priority_queue m) k)"
    "mrules m1 = (if is_active m k then (mrules m)(k := None) else mrules m)"
    using unregister_then_remove [OF mon_invD(1) [OF inv] free] by blast
  let ?m' = "m1\<lparr>mon_schedule := s\<rparr>"
  have inv': "mon_inv ?m'" by (rule removed_inv [OF inv, of ?m' k]) (use d in simp_all)
  have "(mrules m)(k := None) = mrules ?m'"
    using d(7) rules_iff_active [OF mon_invD(3) [OF inv], of k] by (auto simp: fun_eq_iff)
  moreover obtain b q where q: "Remove (job_priority_queue m) k = (b, q)"
    by (cases "Remove (job_priority_queue m) k")
  moreover note jpq.remove_one_event [OF keys_inv_one_event [OF mon_invD(3) [OF inv]] q]
  ultimately show ?thesis
    using d inv' by (intro exI [of _ ?m']) (simp add: delete_job_def)
qed

lemma scheduler_remove_inv:
  assumes inv: "mon_inv m" and run: "Static_RemoveJob env m k = Some (b, m')"
  shows "mon_inv m'"
proof (cases "mjobs m k")
  case None
  have free: "k \<notin> in_flight_jobs m" using inv by (simp add: mon_inv_def)
  have upd: "(mjobs m)(k := None) = mjobs m" using None by auto
  have "mwf m'" "frame m m'" "mjobs m' = mjobs m" "job_priority_queue m' = job_priority_queue m"
    "mrules m' = mrules m"
    using static.remove_law [OF mon_invD(1) [OF inv] free, of env] run None upd
    by (auto simp: is_active_def)
  with inv show ?thesis by (simp add: mon_inv_def keys_inv_def frame_def)
next
  case (Some j)
  have free: "k \<notin> in_flight_jobs m" using inv by (simp add: mon_inv_def)
  show ?thesis
    by (rule removed_inv [OF inv, of m' k])
      (use static.remove_law [OF mon_invD(1) [OF inv] free, of env] run Some in auto)
qed

section \<open>Handling an event\<close>

lemma Handle_inv:
  assumes inv: "mon_inv m" and pop: "Pop (job_priority_queue m) = (Some x, q)"
  shows "\<exists>m'. Handle env (m\<lparr>job_priority_queue := q\<rparr>) (wi_jobid x) (eventType x) = Some m' \<and> mon_inv m'"
proof -
  let ?k = "wi_jobid x"
  let ?m1 = "m\<lparr>job_priority_queue := q, in_flight_jobs := {?k}\<rparr>"
  have block: "BlockJob (m\<lparr>job_priority_queue := q\<rparr>) ?k = Some ?m1"
    using inv by (simp add: BlockJob_def mon_inv_def)
  have items: "mitems m = add_mset x (mset q)" using mset_Pop [OF pop] .
  obtain j where j: "mjobs m ?k = Some j" "job_id j = ?k" "pending (mitems m) ?k = {#x#}"
    "eventType x = JOBSTART \<and> job_state j = SCHEDULED \<and> x = start_item ?k j \<or>
     eventType x = JOBSTOP \<and> job_state j = ACTIVE \<and> x = stop_item ?k j"
    using key_inv_item [OF mon_invD(3) [OF inv], of x] items by auto
  have p1: "pending (mset q) ?k = {#}" "\<And>k'. k' \<noteq> ?k \<Longrightarrow> pending (mset q) k' = pending (mitems m) k'"
    using j(3) items by (auto simp: pending_add_mset)
  have kinv: "key_inv ?k (Some j) {#x#} (mrules m ?k)"
    using mon_invD(3) [OF inv] j(1,3) by (metis keys_inv_def)
  have wf1: "mwf ?m1" and j1: "mjobs ?m1 ?k = Some j" using inv j(1) by (simp_all add: mon_inv_def)
  have finish: "mon_inv (UnblockJob m2 ?k)" if
    "mwf m2" "frame ?m1 m2" "\<And>k'. k' \<noteq> ?k \<Longrightarrow> mjobs m2 k' = mjobs m k' \<and> mrules m2 k' = mrules m k' \<and>
      pending (mitems m2) k' = pending (mset q) k'"
    "key_inv ?k (mjobs m2 ?k) (pending (mitems m2) ?k) (mrules m2 ?k)" for m2
  proof -
    have "keys_inv m2"
      by (rule keys_inv_update [OF mon_invD(3) [OF inv], of ?k]) (use that p1 in auto)
    then show ?thesis using that by (simp add: mon_inv_def keys_inv_def frame_def UnblockJob_def)
  qed
  show ?thesis
  proof (cases "eventType x")
    case JOBSTART
    with j(4) have st: "job_state j = SCHEDULED" by auto
    obtain ok m2 where s: "StartJob env ?m1 ?k = Some (ok, m2)" "mwf m2" "frame ?m1 m2"
      "if ok then mrules ?m1 ?k = None \<and> mjobs m2 = (mjobs ?m1)(?k \<mapsto> j\<lparr>job_state := ACTIVE\<rparr>) \<and>
          mitems m2 = add_mset (stop_item ?k j) (mitems ?m1) \<and> (\<exists>d. mrules m2 = (mrules ?m1)(?k \<mapsto> d))
       else mjobs m2 = mjobs ?m1 \<and> mitems m2 = mitems ?m1 \<and> mrules m2 = mrules ?m1"
      using StartJob_scheduled [OF wf1 j1 st, of env] by blast
    have "mon_inv (UnblockJob m2 ?k)"
    proof (rule finish [OF s(2,3)])
      show "key_inv ?k (mjobs m2 ?k) (pending (mitems m2) ?k) (mrules m2 ?k)"
        using s(4) j(1,2) st p1(1) kinv
        by (cases ok) (auto simp: pending_add_mset stop_item_def)
    qed (use s(4) in \<open>cases ok; auto simp: pending_add_mset stop_item_def\<close>)
    moreover have "Handle env (m\<lparr>job_priority_queue := q\<rparr>) ?k JOBSTART = Some (UnblockJob m2 ?k)"
      using block s(1) by (simp add: Handle_def handle_event_def)
    ultimately show ?thesis using JOBSTART by simp
  next
    case JOBSTOP
    obtain m2 where s: "handle_event env ?m1 ?k JOBSTOP = Some m2" "mwf m2" "frame ?m1 m2"
      "mjobs m2 = (mjobs ?m1)(?k := None)" "job_priority_queue m2 = job_priority_queue ?m1"
      "mrules m2 = (if \<exists>j. mjobs ?m1 ?k = Some j \<and> job_state j = ACTIVE
        then (mrules ?m1)(?k := None) else mrules ?m1)"
      using handle_stop [OF wf1, of env ?k] by blast
    have "mon_inv (UnblockJob m2 ?k)"
      by (rule finish [OF s(2,3)]) (use s(4-6) j JOBSTOP p1(1) in auto)
    with block s(1) JOBSTOP show ?thesis by (simp add: Handle_def)
  qed
qed

lemma drain_ready_inv:
  "mon_inv m \<Longrightarrow> \<exists>m' n'. drain_ready env clock n m = Some m' \<and> mon_inv m' \<and>
     n \<le> n' \<and> \<not> isThereAReadyJob m' (clock n')"
proof (induction env clock n m rule: drain_ready.induct)
  case (1 env clock n m)
  show ?case
  proof (cases "isThereAReadyJob m (clock n)")
    case False
    with 1(2) show ?thesis by (auto simp: drain_ready.simps [of env clock n m])
  next
    case True
    then obtain x q where pop: "Pop (job_priority_queue m) = (Some x, q)"
      using isThereAReadyJob_Pop by blast
    obtain m1 where m1: "Handle env (m\<lparr>job_priority_queue := q\<rparr>) (wi_jobid x) (eventType x) = Some m1"
      "mon_inv m1"
      using Handle_inv [OF "1.prems" pop] by blast
    have step: "drain_ready env clock n m = drain_ready env clock (Suc n) m1"
      using True pop m1(1) by (simp add: drain_ready.simps [of env clock n m])
    obtain m' n' where "drain_ready env clock (Suc n) m1 = Some m'" "mon_inv m'" "Suc n \<le> n'"
      "\<not> isThereAReadyJob m' (clock n')"
      using "1.IH" [of "Some x" q x m1] True pop m1 by auto
    with step show ?thesis by (metis Suc_leD)
  qed
qed

section \<open>What handling an event leads to\<close>

lemma Handle_start_effect:
  assumes inv: "mon_inv m" and pop: "Pop (job_priority_queue m) = (Some x, q)"
    and start: "eventType x = JOBSTART"
  shows "\<exists>j m' set_ok rm w. mjobs m (wi_jobid x) = Some j \<and> job_state j = SCHEDULED \<and>
    SetRules (env_lustre env) (env_setter env) (mon_rules m) (mon_world m) (job_osts j)
      (wi_jobid x) (job_throughput j) = (set_ok, rm, w) \<and>
    Handle env (m\<lparr>job_priority_queue := q\<rparr>) (wi_jobid x) (eventType x) = Some m' \<and>
    mon_rules m' = rm \<and> mon_world m' = w \<and>
    (if set_ok then mjobs m' = (mjobs m)(wi_jobid x \<mapsto> j\<lparr>job_state := ACTIVE\<rparr>) \<and>
       mitems m' = add_mset (stop_item (wi_jobid x) j) (mset q)
     else mjobs m' = mjobs m \<and> mitems m' = mset q)"
proof -
  let ?k = "wi_jobid x"
  let ?m1 = "m\<lparr>job_priority_queue := q, in_flight_jobs := {?k}\<rparr>"
  have block: "BlockJob (m\<lparr>job_priority_queue := q\<rparr>) ?k = Some ?m1"
    using inv by (simp add: BlockJob_def mon_inv_def)
  have "x \<in># mitems m" using mset_Pop [OF pop] by simp
  then obtain j where j: "mjobs m ?k = Some j" "job_state j = SCHEDULED"
    using key_inv_item [OF mon_invD(3) [OF inv], of x] start by auto
  have wf1: "mwf ?m1" and j1: "mjobs ?m1 ?k = Some j" using inv j(1) by (simp_all add: mon_inv_def)
  obtain set_ok rm w where s: "SetNrsRules env ?m1 ?k = Some (set_ok, ?m1\<lparr>mon_rules := rm, mon_world := w\<rparr>)"
    "SetRules (env_lustre env) (env_setter env) (mon_rules ?m1) (mon_world ?m1) (job_osts j) ?k
      (job_throughput j) = (set_ok, rm, w)"
    using SetNrsRules_spec [OF wf1 j1] by blast
  obtain s2 where u: "UpdateJob (mon_schedule m) ?k ACTIVE = Some (True, s2)" "wf_state s2"
    "abs_jobs s2 = (mjobs m)(?k \<mapsto> j\<lparr>job_state := ACTIVE\<rparr>)"
    using mss.upd_law [of "mon_schedule m" ?k ACTIVE] j inv by (auto simp: mon_inv_def)
  have st: "GetJobStatus (mon_schedule m) ?k INITIALIZED = Some (True, SCHEDULED)"
    using mon_invD(1) [OF inv] j by (simp add: store_laws)
  let ?m2 = "if set_ok
    then push_item ?k (job_tend j) JOBSTOP (?m1\<lparr>mon_rules := rm, mon_world := w, mon_schedule := s2\<rparr>)
    else ?m1\<lparr>mon_rules := rm, mon_world := w\<rparr>"
  have "StartJob env ?m1 ?k = Some (set_ok, ?m2)"
    using st s(1) u by (simp add: StartJob_def getter_laws [OF u(2)])
  then have "Handle env (m\<lparr>job_priority_queue := q\<rparr>) ?k (eventType x) = Some (UnblockJob ?m2 ?k)"
    using block start by (simp add: Handle_def handle_event_def)
  with j s(2) u show ?thesis
    by (intro exI [of _ j] exI [of _ "UnblockJob ?m2 ?k"] exI [of _ set_ok] exI [of _ rm] exI [of _ w])
      (simp add: UnblockJob_def stop_item_def)
qed

lemma Handle_start_outcome:
  assumes inv: "mon_inv m" and pop: "Pop (job_priority_queue m) = (Some x, q)"
    and start: "eventType x = JOBSTART"
  shows "\<exists>j m' set_ok rm w. mjobs m (wi_jobid x) = Some j \<and> job_state j = SCHEDULED \<and>
    SetRules (env_lustre env) (env_setter env) (mon_rules m) (mon_world m) (job_osts j)
      (wi_jobid x) (job_throughput j) = (set_ok, rm, w) \<and>
    Handle env (m\<lparr>job_priority_queue := q\<rparr>) (wi_jobid x) (eventType x) = Some m' \<and>
    mrules m' = active_rules rm \<and>
    (if set_ok then mjobs m' = (mjobs m)(wi_jobid x \<mapsto> j\<lparr>job_state := ACTIVE\<rparr>) \<and>
       mitems m' = add_mset (stop_item (wi_jobid x) j) (mset q)
     else mjobs m' = mjobs m \<and> mitems m' = mset q)"
  using Handle_start_effect [OF assms, of env] by blast

text \<open>The rules after a stop event are those \<open>RemoveRules\<close> leaves.\<close>

lemma Handle_stop_effect:
  assumes inv: "mon_inv m" and pop: "Pop (job_priority_queue m) = (Some x, q)"
    and stop: "eventType x = JOBSTOP"
    and r: "RemoveRules (env_setter env) (mon_rules m) (mon_world m) (wi_jobid x) = (b, rm, w)"
  shows "\<exists>m'. Handle env (m\<lparr>job_priority_queue := q\<rparr>) (wi_jobid x) (eventType x) = Some m' \<and>
    mjobs m' = (mjobs m)(wi_jobid x := None) \<and> mon_rules m' = rm \<and> mon_world m' = w \<and>
    job_priority_queue m' = q"
proof -
  let ?k = "wi_jobid x"
  let ?m1 = "m\<lparr>job_priority_queue := q, in_flight_jobs := {?k}\<rparr>"
  have block: "BlockJob (m\<lparr>job_priority_queue := q\<rparr>) ?k = Some ?m1"
    using inv by (simp add: BlockJob_def mon_inv_def)
  have "x \<in># mitems m" using mset_Pop [OF pop] by simp
  then obtain j where j: "mjobs m ?k = Some j" "job_state j = ACTIVE"
    using key_inv_item [OF mon_invD(3) [OF inv], of x] stop by auto
  obtain s2 where u: "UpdateJob (mon_schedule m) ?k DONE = Some (True, s2)" "wf_state s2"
    "abs_jobs s2 = (mjobs m)(?k \<mapsto> j\<lparr>job_state := DONE\<rparr>)"
    using mss.upd_law [of "mon_schedule m" ?k DONE] j inv by (auto simp: mon_inv_def)
  obtain s3 where d: "RemoveJob s2 ?k = Some (True, s3)" "abs_jobs s3 = (abs_jobs s2)(?k := None)"
    using mss.rem_law [OF u(2), of ?k] u(3) by auto
  have st: "GetJobStatus (mon_schedule m) ?k INITIALIZED = Some (True, ACTIVE)"
    using mon_invD(1) [OF inv] j by (simp add: store_laws)
  let ?m2 = "?m1\<lparr>mon_schedule := s3, mon_rules := rm, mon_world := w\<rparr>"
  have "handle_event env ?m1 ?k JOBSTOP = Some ?m2"
    using st r u(1) d(1) by (simp add: handle_event_def StopJob_def)
  then have "Handle env (m\<lparr>job_priority_queue := q\<rparr>) ?k (eventType x) = Some (UnblockJob ?m2 ?k)"
    using block stop by (simp add: Handle_def)
  with u(3) d(2) show ?thesis by (intro exI [of _ "UnblockJob ?m2 ?k"]) (simp add: UnblockJob_def)
qed

lemma Handle_stop_outcome:
  assumes inv: "mon_inv m" and pop: "Pop (job_priority_queue m) = (Some x, q)"
    and stop: "eventType x = JOBSTOP"
  shows "\<exists>m'. Handle env (m\<lparr>job_priority_queue := q\<rparr>) (wi_jobid x) (eventType x) = Some m' \<and>
    mjobs m' = (mjobs m)(wi_jobid x := None) \<and> mrules m' = (mrules m)(wi_jobid x := None) \<and>
    job_priority_queue m' = q"
proof -
  let ?k = "wi_jobid x"
  let ?m1 = "m\<lparr>job_priority_queue := q, in_flight_jobs := {?k}\<rparr>"
  have block: "BlockJob (m\<lparr>job_priority_queue := q\<rparr>) ?k = Some ?m1"
    using inv by (simp add: BlockJob_def mon_inv_def)
  have wf1: "mwf ?m1" using inv by (simp add: mon_inv_def)
  have "x \<in># mitems m" using mset_Pop [OF pop] by simp
  then obtain j where "mjobs m ?k = Some j" "job_state j = ACTIVE"
    using key_inv_item [OF mon_invD(3) [OF inv], of x] stop by auto
  then show ?thesis
    using handle_stop [OF wf1, of env ?k] block stop
    by (auto simp: Handle_def UnblockJob_def)
qed

section \<open>Starting the monitor on an existing schedule\<close>

fun state_event :: "string \<Rightarrow> Job \<Rightarrow> WaitingItem multiset" where
  "state_event k j =
     (case job_state j of SCHEDULED \<Rightarrow> {#start_item k j#} | ACTIVE \<Rightarrow> {#stop_item k j#}
      | INITIALIZED \<Rightarrow> {#} | DONE \<Rightarrow> {#})"

lemma fill_queue_pending:
  "distinct (map fst js) \<Longrightarrow> \<forall>(k, j) \<in> set js. job_id j = k \<Longrightarrow>
   pending (mitems (fill_queue js m)) k = pending (mitems m) k +
     (case map_of js k of None \<Rightarrow> {#} | Some j \<Rightarrow> state_event k j)"
proof (induction js arbitrary: m)
  case (Cons e js)
  obtain k' j where e: "e = (k', j)" by (cases e)
  have "map_of js k = None" if "k = k'" using that Cons.prems(1) e by (auto simp: map_of_eq_None_iff)
  with Cons e show ?case
    by (cases "job_state j") (auto simp: pending_add_mset start_item_def stop_item_def)
qed simp

lemma fill_queue_frame:
  "mon_schedule (fill_queue js m) = mon_schedule m" "mon_rules (fill_queue js m) = mon_rules m"
  "in_flight_jobs (fill_queue js m) = in_flight_jobs m"
  "monitor_thread_started (fill_queue js m) = monitor_thread_started m"
  by (induction js m rule: fill_queue.induct) (auto simp: push_item_def split: JobState.split)

definition keyed :: "'w Monitor \<Rightarrow> bool" where
  "keyed m \<longleftrightarrow> (\<forall>k j. mjobs m k = Some j \<longrightarrow> job_id j = k)"

lemma FillWithExistingJobs_spec:
  assumes wf: "mwf m" and keyed: "keyed m"
  shows "\<exists>js. FillWithExistingJobs m = Some (fill_queue js m) \<and> (\<forall>k.
    pending (mitems (fill_queue js m)) k = pending (mitems m) k +
      (case mjobs m k of None \<Rightarrow> {#} | Some j \<Rightarrow> state_event k j))"
proof -
  obtain js where js: "GetAllJobs (mon_schedule m) = Some js" "smap_ok js" "map_of js = mjobs m"
    using GetAllJobs_abs [OF wf] by blast
  have ids: "\<forall>(k, j) \<in> set js. job_id j = k"
    using keyed js(3) smap_in_set_iff [OF js(2)] unfolding keyed_def by auto
  have "FillWithExistingJobs m = Some (fill_queue js m)"
    using js(1) by (simp add: FillWithExistingJobs_def)
  with fill_queue_pending [OF smap_ok_distinct [OF js(2)] ids, of m] js(3) show ?thesis
    by (intro exI [of _ js]) simp
qed

lemma JobMonitor_Init_inv:
  assumes wf: "mwf m" and keyed: "keyed m" and empty: "job_priority_queue m = []"
    and idle: "in_flight_jobs m = {}" "\<not> monitor_thread_started m"
    and states: "\<forall>k j. mjobs m k = Some j \<longrightarrow> job_state j = SCHEDULED \<or> job_state j = ACTIVE"
    and rules: "\<forall>k. mrules m k \<noteq> None \<longleftrightarrow> is_active m k"
  shows "\<exists>m'. JobMonitor_Init True m = Some (True, m') \<and> mon_inv m' \<and> mjobs m' = mjobs m"
proof -
  obtain js where js: "FillWithExistingJobs m = Some (fill_queue js m)"
    "\<And>k. pending (mitems (fill_queue js m)) k = pending (mitems m) k +
      (case mjobs m k of None \<Rightarrow> {#} | Some j \<Rightarrow> state_event k j)"
    using FillWithExistingJobs_spec [OF wf keyed] by blast
  let ?m' = "(fill_queue js m)\<lparr>monitor_thread_started := True\<rparr>"
  have init: "JobMonitor_Init True m = Some (True, ?m')"
    using js(1) idle(2) by (simp add: JobMonitor_Init_def fill_queue_frame)
  have "key_inv k (mjobs m k) (pending (mitems ?m') k) (mrules m k)" for k
  proof (cases "mjobs m k")
    case None
    with rules [rule_format, of k] have "mrules m k = None" by (simp add: is_active_def)
    with js(2) [of k] empty None show ?thesis by (simp add: pending_def)
  next
    case (Some j)
    then have "job_id j = k" "job_state j = SCHEDULED \<or> job_state j = ACTIVE"
      "mrules m k \<noteq> None \<longleftrightarrow> job_state j = ACTIVE"
      using keyed states rules by (auto simp: keyed_def is_active_def)
    with js(2) [of k] empty Some show ?thesis by (auto simp: pending_def)
  qed
  with wf idle(1) have "mon_inv ?m'" by (simp add: mon_inv_def keys_inv_def fill_queue_frame)
  with init show ?thesis by (auto simp: fill_queue_frame)
qed

lemma JobMonitor_Init_again:
  assumes inv: "mon_inv m" and started: "monitor_thread_started m"
  shows "\<exists>m'. JobMonitor_Init True m = Some (False, m') \<and>
    (\<forall>k. pending (mitems m') k = pending (mitems m) k +
      (case mjobs m k of None \<Rightarrow> {#} | Some j \<Rightarrow> state_event k j))"
proof -
  have "keyed m"
    unfolding keyed_def using keys_inv_stored(1) [OF mon_invD(3) [OF inv]] by blast
  with FillWithExistingJobs_spec [OF mon_invD(1) [OF inv]] started show ?thesis
    by (auto simp: JobMonitor_Init_def fill_queue_frame)
qed

end
