(* ===== verification/Messages.thy ===== *)
theory Messages
  imports Prelude
begin

text \<open>
  \<open>src/src/common/rpc/proto/message.proto\<close> and the classes generated from it
  (\<open>message.pb.h/.cc\<close>): the messages clients and server exchange. Each class is a record of
  its fields, each \<open>oneof\<close> a datatype with the empty case, and the accessors the program
  calls are the functions below. A getter of a \<open>oneof\<close> member that is not set returns the
  default instance, and a \<open>mutable_\<close> accessor clears whatever else the \<open>oneof\<close> held.
  Enumerations of proto3 are open: a value without a name stays what it is.
\<close>

datatype Request_Type = INVALID | RESERVE | DELETE | LISTJOBS | OtherRequestType "32 word"

datatype Error_errorType = EARGS | EUNKNOWN | OtherErrorType "32 word"

datatype Message_Type = REQUEST | REPLY | OtherMessageType "32 word"

record Request_DeleteRequest =
  dr_id :: "string list"
  dr_all :: bool

record Request_ResourceRequest =
  rr_id :: string
  rr_throughputmb :: "32 word"
  rr_tstart :: "64 word"
  rr_durationsec :: "64 word"
  rr_files :: "string list"

record Request_ListJobsRequest =
  lj_regex :: string

datatype RtCase = RT_NOT_SET
  | kResourceRequest Request_ResourceRequest
  | kDeleteRequest Request_DeleteRequest
  | kListJobsRequest Request_ListJobsRequest

record Request =
  req_type :: Request_Type
  req_rt :: RtCase

record Error =
  err_error :: Error_errorType
  err_msg :: string

record Reply =
  rep_rc :: "32 word"
  rep_error :: "Error option"
  rep_return_msg :: string

datatype RqCase = RQ_NOT_SET | kRequest Request | kReply Reply

record Message =
  msg_type :: Message_Type
  msg_rq :: RqCase

section \<open>Default instances\<close>

definition default_DeleteRequest :: Request_DeleteRequest where
  "default_DeleteRequest = \<lparr>dr_id = [], dr_all = False\<rparr>"

definition default_ResourceRequest :: Request_ResourceRequest where
  "default_ResourceRequest =
     \<lparr>rr_id = [], rr_throughputmb = 0, rr_tstart = 0, rr_durationsec = 0, rr_files = []\<rparr>"

definition default_ListJobsRequest :: Request_ListJobsRequest where
  "default_ListJobsRequest = \<lparr>lj_regex = []\<rparr>"

definition default_Request :: Request where
  "default_Request = \<lparr>req_type = INVALID, req_rt = RT_NOT_SET\<rparr>"

definition default_Error :: Error where
  "default_Error = \<lparr>err_error = EARGS, err_msg = []\<rparr>"

definition default_Reply :: Reply where
  "default_Reply = \<lparr>rep_rc = 0, rep_error = None, rep_return_msg = []\<rparr>"

definition default_Message :: Message where
  "default_Message = \<lparr>msg_type = REQUEST, msg_rq = RQ_NOT_SET\<rparr>"

section \<open>Accessors\<close>

definition resourcerequest :: "Request \<Rightarrow> Request_ResourceRequest" where
  "resourcerequest r = (case req_rt r of kResourceRequest x \<Rightarrow> x | _ \<Rightarrow> default_ResourceRequest)"

definition deleterequest :: "Request \<Rightarrow> Request_DeleteRequest" where
  "deleterequest r = (case req_rt r of kDeleteRequest x \<Rightarrow> x | _ \<Rightarrow> default_DeleteRequest)"

definition listjobsrequest :: "Request \<Rightarrow> Request_ListJobsRequest" where
  "listjobsrequest r = (case req_rt r of kListJobsRequest x \<Rightarrow> x | _ \<Rightarrow> default_ListJobsRequest)"

definition request :: "Message \<Rightarrow> Request" where
  "request m = (case msg_rq m of kRequest x \<Rightarrow> x | _ \<Rightarrow> default_Request)"

definition reply :: "Message \<Rightarrow> Reply" where
  "reply m = (case msg_rq m of kReply x \<Rightarrow> x | _ \<Rightarrow> default_Reply)"

definition reply_error :: "Reply \<Rightarrow> Error" where
  "reply_error r = (case rep_error r of Some e \<Rightarrow> e | None \<Rightarrow> default_Error)"

definition has_request :: "Message \<Rightarrow> bool" where
  "has_request m = (case msg_rq m of kRequest x \<Rightarrow> True | _ \<Rightarrow> False)"

definition has_reply :: "Message \<Rightarrow> bool" where
  "has_reply m = (case msg_rq m of kReply x \<Rightarrow> True | _ \<Rightarrow> False)"

text \<open>
  A \<open>mutable_\<close> accessor returns a pointer the caller writes through; the write is the
  function argument.
\<close>

definition mutable_resourcerequest ::
  "(Request_ResourceRequest \<Rightarrow> Request_ResourceRequest) \<Rightarrow> Request \<Rightarrow> Request" where
  "mutable_resourcerequest f r = r\<lparr>req_rt := kResourceRequest (f (resourcerequest r))\<rparr>"

definition mutable_deleterequest ::
  "(Request_DeleteRequest \<Rightarrow> Request_DeleteRequest) \<Rightarrow> Request \<Rightarrow> Request" where
  "mutable_deleterequest f r = r\<lparr>req_rt := kDeleteRequest (f (deleterequest r))\<rparr>"

definition mutable_listjobsrequest ::
  "(Request_ListJobsRequest \<Rightarrow> Request_ListJobsRequest) \<Rightarrow> Request \<Rightarrow> Request" where
  "mutable_listjobsrequest f r = r\<lparr>req_rt := kListJobsRequest (f (listjobsrequest r))\<rparr>"

definition mutable_request :: "(Request \<Rightarrow> Request) \<Rightarrow> Message \<Rightarrow> Message" where
  "mutable_request f m = m\<lparr>msg_rq := kRequest (f (request m))\<rparr>"

definition mutable_reply :: "(Reply \<Rightarrow> Reply) \<Rightarrow> Message \<Rightarrow> Message" where
  "mutable_reply f m = m\<lparr>msg_rq := kReply (f (reply m))\<rparr>"

definition release_request :: "Message \<Rightarrow> Message" where
  "release_request m = (if has_request m then m\<lparr>msg_rq := RQ_NOT_SET\<rparr> else m)"

lemmas accessor_defs = resourcerequest_def deleterequest_def listjobsrequest_def request_def
  reply_def reply_error_def has_request_def has_reply_def

lemma mutable_simps [simp]:
  "resourcerequest (mutable_resourcerequest f r) = f (resourcerequest r)"
  "deleterequest (mutable_deleterequest f' r) = f' (deleterequest r)"
  "listjobsrequest (mutable_listjobsrequest f'' r) = f'' (listjobsrequest r)"
  "request (mutable_request g m) = g (request m)"
  "reply (mutable_reply h m) = h (reply m)"
  "has_reply (mutable_reply h m)" "has_request (mutable_request g m)"
  "\<not> has_request (mutable_reply h m)" "\<not> has_reply (mutable_request g m)"
  "msg_type (mutable_reply h m) = msg_type m" "msg_type (mutable_request g m) = msg_type m"
  "req_type (mutable_resourcerequest f r) = req_type r"
  "req_type (mutable_deleterequest f' r) = req_type r"
  "req_type (mutable_listjobsrequest f'' r) = req_type r"
  by (simp_all add: accessor_defs mutable_resourcerequest_def mutable_deleterequest_def
      mutable_listjobsrequest_def mutable_request_def mutable_reply_def)

lemma mutable_reply_drops_request:
  "request (mutable_reply h m) = default_Request"
  by (simp add: mutable_reply_def request_def)

lemma release_request_simps [simp]:
  "release_request (mutable_reply h m) = mutable_reply h m"
  "\<not> has_request (release_request m)"
  "has_reply (release_request m) = has_reply m"
  "has_reply m \<Longrightarrow> release_request m = m"
  by (auto simp: release_request_def mutable_reply_def accessor_defs split: RqCase.splits)

end
