(* ===== verification/ListJobsFormatter.thy ===== *)
theory ListJobsFormatter
  imports Job Exec
begin

text \<open>
  \<open>src/src/common/ListJobsFormatter.h/.cpp\<close>: the table of reservations. The stream keeps
  its text, the field width (which an insertion uses up, and \<open>put_time\<close> ignores and leaves
  set) and the adjustment. Formatting a \<open>time_t\<close> in local time by \<open>"%b %d %T"\<close> is the
  parameter \<open>put_time\<close>.
\<close>

record ostream =
  os_text :: string
  os_width :: nat
  os_left :: bool

definition new_stream :: ostream where
  "new_stream = \<lparr>os_text = [], os_width = 0, os_left = False\<rparr>"

definition set_left :: "ostream \<Rightarrow> ostream" where
  "set_left s = s\<lparr>os_left := True\<rparr>"

definition setw :: "nat \<Rightarrow> ostream \<Rightarrow> ostream" where
  "setw n s = s\<lparr>os_width := n\<rparr>"

definition pad :: "bool \<Rightarrow> nat \<Rightarrow> string \<Rightarrow> string" where
  "pad left_adjust width x =
     (let fill = replicate (width - length x) CHR '' ''
      in if left_adjust then x @ fill else fill @ x)"

definition insert_text :: "string \<Rightarrow> ostream \<Rightarrow> ostream" where
  "insert_text x s = s\<lparr>os_text := os_text s @ pad (os_left s) (os_width s) x, os_width := 0\<rparr>"

definition insert_time :: "string \<Rightarrow> ostream \<Rightarrow> ostream" where
  "insert_time x s = s\<lparr>os_text := os_text s @ x\<rparr>"

definition AddEndline :: "ostream \<Rightarrow> ostream" where
  "AddEndline s = s\<lparr>os_text := os_text s @ [CHR 0x0A]\<rparr>"

section \<open>The formatter\<close>

definition kReservationShift :: nat where "kReservationShift = 15"
definition kThroughputShift :: nat where "kThroughputShift = 20"
definition kJobstateShift :: nat where "kJobstateShift = 15"
definition kTimeEndShift :: nat where "kTimeEndShift = 20"

text \<open>\<open>system_clock::to_time_t\<close> truncates nanoseconds towards zero.\<close>

definition to_time_t :: "time_point \<Rightarrow> int" where
  "to_time_t t = (if t < 0 then - ((- t) div 1000000000) else t div 1000000000)"

definition AddHeader :: "ostream \<Rightarrow> ostream" where
  "AddHeader s =
     (let s = insert_text ''Reserv.-ID'' (setw kReservationShift (set_left s));
          s = insert_text ''Throughput [MB/s]'' (setw kThroughputShift (set_left s));
          s = insert_text ''State'' (setw kJobstateShift (set_left s));
          s = insert_text ''TEnd'' (setw kTimeEndShift (set_left s))
      in AddEndline s)"

definition AddReservationID :: "Job \<Rightarrow> ostream \<Rightarrow> ostream" where
  "AddReservationID j s = insert_text (job_id j) (setw kReservationShift (set_left s))"

definition AddThroughput :: "Job \<Rightarrow> ostream \<Rightarrow> ostream" where
  "AddThroughput j s = insert_text (to_string (job_throughput j)) (setw kThroughputShift (set_left s))"

definition AddJobState :: "Job \<Rightarrow> ostream \<Rightarrow> ostream" where
  "AddJobState j s = insert_text (JobStateToString (job_state j)) (setw kJobstateShift s)"

definition AddTend :: "(int \<Rightarrow> string) \<Rightarrow> Job \<Rightarrow> ostream \<Rightarrow> ostream" where
  "AddTend put_time j s =
     insert_time (put_time (to_time_t (job_tend j))) (setw kTimeEndShift (set_left s))"

definition AddJobLine :: "(int \<Rightarrow> string) \<Rightarrow> Job \<Rightarrow> ostream \<Rightarrow> ostream" where
  "AddJobLine put_time j s =
     AddEndline (AddTend put_time j (AddJobState j (AddThroughput j (AddReservationID j s))))"

fun AddJobs :: "(int \<Rightarrow> string) \<Rightarrow> Job list \<Rightarrow> ostream \<Rightarrow> ostream" where
  "AddJobs put_time [] s = s"
| "AddJobs put_time (j # jobs) s = AddJobs put_time jobs (AddJobLine put_time j s)"

text \<open>The result is the text and the formatter's stream afterwards.\<close>

definition Format :: "(int \<Rightarrow> string) \<Rightarrow> ostream \<Rightarrow> Job list \<Rightarrow> string \<times> ostream" where
  "Format put_time stream jobs =
     (if jobs = [] then ([], stream)
      else (os_text (AddJobs put_time jobs (AddHeader stream)), new_stream))"

section \<open>The table\<close>

definition job_line :: "(int \<Rightarrow> string) \<Rightarrow> Job \<Rightarrow> string" where
  "job_line put_time j =
     pad True 15 (job_id j) @ pad True 20 (to_string (job_throughput j)) @
     pad True 15 (JobStateToString (job_state j)) @ put_time (to_time_t (job_tend j)) @ [CHR 0x0A]"

definition header_line :: string where
  "header_line = pad True 15 ''Reserv.-ID'' @ pad True 20 ''Throughput [MB/s]'' @
     pad True 15 ''State'' @ pad True 20 ''TEnd'' @ [CHR 0x0A]"

lemmas stream_ops = insert_text_def insert_time_def setw_def set_left_def AddEndline_def

lemma length_pad: "length (pad l n x) = max n (length x)"
  by (auto simp: pad_def Let_def)

lemma AddJobLine_text: "os_text (AddJobLine put_time j s) = os_text s @ job_line put_time j"
  by (simp add: AddJobLine_def AddTend_def AddJobState_def AddThroughput_def AddReservationID_def
      stream_ops job_line_def kReservationShift_def kThroughputShift_def kJobstateShift_def)

lemma AddJobs_text:
  "os_text (AddJobs put_time jobs s) = os_text s @ concat (map (job_line put_time) jobs)"
  by (induction jobs arbitrary: s) (simp_all add: AddJobLine_text)

lemma AddHeader_text: "os_text (AddHeader s) = os_text s @ header_line"
  by (simp add: AddHeader_def header_line_def stream_ops kReservationShift_def kThroughputShift_def
      kJobstateShift_def kTimeEndShift_def)

lemma Format_text:
  "jobs \<noteq> [] \<Longrightarrow> Format put_time new_stream jobs =
     (header_line @ concat (map (job_line put_time) jobs), new_stream)"
  by (simp add: Format_def AddJobs_text AddHeader_text new_stream_def)

end
