(* ===== verification/Planner.thy ===== *)
theory Planner
  imports MonitorInvariant Messages ListJobsFormatter
begin

text \<open>
  \<open>src/src/common/Planner.h/.cpp\<close>: the object behind the server. It owns the schedule, the
  rule manager and the monitor (one \<open>Monitor\<close> state here) and the scheduler's limits, and
  serves the three kinds of request.

  Parameters: the clock's value \<open>now\<close>, the regular expression library (\<open>compile\<close> gives the
  search function of an expression, \<open>None\<close> when the constructor throws), the local time
  format, and the order \<open>iterate\<close> in which an \<open>unordered_set\<close> is traversed. A call that
  does not return is \<open>Inl\<close>: \<open>Undefined\<close> is undefined behaviour or an endless wait,
  \<open>RegexError\<close> the exception of \<open>std::regex\<close>, which no caller catches.
\<close>

datatype serve_failure = Undefined | RegexError

record 'w Planner =
  pl_monitor :: "'w Monitor"
  pl_limits :: limits
  pl_ost_limits_file :: string

definition defined :: "'a option \<Rightarrow> serve_failure + 'a" where
  "defined r = (case r of None \<Rightarrow> Inl Undefined | Some x \<Rightarrow> Inr x)"

section \<open>Submission\<close>

fun tryComputeOstSetOfRequest ::
  "'w Lustre \<Rightarrow> 'w \<Rightarrow> string list \<Rightarrow> string set \<Rightarrow> bool \<times> string set \<times> 'w" where
  "tryComputeOstSetOfRequest lustre w [] osts_set = (True, osts_set, w)"
| "tryComputeOstSetOfRequest lustre w (file # files) osts_set =
     (case lustre_GetOstsForFile lustre w file [] of
        (ok, osts, w1) \<Rightarrow>
          if \<not> ok then (False, osts_set, w1)
          else tryComputeOstSetOfRequest lustre w1 files (osts_set \<union> set osts))"

text \<open>\<open>time_point::max()\<close>, and a sum of tick counts that does not leave 64 bits.\<close>

definition time_point_max :: time_point where
  "time_point_max = 2 ^ 63 - 1"

definition in_int64 :: "int \<Rightarrow> bool" where
  "in_int64 x \<longleftrightarrow> - (2 ^ 63) \<le> x \<and> x < 2 ^ 63"

definition add_seconds :: "time_point \<Rightarrow> int \<Rightarrow> time_point option" where
  "add_seconds t secs =
     (if in_int64 (secs * 1000000000) \<and> in_int64 (t + secs * 1000000000)
      then Some (t + secs * 1000000000) else None)"

definition BuildJob ::
  "Request_ResourceRequest \<Rightarrow> time_point \<Rightarrow> time_point \<Rightarrow> string list \<Rightarrow> Job" where
  "BuildJob req tstart tend osts =
     (new_job (rr_id req) tstart tend (rr_throughputmb req))
       \<lparr>job_state := INITIALIZED, job_osts := osts\<rparr>"

definition ServeJobSubmission ::
  "'w Env \<Rightarrow> (nat \<Rightarrow> u32) \<Rightarrow> (string set \<Rightarrow> string list) \<Rightarrow> time_point \<Rightarrow> 'w Planner \<Rightarrow> Message
    \<Rightarrow> serve_failure + bool \<times> Message \<times> 'w Planner" where
  "ServeJobSubmission env uninit iterate now p msg =
     (let req = resourcerequest (request msg); m = pl_monitor p in
      if length (rr_files req) = 0 then Inr (True, msg, p)
      else
        (case tryComputeOstSetOfRequest (env_lustre env) (mon_world m) (rr_files req) {} of
           (ok, osts_set, w1) \<Rightarrow>
             let m1 = m\<lparr>mon_world := w1\<rparr> in
             if \<not> ok then Inr (False, msg, p\<lparr>pl_monitor := m1\<rparr>)
             else
               (case (if 0 < sint (rr_durationsec req)
                      then add_seconds now (sint (rr_durationsec req)) else Some time_point_max) of
                  None \<Rightarrow> Inl Undefined
                | Some tend \<Rightarrow>
                    (case Static_ScheduleJob (pl_limits p) uninit m1
                            (BuildJob req now tend (iterate osts_set)) of
                       None \<Rightarrow> Inl Undefined
                     | Some (success, job, m2) \<Rightarrow>
                         Inr (success,
                              mutable_reply (\<lambda>r. r\<lparr>rep_rc := if success then 0 else - 1\<rparr>) msg,
                              p\<lparr>pl_monitor := m2\<rparr>)))))"

section \<open>Removal\<close>

fun remove_ids :: "'w Env \<Rightarrow> 'w Monitor \<Rightarrow> string list \<Rightarrow> 'w Monitor option" where
  "remove_ids env m [] = Some m"
| "remove_ids env m (i # ids) =
     do { (removed, m1) \<leftarrow> delete_job env m i; remove_ids env m1 ids }"

definition ServeJobRemove ::
  "'w Env \<Rightarrow> 'w Planner \<Rightarrow> Message \<Rightarrow> serve_failure + bool \<times> Message \<times> 'w Planner" where
  "ServeJobRemove env p msg =
     (case remove_ids env (pl_monitor p) (dr_id (deleterequest (request msg))) of
        None \<Rightarrow> Inl Undefined
      | Some m1 \<Rightarrow>
          let success = True in
          Inr (success, mutable_reply (\<lambda>r. r\<lparr>rep_rc := if success then 0 else 1\<rparr>) msg,
               p\<lparr>pl_monitor := m1\<rparr>))"

section \<open>Listing\<close>

definition AddDefaultRegexIfEmpty :: "Message \<Rightarrow> Message" where
  "AddDefaultRegexIfEmpty msg =
     (if lj_regex (listjobsrequest (request msg)) = []
      then mutable_request (mutable_listjobsrequest (\<lambda>l. l\<lparr>lj_regex := ''.*''\<rparr>)) msg
      else msg)"

definition FilterJobs ::
  "(string \<Rightarrow> (string \<Rightarrow> bool) option) \<Rightarrow> Request_ListJobsRequest \<Rightarrow> (string \<times> Job) list
    \<Rightarrow> Job list option" where
  "FilterJobs compile req jobs =
     (case compile (lj_regex req) of
        None \<Rightarrow> None
      | Some search \<Rightarrow> Some (map snd (filter (\<lambda>kv. search (fst kv)) jobs)))"

definition AddJobsToReply ::
  "(int \<Rightarrow> string) \<Rightarrow> Reply \<Rightarrow> (string \<times> Job) list \<Rightarrow> Job list \<Rightarrow> Reply" where
  "AddJobsToReply put_time reply_msg jobs job_list =
     (if length jobs > 0
      then reply_msg\<lparr>rep_return_msg := fst (Format put_time new_stream job_list)\<rparr>
      else reply_msg\<lparr>rep_return_msg := ''no matches found'' @ [CHR 0x0A]\<rparr>)"

definition ServeListJobs ::
  "(string \<Rightarrow> (string \<Rightarrow> bool) option) \<Rightarrow> (int \<Rightarrow> string) \<Rightarrow> 'w Planner \<Rightarrow> Message
    \<Rightarrow> serve_failure + bool \<times> Message \<times> 'w Planner" where
  "ServeListJobs compile put_time p msg0 =
     (let msg = AddDefaultRegexIfEmpty msg0 in
      case GetAllJobs (mon_schedule (pl_monitor p)) of
        None \<Rightarrow> Inl Undefined
      | Some jobs \<Rightarrow>
          (case FilterJobs compile (listjobsrequest (request msg)) jobs of
             None \<Rightarrow> Inl RegexError
           | Some job_list \<Rightarrow>
               let reply_msg = (AddJobsToReply put_time default_Reply jobs job_list)\<lparr>rep_rc := 0\<rparr>
               in Inr (True, mutable_reply (\<lambda>r. reply_msg) msg, p)))"

section \<open>Start and end\<close>

text \<open>
  The constructor, which makes every component new, and \<open>Init\<close>; \<open>thread\<close> is what the monitor thread does before \<open>TearDown\<close> returns. \<open>Inl\<close> is an
  exception of the limits file or a call that does not return.
\<close>

definition Planner_new :: "string \<Rightarrow> string \<Rightarrow> 'w \<Rightarrow> 'w Planner" where
  "Planner_new root_path ost_limits_file w =
     \<lparr>pl_monitor = new_monitor empty_state empty_rules w, pl_limits = Map.empty,
      pl_ost_limits_file = ost_limits_file\<rparr>"

definition Planner_Init ::
  "'w Env \<Rightarrow> 'j Json \<Rightarrow> (string \<Rightarrow> string option) \<Rightarrow> ('w Monitor \<Rightarrow> 'w Monitor option)
    \<Rightarrow> 'w Planner \<Rightarrow> (limits_error option + bool \<times> 'w Planner)" where
  "Planner_Init env json read_file thread p =
     (case lustre_Init (env_lustre env) (mon_world (pl_monitor p)) of
        (lustre_ok, w1) \<Rightarrow>
          let m1 = (pl_monitor p)\<lparr>mon_world := w1\<rparr> in
          if \<not> lustre_ok then Inr (False, p\<lparr>pl_monitor := m1\<rparr>)
          else
            (case ScheduleState_Init (mon_schedule m1) of
               (schedule_ok, s1) \<Rightarrow>
                 let m2 = m1\<lparr>mon_schedule := s1\<rparr> in
                 if \<not> schedule_ok then Inr (False, p\<lparr>pl_monitor := m2\<rparr>)
                 else
                   (case JobMonitor_Init True m2 of
                      None \<Rightarrow> Inl None
                    | Some (monitor_ok, m3) \<Rightarrow>
                        if \<not> monitor_ok then
                          Inr (False, p\<lparr>pl_monitor :=
                            m3\<lparr>mon_schedule := snd (ScheduleState_TearDown (mon_schedule m3))\<rparr>\<rparr>)
                        else
                          (case Static_Init json read_file (pl_ost_limits_file p) (pl_limits p) of
                             Inl e \<Rightarrow> Inl (Some e)
                           | Inr (scheduler_ok, limits) \<Rightarrow>
                               if \<not> scheduler_ok then
                                 (case JobMonitor_TearDown thread m3 of
                                    None \<Rightarrow> Inl None
                                  | Some (torn, m4) \<Rightarrow>
                                      Inr (False, p\<lparr>pl_monitor := m4\<lparr>mon_schedule :=
                                        snd (ScheduleState_TearDown (mon_schedule m4))\<rparr>,
                                        pl_limits := limits\<rparr>))
                               else Inr (True, p\<lparr>pl_monitor := m3, pl_limits := limits\<rparr>)))))"

definition Planner_TearDown ::
  "('w Monitor \<Rightarrow> 'w Monitor option) \<Rightarrow> 'w Planner \<Rightarrow> (bool \<times> 'w Planner) option" where
  "Planner_TearDown thread p =
     do { (monitor_ok, m1) \<leftarrow> JobMonitor_TearDown thread (pl_monitor p);
          let (schedule_ok, s) = ScheduleState_TearDown (mon_schedule m1);
          Some (monitor_ok \<and> schedule_ok, p\<lparr>pl_monitor := m1\<lparr>mon_schedule := s\<rparr>\<rparr>) }"

section \<open>Lemmas\<close>

lemma mon_inv_world [simp]: "mon_inv (m\<lparr>mon_world := w\<rparr>) = mon_inv m"
  by (simp add: mon_inv_def keys_inv_def)

lemma mon_inv_same_jobs:
  "mon_inv m \<Longrightarrow> wf_state s \<Longrightarrow> abs_jobs s = mjobs m \<Longrightarrow> mon_inv (m\<lparr>mon_schedule := s\<rparr>)"
  by (simp add: mon_inv_def keys_inv_def)

text \<open>An \<open>unordered_set\<close> is traversed in some order, every element once.\<close>

definition traverses :: "(string set \<Rightarrow> string list) \<Rightarrow> bool" where
  "traverses iterate \<longleftrightarrow> (\<forall>S. finite S \<longrightarrow> distinct (iterate S) \<and> set (iterate S) = S)"

lemma tryCompute_finite:
  "tryComputeOstSetOfRequest lustre w files S = (ok, S', w') \<Longrightarrow> finite S \<Longrightarrow> finite S' \<and> S \<subseteq> S'"
  by (induction lustre w files S arbitrary: ok S' w' rule: tryComputeOstSetOfRequest.induct)
    (fastforce split: prod.splits if_splits)+

lemma ServeJobSubmission_inv:
  assumes inv: "mon_inv (pl_monitor p)"
    and run: "ServeJobSubmission env uninit iterate now p msg = Inr (b, msg', p')"
  shows "mon_inv (pl_monitor p')"
proof -
  let ?req = "resourcerequest (request msg)"
  obtain ok osts w1 where t: "tryComputeOstSetOfRequest (env_lustre env) (mon_world (pl_monitor p))
      (rr_files ?req) {} = (ok, osts, w1)"
    by (cases "tryComputeOstSetOfRequest (env_lustre env) (mon_world (pl_monitor p)) (rr_files ?req) {}")
      auto
  have inv1: "mon_inv ((pl_monitor p)\<lparr>mon_world := w1\<rparr>)" using inv by simp
  show ?thesis
    using run inv1 inv t schedule_inv [OF inv1]
    by (auto simp: ServeJobSubmission_def Let_def split: if_splits option.splits prod.splits)
qed

lemma remove_ids_spec:
  "mon_inv m \<Longrightarrow> \<exists>m'. remove_ids env m ids = Some m' \<and> mon_inv m' \<and>
     mjobs m' = mjobs m |` (- set ids) \<and> mrules m' = mrules m |` (- set ids) \<and>
     (\<forall>k. pending (mitems m') k = (if k \<in> set ids then {#} else pending (mitems m) k))"
proof (induction ids arbitrary: m)
  case (Cons i ids)
  obtain m1 where m1: "delete_job env m i = Some (mjobs m i \<noteq> None, m1)" "mon_inv m1"
    "mjobs m1 = (mjobs m)(i := None)" "mrules m1 = (mrules m)(i := None)"
    "pending (mitems m1) i = {#}" "\<forall>k. k \<noteq> i \<longrightarrow> pending (mitems m1) k = pending (mitems m) k"
    using delete_job_spec [OF Cons.prems, of env i] by blast
  obtain m' where m': "remove_ids env m1 ids = Some m'" "mon_inv m'"
    "mjobs m' = mjobs m1 |` (- set ids)" "mrules m' = mrules m1 |` (- set ids)"
    "\<forall>k. pending (mitems m') k = (if k \<in> set ids then {#} else pending (mitems m1) k)"
    using Cons.IH [OF m1(2)] by blast
  have "mjobs m' = mjobs m |` (- set (i # ids))" "mrules m' = mrules m |` (- set (i # ids))"
    using m1(3,4) m'(3,4) by (simp_all only: restrict_drop)
  with m1 m' show ?case by (intro exI [of _ m'] conjI) simp_all
qed simp

lemma GetAllJobs_mon:
  assumes "mon_inv m"
  shows "\<exists>js. GetAllJobs (mon_schedule m) = Some js \<and> smap_ok js \<and> map_of js = mjobs m"
  using GetAllJobs_abs [OF mon_invD(1) [OF assms]] .

definition reservation_end :: "time_point \<Rightarrow> Request_ResourceRequest \<Rightarrow> time_point option" where
  "reservation_end now req =
     (if 0 < sint (rr_durationsec req)
      then add_seconds now (sint (rr_durationsec req)) else Some time_point_max)"

lemma ServeJobSubmission_spec:
  fixes p :: "'w Planner"
  defines "m \<equiv> pl_monitor p"
  assumes inv: "mon_inv m" and files: "rr_files (resourcerequest (request msg)) \<noteq> []"
    and osts: "tryComputeOstSetOfRequest (env_lustre env) (mon_world m)
      (rr_files (resourcerequest (request msg))) {} = (True, osts, w1)"
    and fin: "reservation_end now (resourcerequest (request msg)) = Some tend"
    and j: "j = BuildJob (resourcerequest (request msg)) now tend (iterate osts)"
  shows "\<exists>b p'. ServeJobSubmission env uninit iterate now p msg =
      Inr (b, mutable_reply (\<lambda>r. r\<lparr>rep_rc := if b then 0 else - 1\<rparr>) msg, p') \<and>
    mon_inv (pl_monitor p') \<and> mrules (pl_monitor p') = mrules m \<and>
    (if b then mjobs m (job_id j) = None \<and>
       mjobs (pl_monitor p') = (mjobs m)(job_id j \<mapsto> j\<lparr>job_state := SCHEDULED\<rparr>) \<and>
       mitems (pl_monitor p') = add_mset (start_item (job_id j) j) (mitems m)
     else mjobs (pl_monitor p') = mjobs m \<and> job_priority_queue (pl_monitor p') = job_priority_queue m)"
proof -
  let ?m1 = "m\<lparr>mon_world := w1\<rparr>"
  have inv1: "mon_inv ?m1" using inv by simp
  obtain b j' m2 where s: "Static_ScheduleJob (pl_limits p) uninit ?m1 j = Some (b, j', m2)"
    "mon_rules m2 = mon_rules ?m1"
    "if b then mjobs ?m1 (job_id j) = None \<and>
       mjobs m2 = (mjobs ?m1)(job_id j \<mapsto> j\<lparr>job_state := SCHEDULED\<rparr>) \<and>
       mitems m2 = add_mset (start_item (job_id j) j) (mitems ?m1)
     else mjobs m2 = mjobs ?m1 \<and> job_priority_queue m2 = job_priority_queue ?m1"
    using Static_ScheduleJob_law [OF mon_invD(1) [OF inv1], of "pl_limits p" uninit j] by blast
  have "ServeJobSubmission env uninit iterate now p msg =
      Inr (b, mutable_reply (\<lambda>r. r\<lparr>rep_rc := if b then 0 else - 1\<rparr>) msg, p\<lparr>pl_monitor := m2\<rparr>)"
    using files osts fin s(1) j by (auto simp: ServeJobSubmission_def reservation_end_def m_def Let_def)
  with schedule_inv [OF inv1 s(1)] s(2,3) show ?thesis
    by (intro exI [of _ b] exI [of _ "p\<lparr>pl_monitor := m2\<rparr>"]) (cases b; simp)
qed

text \<open>A planner that starts with an empty schedule starts with the invariant.\<close>

lemma Planner_Init_inv:
  assumes "Planner_Init env json read_file thread (Planner_new root_path file w) = Inr (True, p)"
  shows "mon_inv (pl_monitor p)" and "mjobs (pl_monitor p) = Map.empty"
proof -
  obtain w1 where w1: "lustre_Init (env_lustre env) w = (True, w1)"
    using assms by (cases "lustre_Init (env_lustre env) w")
      (auto simp: Planner_Init_def Planner_new_def new_monitor_def Let_def split: if_splits)
  let ?m = "new_monitor empty_state empty_rules w1 :: 'a Monitor"
  have m: "(new_monitor empty_state empty_rules w)\<lparr>mon_world := w1\<rparr> = ?m" by (simp add: new_monitor_def)
  obtain m' where m': "JobMonitor_Init True ?m = Some (True, m')" "mon_inv m'" "mjobs m' = mjobs ?m"
    using JobMonitor_Init_inv [of ?m] mon_inv_new [of w1]
    by (auto simp: mon_inv_def new_monitor_def keyed_def is_active_def empty_rules_def)
  have "mjobs ?m = Map.empty" by (simp add: new_monitor_def)
  moreover have "pl_monitor p = m'"
    using assms w1 m m'(1)
    by (auto simp: Planner_Init_def Planner_new_def Let_def new_monitor_def ScheduleState_Init_def
        split: sum.splits prod.splits option.splits if_splits)
  ultimately show "mon_inv (pl_monitor p)" "mjobs (pl_monitor p) = Map.empty"
    using m' by simp_all
qed

end
