(* ===== verification/JobObjects.thy ===== *)
theory JobObjects
  imports Planner
begin

text \<open>
  Who owns the \<open>Job\<close> objects. \<open>GetAllJobs\<close> of \<open>src/src/common/MemoryScheduleState.cpp\<close> allocates
  a copy of every job and gives the map of pointers away; \<open>FillWithExistingJobs\<close>
  (\<open>JobMonitor.cpp\<close>) deletes the copies, \<open>ServeListJobs\<close> (\<open>Planner.cpp\<close>) does not. Here the
  copies live in the store of \<open>MemoryScheduleState\<close> beside the schedule's own objects. The
  lemmas say that on pointers the two callers compute what \<open>fill_queue\<close> and \<open>ServeListJobs\<close>
  do on values, and how many objects are left after any sequence of calls.
\<close>

definition new_Job :: "Job \<Rightarrow> MemoryScheduleState \<Rightarrow> addr \<times> MemoryScheduleState" where
  "new_Job j s =
     (ms_next s, s\<lparr>ms_heap := (ms_heap s)(ms_next s \<mapsto> j), ms_next := Suc (ms_next s)\<rparr>)"

definition delete_Job :: "addr \<Rightarrow> MemoryScheduleState \<Rightarrow> MemoryScheduleState option" where
  "delete_Job a s =
     (if ms_heap s a = None then None else Some (s\<lparr>ms_heap := (ms_heap s)(a := None)\<rparr>))"

fun new_copies ::
  "(string \<times> addr) list \<Rightarrow> MemoryScheduleState \<Rightarrow> ((string \<times> addr) list \<times> MemoryScheduleState) option" where
  "new_copies [] s = Some ([], s)"
| "new_copies ((k, a) # jobs) s =
     (case ms_heap s a of
        None \<Rightarrow> None
      | Some j \<Rightarrow>
          (case new_Job j s of (b, s1) \<Rightarrow>
             map_option (\<lambda>(new_map, s2). ((k, b) # new_map, s2)) (new_copies jobs s1)))"

definition ptr_GetAllJobs ::
  "MemoryScheduleState \<Rightarrow> ((string \<times> addr) list \<times> MemoryScheduleState) option" where
  "ptr_GetAllJobs s = new_copies (ms_jobs s) s"

section \<open>The two callers\<close>

fun ptr_fill_queue :: "(string \<times> addr) list \<Rightarrow> 'w Monitor \<Rightarrow> 'w Monitor option" where
  "ptr_fill_queue [] m = Some m"
| "ptr_fill_queue ((k, a) # existing_jobs) m =
     (case ms_heap (mon_schedule m) a of
        None \<Rightarrow> None
      | Some job \<Rightarrow>
          let m1 = (case job_state job of
              SCHEDULED \<Rightarrow> push_item (job_id job) (job_tstart job) JOBSTART m
            | ACTIVE \<Rightarrow> push_item (job_id job) (job_tend job) JOBSTOP m
            | INITIALIZED \<Rightarrow> m
            | DONE \<Rightarrow> m) in
          (case delete_Job a (mon_schedule m1) of
             None \<Rightarrow> None
           | Some s1 \<Rightarrow> ptr_fill_queue existing_jobs (m1\<lparr>mon_schedule := s1\<rparr>)))"

definition ptr_FillWithExistingJobs :: "'w Monitor \<Rightarrow> 'w Monitor option" where
  "ptr_FillWithExistingJobs m =
     (case ptr_GetAllJobs (mon_schedule m) of
        None \<Rightarrow> None
      | Some (existing_jobs, s1) \<Rightarrow> ptr_fill_queue existing_jobs (m\<lparr>mon_schedule := s1\<rparr>))"

definition ptr_FilterJobs ::
  "(string \<Rightarrow> (string \<Rightarrow> bool) option) \<Rightarrow> Request_ListJobsRequest \<Rightarrow> (string \<times> addr) list
    \<Rightarrow> addr list option" where
  "ptr_FilterJobs compile req jobs =
     (case compile (lj_regex req) of
        None \<Rightarrow> None
      | Some search \<Rightarrow> Some (map snd (filter (\<lambda>kv. search (fst kv)) jobs)))"

fun read_jobs :: "(addr \<rightharpoonup> Job) \<Rightarrow> addr list \<Rightarrow> Job list option" where
  "read_jobs h [] = Some []"
| "read_jobs h (a # as) =
     (case h a of None \<Rightarrow> None | Some j \<Rightarrow> map_option ((#) j) (read_jobs h as))"

definition ptr_AddJobsToReply ::
  "(int \<Rightarrow> string) \<Rightarrow> (addr \<rightharpoonup> Job) \<Rightarrow> Reply \<Rightarrow> (string \<times> addr) list \<Rightarrow> addr list \<Rightarrow> Reply option" where
  "ptr_AddJobsToReply put_time h reply_msg jobs job_list =
     (if length jobs > 0
      then map_option (\<lambda>js. reply_msg\<lparr>rep_return_msg := fst (Format put_time new_stream js)\<rparr>)
        (read_jobs h job_list)
      else Some (reply_msg\<lparr>rep_return_msg := ''no matches found'' @ [CHR 0x0A]\<rparr>))"

definition ptr_ServeListJobs ::
  "(string \<Rightarrow> (string \<Rightarrow> bool) option) \<Rightarrow> (int \<Rightarrow> string) \<Rightarrow> 'w Planner \<Rightarrow> Message
    \<Rightarrow> serve_failure + bool \<times> Message \<times> 'w Planner" where
  "ptr_ServeListJobs compile put_time p msg0 =
     (let msg = AddDefaultRegexIfEmpty msg0; m = pl_monitor p in
      case ptr_GetAllJobs (mon_schedule m) of
        None \<Rightarrow> Inl Undefined
      | Some (jobs, s1) \<Rightarrow>
          (case ptr_FilterJobs compile (listjobsrequest (request msg)) jobs of
             None \<Rightarrow> Inl RegexError
           | Some job_list \<Rightarrow>
               (case ptr_AddJobsToReply put_time (ms_heap s1) default_Reply jobs job_list of
                  None \<Rightarrow> Inl Undefined
                | Some reply_msg \<Rightarrow>
                    Inr (True, mutable_reply (\<lambda>r. reply_msg\<lparr>rep_rc := 0\<rparr>) msg,
                         p\<lparr>pl_monitor := m\<lparr>mon_schedule := s1\<rparr>\<rparr>))))"

section \<open>Copies\<close>

text \<open>What a list of pointers points to.\<close>

definition deref_jobs :: "(addr \<rightharpoonup> Job) \<Rightarrow> (string \<times> addr) list \<Rightarrow> (string \<times> Job) list" where
  "deref_jobs h l = map (\<lambda>(k, a). (k, the (h a))) l"

lemma deref_jobs_simps [simp]:
  "deref_jobs h [] = []"
  "deref_jobs h ((k, a) # l) = (k, the (h a)) # deref_jobs h l"
  "length (deref_jobs h l) = length l"
  by (simp_all add: deref_jobs_def)

lemma deref_jobs_cong: "(\<And>a. a \<in> snd ` set l \<Longrightarrow> h a = h' a) \<Longrightarrow> deref_jobs h l = deref_jobs h' l"
  by (fastforce simp: deref_jobs_def)

lemma read_jobs_deref:
  "snd ` set l \<subseteq> dom h \<Longrightarrow> read_jobs h (map snd l) = Some (map snd (deref_jobs h l))"
  by (induction l) auto

lemma filter_deref:
  "deref_jobs h (filter (\<lambda>kv. search (fst kv)) l) = filter (\<lambda>kv. search (fst kv)) (deref_jobs h l)"
  by (induction l) auto

text \<open>
  The copies are new objects, as many as there are jobs; what was allocated before stays as
  it is.
\<close>

lemma new_copies_spec:
  assumes "\<forall>a\<in>dom (ms_heap s). a < ms_next s" and "snd ` set jobs \<subseteq> dom (ms_heap s)"
  shows "\<exists>l h. new_copies jobs s = Some (l, s\<lparr>ms_heap := h, ms_next := ms_next s + length jobs\<rparr>) \<and>
    map snd l = [ms_next s..<ms_next s + length jobs] \<and> (\<forall>b<ms_next s. h b = ms_heap s b) \<and>
    dom h = dom (ms_heap s) \<union> {ms_next s..<ms_next s + length jobs} \<and>
    copy_jobs (ms_heap s) jobs = Some (deref_jobs h l)"
  using assms
proof (induction jobs s rule: new_copies.induct)
  case (1 s)
  then show ?case by (auto intro!: exI [of _ "ms_heap s"])
next
  case (2 k a jobs s)
  then obtain j where j: "ms_heap s a = Some j" by auto
  let ?s1 = "s\<lparr>ms_heap := (ms_heap s)(ms_next s \<mapsto> j), ms_next := Suc (ms_next s)\<rparr>"
  have new: "new_Job j s = (ms_next s, ?s1)" by (simp add: new_Job_def)
  have fresh: "ms_next s \<notin> dom (ms_heap s)" using "2.prems"(1) by blast
  have prems: "\<forall>a\<in>dom (ms_heap ?s1). a < ms_next ?s1" "snd ` set jobs \<subseteq> dom (ms_heap ?s1)"
    using "2.prems" by (auto simp: less_Suc_eq)
  obtain l h where l: "new_copies jobs ?s1 = Some (l, ?s1\<lparr>ms_heap := h, ms_next := ms_next ?s1 + length jobs\<rparr>)"
    "map snd l = [ms_next ?s1..<ms_next ?s1 + length jobs]" "\<forall>b<ms_next ?s1. h b = ms_heap ?s1 b"
    "dom h = dom (ms_heap ?s1) \<union> {ms_next ?s1..<ms_next ?s1 + length jobs}"
    "copy_jobs (ms_heap ?s1) jobs = Some (deref_jobs h l)"
    using "2.IH" [OF j new [symmetric] prems] by blast
  have "copy_jobs (ms_heap s) jobs = copy_jobs (ms_heap ?s1) jobs"
    using "2.prems"(2) fresh
    by (induction "ms_heap s" jobs rule: copy_jobs.induct) (auto simp: dom_def split: option.splits)
  moreover have "h (ms_next s) = Some j" "\<forall>b<ms_next s. h b = ms_heap s b" using l(3) by auto
  moreover have "[ms_next s..<Suc (ms_next s + length jobs)] = ms_next s # [Suc (ms_next s)..<Suc (ms_next s + length jobs)]"
    by (rule upt_rec [THEN trans]) simp
  moreover have "dom h = dom (ms_heap s) \<union> {ms_next s..<Suc (ms_next s + length jobs)}"
    using l(4) by auto
  ultimately show ?case using l j new
    by (intro exI [of _ "(k, ms_next s) # l"] exI [of _ h] conjI) (simp_all del: upt_Suc)
qed

lemma ptr_GetAllJobs_spec:
  assumes "wf_state s"
  shows "\<exists>l h. ptr_GetAllJobs s =
      Some (l, s\<lparr>ms_heap := h, ms_next := ms_next s + length (ms_jobs s)\<rparr>) \<and>
    distinct (map snd l) \<and> set (map snd l) = {ms_next s..<ms_next s + length (ms_jobs s)} \<and>
    (\<forall>b<ms_next s. h b = ms_heap s b) \<and> dom h = dom (ms_heap s) \<union> set (map snd l) \<and>
    (\<forall>b\<in>dom h. b < ms_next s + length (ms_jobs s)) \<and> dom (ms_heap s) \<inter> set (map snd l) = {} \<and>
    h |` (- set (map snd l)) = ms_heap s \<and> GetAllJobs s = Some (deref_jobs h l)"
proof -
  have b: "\<forall>a\<in>dom (ms_heap s). a < ms_next s" using assms by (simp add: wf_state_def)
  moreover have "snd ` set (ms_jobs s) \<subseteq> dom (ms_heap s)"
    using assms wf_pointer [OF assms] by (fastforce simp: wf_state_def smap_in_set_iff)
  ultimately obtain l h where l: "ptr_GetAllJobs s =
      Some (l, s\<lparr>ms_heap := h, ms_next := ms_next s + length (ms_jobs s)\<rparr>)"
    "map snd l = [ms_next s..<ms_next s + length (ms_jobs s)]" "\<forall>b<ms_next s. h b = ms_heap s b"
    "dom h = dom (ms_heap s) \<union> {ms_next s..<ms_next s + length (ms_jobs s)}"
    "GetAllJobs s = Some (deref_jobs h l)"
    using new_copies_spec [of s "ms_jobs s"] unfolding ptr_GetAllJobs_def GetAllJobs_def by blast
  have "(h |` (- set (map snd l))) a = ms_heap s a" for a
  proof -
    have "a < ms_next s \<or> a \<in> set (map snd l) \<or> a \<notin> dom h"
      using b unfolding l(2,4) by auto
    moreover have "a \<in> set (map snd l) \<Longrightarrow> \<not> a < ms_next s" unfolding l(2) by simp
    moreover have "\<not> a < ms_next s \<Longrightarrow> ms_heap s a = None" using b by auto
    ultimately show ?thesis using l(3)
      by (cases "a < ms_next s") (auto simp: restrict_map_def domIff simp del: set_map)
  qed
  then have "h |` (- set (map snd l)) = ms_heap s" by (rule ext)
  moreover have "\<forall>b\<in>dom h. b < ms_next s + length (ms_jobs s)"
    unfolding l(4) using b by (blast intro: trans_less_add1 dest: iffD1 [OF atLeastLessThan_iff])
  moreover have "dom (ms_heap s) \<inter> set (map snd l) = {}"
    unfolding l(2) set_upt using b by (metis (no_types) atLeastLessThan_iff disjoint_iff not_le)
  ultimately show ?thesis using l
    by (intro exI [of _ l] exI [of _ h]) (simp del: set_map)
qed

text \<open>More objects beside those of the schedule change nothing the schedule stands for.\<close>

lemma wf_more_objects:
  assumes "wf_state s" and "\<forall>b<ms_next s. h b = ms_heap s b" and "ms_next s \<le> n"
    and "\<forall>b\<in>dom h. b < n"
  shows "wf_state (s\<lparr>ms_heap := h, ms_next := n\<rparr>)"
    and "abs_jobs (s\<lparr>ms_heap := h, ms_next := n\<rparr>) = abs_jobs s"
proof -
  have b: "\<forall>a\<in>dom (ms_heap s). a < ms_next s" using assms(1) by (simp add: wf_state_def)
  then have "dom (ms_heap s) \<subseteq> dom h" using assms(2) by (auto simp: dom_def)
  then have "allocated h (ms_schedule s)" "ran (map_of (ms_jobs s)) \<subseteq> dom h"
    using assms(1) allocated_mono [of "ms_heap s" "ms_schedule s" h]
    by (simp_all add: wf_state_def subset_trans [of _ "dom (ms_heap s)"])
  with assms show "wf_state (s\<lparr>ms_heap := h, ms_next := n\<rparr>)"
    by (simp add: wf_state_def)
  have "h a = ms_heap s a" if "map_of (ms_jobs s) k = Some a" for k a
    using wf_pointer [OF assms(1) that] b assms(2) by (metis domI)
  then show "abs_jobs (s\<lparr>ms_heap := h, ms_next := n\<rparr>) = abs_jobs s"
    by (auto simp: abs_jobs_def fun_eq_iff split: option.split)
qed

section \<open>The callers on values\<close>

lemma fill_queue_schedule:
  "fill_queue js (m\<lparr>mon_schedule := x\<rparr>) = (fill_queue js m)\<lparr>mon_schedule := x\<rparr>"
proof (induction js arbitrary: m)
  case (Cons e js)
  obtain k job where e: "e = (k, job)" by (cases e)
  have push: "push_item i t ev (m\<lparr>mon_schedule := x\<rparr>) = (push_item i t ev m)\<lparr>mon_schedule := x\<rparr>"
    for i t ev by (simp add: push_item_def)
  show ?case by (cases "job_state job") (simp_all add: e push Cons.IH)
qed simp

lemma ptr_fill_queue_spec:
  "distinct (map snd l) \<Longrightarrow> set (map snd l) \<subseteq> dom (ms_heap (mon_schedule m)) \<Longrightarrow>
   ptr_fill_queue l m = Some ((fill_queue (deref_jobs (ms_heap (mon_schedule m)) l) m)
     \<lparr>mon_schedule := (mon_schedule m)
       \<lparr>ms_heap := (ms_heap (mon_schedule m)) |` (- set (map snd l))\<rparr>\<rparr>)"
proof (induction l m rule: ptr_fill_queue.induct)
  case (1 m)
  then show ?case by simp
next
  case (2 k a l m)
  let ?h = "ms_heap (mon_schedule m)"
  obtain job where job: "?h a = Some job" using "2.prems"(2) by auto
  let ?m1 = "case job_state job of
      SCHEDULED \<Rightarrow> push_item (job_id job) (job_tstart job) JOBSTART m
    | ACTIVE \<Rightarrow> push_item (job_id job) (job_tend job) JOBSTOP m
    | INITIALIZED \<Rightarrow> m | DONE \<Rightarrow> m"
  let ?s1 = "(mon_schedule m)\<lparr>ms_heap := ?h(a := None)\<rparr>"
  have sched: "mon_schedule ?m1 = mon_schedule m" by (simp split: JobState.split)
  then have del: "delete_Job a (mon_schedule ?m1) = Some ?s1" using job by (simp add: delete_Job_def)
  have restrict: "(?h(a := None)) |` (- set (map snd l)) = ?h |` (- insert a (set (map snd l)))"
    by (auto simp: restrict_map_def fun_eq_iff)
  have "a \<notin> set (map snd l)" using "2.prems"(1) by simp
  then have cong: "deref_jobs (?h(a := None)) l = deref_jobs ?h l"
    by (intro deref_jobs_cong) auto
  have "ptr_fill_queue l (?m1\<lparr>mon_schedule := ?s1\<rparr>) =
      Some ((fill_queue (deref_jobs (?h(a := None)) l) (?m1\<lparr>mon_schedule := ?s1\<rparr>))
        \<lparr>mon_schedule := ?s1\<lparr>ms_heap := (?h(a := None)) |` (- set (map snd l))\<rparr>\<rparr>)"
  proof -
    have "distinct (map snd l)" "set (map snd l) \<subseteq> dom (ms_heap (mon_schedule (?m1\<lparr>mon_schedule := ?s1\<rparr>)))"
      using "2.prems" by auto
    from "2.IH" [OF job refl del this] show ?thesis
      by (simp del: restrict_fun_upd restrict_upd_same fun_upd_apply)
  qed
  then show ?case
    using job del unfolding cong restrict fill_queue_schedule by (simp add: Let_def)
qed

text \<open>The monitor deletes every copy it was given.\<close>

lemma ptr_FillWithExistingJobs_spec:
  assumes "wf_state (mon_schedule m)"
  shows "\<exists>m'. FillWithExistingJobs m = Some m' \<and> ptr_FillWithExistingJobs m =
    Some (m'\<lparr>mon_schedule := (mon_schedule m)
      \<lparr>ms_next := ms_next (mon_schedule m) + length (ms_jobs (mon_schedule m))\<rparr>\<rparr>)"
proof -
  let ?s = "mon_schedule m"
  obtain l h where l: "ptr_GetAllJobs ?s =
      Some (l, ?s\<lparr>ms_heap := h, ms_next := ms_next ?s + length (ms_jobs ?s)\<rparr>)"
    "distinct (map snd l)" "dom h = dom (ms_heap ?s) \<union> set (map snd l)"
    "h |` (- set (map snd l)) = ms_heap ?s" "GetAllJobs ?s = Some (deref_jobs h l)"
    using ptr_GetAllJobs_spec [OF assms] by blast
  then show ?thesis
    using ptr_fill_queue_spec [of l "m\<lparr>mon_schedule := ?s\<lparr>ms_heap := h, ms_next := ms_next ?s + length (ms_jobs ?s)\<rparr>\<rparr>"]
    by (simp add: ptr_FillWithExistingJobs_def FillWithExistingJobs_def fill_queue_schedule)
qed

text \<open>The planner reads the copies and keeps none of the pointers.\<close>

lemma ptr_ServeListJobs_spec:
  assumes "wf_state (mon_schedule (pl_monitor p))"
    and "ServeListJobs compile put_time p msg = Inr (True, msg', p)"
    and "ptr_GetAllJobs (mon_schedule (pl_monitor p)) = Some (l, s1)"
  shows "ptr_ServeListJobs compile put_time p msg =
    Inr (True, msg', p\<lparr>pl_monitor := (pl_monitor p)\<lparr>mon_schedule := s1\<rparr>\<rparr>)"
proof -
  obtain h where h: "ms_heap s1 = h" "set (map snd l) \<subseteq> dom h"
    "GetAllJobs (mon_schedule (pl_monitor p)) = Some (deref_jobs h l)"
    using ptr_GetAllJobs_spec [OF assms(1)] assms(3) by auto
  have "set (map snd (filter (\<lambda>kv. search (fst kv)) l)) \<subseteq> dom h" for search
    using h(2) by auto
  then have "read_jobs h (map snd (filter (\<lambda>kv. search (fst kv)) l)) =
      Some (map snd (filter (\<lambda>kv. search (fst kv)) (deref_jobs h l)))" for search
    using read_jobs_deref [of "filter (\<lambda>kv. search (fst kv)) l" h] by (simp add: filter_deref)
  with assms(2,3) h show ?thesis
    by (auto simp: ServeListJobs_def ptr_ServeListJobs_def FilterJobs_def ptr_FilterJobs_def
        AddJobsToReply_def ptr_AddJobsToReply_def Let_def split: option.splits)
qed

section \<open>Every run of the schedule's clients\<close>

text \<open>
  The calls that touch objects, in any order: the schedulers add jobs, the monitor and the
  planner remove and update them, the planner lists them (\<open>OpList\<close>), the monitor copies them
  and deletes the copies (\<open>OpFill\<close>).
\<close>

datatype job_op = OpAdd string Job "string list" | OpRemove string | OpUpdate string JobState
  | OpList | OpFill | OpReset

fun delete_Jobs :: "(string \<times> addr) list \<Rightarrow> MemoryScheduleState \<Rightarrow> MemoryScheduleState option" where
  "delete_Jobs [] s = Some s"
| "delete_Jobs ((k, a) # l) s = (case delete_Job a s of None \<Rightarrow> None | Some s1 \<Rightarrow> delete_Jobs l s1)"

fun job_call :: "job_op \<Rightarrow> MemoryScheduleState \<Rightarrow> MemoryScheduleState option" where
  "job_call (OpAdd k j osts) s = map_option snd (AddJob s k j osts)"
| "job_call (OpRemove k) s = map_option snd (RemoveJob s k)"
| "job_call (OpUpdate k st) s = map_option snd (UpdateJob s k st)"
| "job_call OpList s = map_option snd (ptr_GetAllJobs s)"
| "job_call OpFill s =
     (case ptr_GetAllJobs s of None \<Rightarrow> None | Some (l, s1) \<Rightarrow> delete_Jobs l s1)"
| "job_call OpReset s = Some (ScheduleState_Reset s)"

fun job_calls :: "job_op list \<Rightarrow> MemoryScheduleState \<Rightarrow> MemoryScheduleState option" where
  "job_calls [] s = Some s"
| "job_calls (c # cs) s = (case job_call c s of None \<Rightarrow> None | Some s1 \<Rightarrow> job_calls cs s1)"

text \<open>The same calls on the finite map, with the number of objects nobody can delete any more.\<close>

fun map_call :: "job_op \<Rightarrow> (string \<rightharpoonup> Job) \<times> nat \<Rightarrow> (string \<rightharpoonup> Job) \<times> nat" where
  "map_call (OpAdd k j osts) (m, n) = (if m k = None then m(k \<mapsto> j) else m, n)"
| "map_call (OpRemove k) (m, n) = (m(k := None), if m k = None then n else Suc n)"
| "map_call (OpUpdate k st) (m, n) = (m(k := map_option (\<lambda>j. j\<lparr>job_state := st\<rparr>) (m k)), n)"
| "map_call OpList (m, n) = (m, n + card (dom m))"
| "map_call OpFill (m, n) = (m, n)"
| "map_call OpReset (m, n) = (Map.empty, n)"

text \<open>Every object is the schedule's, under one id, or lost.\<close>

definition owns_jobs :: "addr set \<Rightarrow> MemoryScheduleState \<Rightarrow> bool" where
  "owns_jobs lost s \<longleftrightarrow> wf_state s \<and> finite lost \<and>
     dom (ms_heap s) = ran (map_of (ms_jobs s)) \<union> lost \<and> ran (map_of (ms_jobs s)) \<inter> lost = {}"

lemma owns_jobs_wf: "owns_jobs lost s \<Longrightarrow> wf_state s"
  by (simp add: owns_jobs_def)

lemma card_ran: "inj_on m (dom m) \<Longrightarrow> card (ran m) = card (dom m)"
proof -
  assume inj: "inj_on m (dom m)"
  have "ran m = (the \<circ> m) ` dom m" by (force simp: ran_def)
  moreover have "inj_on (the \<circ> m) (dom m)"
    using inj by (auto simp: inj_on_def) (metis domI)
  ultimately show ?thesis by (metis card_image)
qed

lemma dom_abs_jobs: "wf_state s \<Longrightarrow> dom (abs_jobs s) = dom (map_of (ms_jobs s))"
  using abs_None_iff [of s] by (auto simp: dom_def)

lemma card_owned:
  assumes "owns_jobs lost s"
  shows "card (dom (ms_heap s)) = card (dom (abs_jobs s)) + card lost"
    and "card (dom (abs_jobs s)) = length (ms_jobs s)"
proof -
  have wf: "wf_state s" using assms by (rule owns_jobs_wf)
  have "inj_on (map_of (ms_jobs s)) (dom (map_of (ms_jobs s)))"
    using wf_key_unique [OF wf] by (auto simp: inj_on_def)
  moreover have "finite (ran (map_of (ms_jobs s)))" by (rule finite_ran) (rule finite_dom_map_of)
  ultimately show "card (dom (ms_heap s)) = card (dom (abs_jobs s)) + card lost"
    using assms by (simp add: owns_jobs_def card_Un_disjoint card_ran dom_abs_jobs [OF wf])
  have "distinct (map fst (ms_jobs s))" using wf by (simp add: wf_state_def smap_ok_def strict_sorted_iff)
  then show "card (dom (abs_jobs s)) = length (ms_jobs s)"
    using wf by (metis dom_abs_jobs dom_map_of_conv_image_fst distinct_card length_map set_map)
qed

lemma owns_AddJob:
  assumes own: "owns_jobs lost s"
  shows "\<exists>b s'. AddJob s k j osts = Some (b, s') \<and> owns_jobs lost s' \<and>
    abs_jobs s' = (if abs_jobs s k = None then (abs_jobs s)(k \<mapsto> j) else abs_jobs s)"
proof (cases "abs_jobs s k")
  case (Some j')
  with AddJob_exists [OF owns_jobs_wf [OF own]] own show ?thesis by auto
next
  case None
  have wf: "wf_state s" using own by (rule owns_jobs_wf)
  obtain s' where s': "AddJob s k j osts = Some (True, s')" "wf_state s'"
    "abs_jobs s' = (abs_jobs s)(k \<mapsto> j)" "ms_heap s' = (ms_heap s)(ms_next s \<mapsto> j)"
    using AddJob_new [OF wf None, of j osts] by blast
  have k: "map_of (ms_jobs s) k = None" using None wf by (simp add: abs_None_iff)
  with s'(1) have "ms_jobs s' = smap_put k (ms_next s) (ms_jobs s)"
    by (auto simp: AddJob_def Let_def split: option.splits)
  then have "map_of (ms_jobs s') = (map_of (ms_jobs s))(k \<mapsto> ms_next s)"
    using wf by (auto simp: smap_simps wf_state_def fun_eq_iff)
  moreover have "ms_next s \<notin> dom (ms_heap s)" using wf_fresh [OF wf] by (simp add: domIff)
  ultimately have "owns_jobs lost s'"
    using own s'(2,4) k by (auto simp: owns_jobs_def)
  with s' None show ?thesis by auto
qed

lemma owns_RemoveJob:
  assumes own: "owns_jobs lost s"
  shows "\<exists>b s' lost'. RemoveJob s k = Some (b, s') \<and> owns_jobs lost' s' \<and>
    abs_jobs s' = (abs_jobs s)(k := None) \<and>
    card lost' = (if abs_jobs s k = None then card lost else Suc (card lost))"
proof (cases "abs_jobs s k")
  case None
  then have "(abs_jobs s)(k := None) = abs_jobs s" by auto
  with RemoveJob_missing [OF owns_jobs_wf [OF own] None] own None show ?thesis by auto
next
  case (Some j)
  have wf: "wf_state s" using own by (rule owns_jobs_wf)
  obtain s' where s': "RemoveJob s k = Some (True, s')" "wf_state s'"
    "abs_jobs s' = (abs_jobs s)(k := None)" "ms_heap s' = ms_heap s"
    using RemoveJob_present [OF wf Some] by blast
  obtain a where a: "map_of (ms_jobs s) k = Some a" using Some by (auto simp: abs_jobs_def split: option.splits)
  have jobs: "map_of (ms_jobs s') = (map_of (ms_jobs s))(k := None)"
    using s'(1) a wf by (auto simp: RemoveJob_def Let_def smap_simps wf_state_def split: option.splits)
  have ran: "ran ((map_of (ms_jobs s))(k := None)) = ran (map_of (ms_jobs s)) - {a}"
    using a wf_key_unique [OF wf] by (auto simp: ran_def split: if_splits) (metis option.inject)
  have "a \<in> ran (map_of (ms_jobs s))" using a by (rule ranI)
  then have "a \<notin> lost" "owns_jobs (insert a lost) s'"
    using own s'(2,4) ran jobs by (auto simp: owns_jobs_def)
  moreover have "finite lost" using own by (simp add: owns_jobs_def)
  ultimately show ?thesis using s' Some by (auto intro!: exI [of _ "insert a lost"])
qed

lemma owns_UpdateJob:
  assumes own: "owns_jobs lost s"
  shows "\<exists>b s'. UpdateJob s k st = Some (b, s') \<and> owns_jobs lost s' \<and>
    abs_jobs s' = (abs_jobs s)(k := map_option (\<lambda>j. j\<lparr>job_state := st\<rparr>) (abs_jobs s k))"
proof (cases "abs_jobs s k")
  case None
  then have "(abs_jobs s)(k := None) = abs_jobs s" by auto
  with UpdateJob_missing [OF owns_jobs_wf [OF own] None] own None show ?thesis by auto
next
  case (Some j)
  have wf: "wf_state s" using own by (rule owns_jobs_wf)
  obtain s' a where s': "UpdateJob s k st = Some (True, s')" "wf_state s'"
    "abs_jobs s' = (abs_jobs s)(k \<mapsto> j\<lparr>job_state := st\<rparr>)" "ms_heap s a = Some j"
    "ms_heap s' = (ms_heap s)(a \<mapsto> j\<lparr>job_state := st\<rparr>)"
    using UpdateJob_present [OF wf Some] by blast
  moreover have "ms_jobs s' = ms_jobs s"
    using s'(1) by (auto simp: UpdateJob_def split: option.splits)
  ultimately have "owns_jobs lost s'" using own by (auto simp: owns_jobs_def)
  with s' Some show ?thesis by auto
qed

lemma owns_GetAllJobs:
  assumes own: "owns_jobs lost s"
  shows "\<exists>l s' lost'. ptr_GetAllJobs s = Some (l, s') \<and> owns_jobs lost' s' \<and>
    abs_jobs s' = abs_jobs s \<and> card lost' = card lost + card (dom (abs_jobs s))"
proof -
  have wf: "wf_state s" using own by (rule owns_jobs_wf)
  let ?n = "ms_next s + length (ms_jobs s)"
  obtain l h where l: "ptr_GetAllJobs s = Some (l, s\<lparr>ms_heap := h, ms_next := ?n\<rparr>)"
    "distinct (map snd l)" "set (map snd l) = {ms_next s..<?n}" "\<forall>b<ms_next s. h b = ms_heap s b"
    "dom h = dom (ms_heap s) \<union> set (map snd l)" "\<forall>b\<in>dom h. b < ?n"
    "dom (ms_heap s) \<inter> set (map snd l) = {}"
    using ptr_GetAllJobs_spec [OF wf] by blast
  note more = wf_more_objects [OF wf l(4) le_add1 l(6)]
  let ?new = "{ms_next s..<?n}"
  have "lost \<inter> ?new = {}" "finite lost" using own l(3,7) by (auto simp: owns_jobs_def)
  then have "card (lost \<union> ?new) = card lost + length (ms_jobs s)" by (simp add: card_Un_disjoint)
  moreover have "owns_jobs (lost \<union> ?new) (s\<lparr>ms_heap := h, ms_next := ?n\<rparr>)"
    using own more(1) l(5,7) unfolding l(3) owns_jobs_def by auto
  ultimately show ?thesis using l(1) more(2) card_owned(2) [OF own]
    by (intro exI [of _ l] exI [of _ "s\<lparr>ms_heap := h, ms_next := ?n\<rparr>"] exI [of _ "lost \<union> ?new"]) simp
qed

text \<open>What is allocated for a caller that deletes it is gone afterwards.\<close>

lemma delete_Jobs_spec:
  "distinct (map snd l) \<Longrightarrow> set (map snd l) \<subseteq> dom (ms_heap s) \<Longrightarrow>
   delete_Jobs l s = Some (s\<lparr>ms_heap := (ms_heap s) |` (- set (map snd l))\<rparr>)"
proof (induction l s rule: delete_Jobs.induct)
  case (2 k a l s)
  let ?s1 = "s\<lparr>ms_heap := (ms_heap s)(a := None)\<rparr>"
  have del: "delete_Job a s = Some ?s1" using "2.prems" by (auto simp: delete_Job_def)
  have "((ms_heap s)(a := None)) |` (- set (map snd l)) = (ms_heap s) |` (- insert a (set (map snd l)))"
    by (auto simp: restrict_map_def fun_eq_iff)
  moreover have "delete_Jobs l ?s1 = Some (?s1\<lparr>ms_heap := (ms_heap ?s1) |` (- set (map snd l))\<rparr>)"
  proof (rule "2.IH" [OF del])
    show "distinct (map snd l)" "set (map snd l) \<subseteq> dom (ms_heap ?s1)"
      using "2.prems" by (auto simp del: set_map)
  qed
  ultimately show ?case using del by simp
qed simp

definition job_objects :: "(string \<rightharpoonup> Job) \<times> nat \<Rightarrow> MemoryScheduleState \<Rightarrow> bool" where
  "job_objects r s \<longleftrightarrow> (\<exists>lost. owns_jobs lost s \<and> r = (abs_jobs s, card lost))"

lemma job_call_objects:
  assumes "job_objects r s"
  shows "\<exists>s'. job_call c s = Some s' \<and> job_objects (map_call c r) s'"
proof -
  obtain lost where own: "owns_jobs lost s" and r: "r = (abs_jobs s, card lost)"
    using assms by (auto simp: job_objects_def)
  have wf: "wf_state s" using own by (rule owns_jobs_wf)
  show ?thesis
  proof (cases c)
    case (OpAdd k j osts)
    with owns_AddJob [OF own, of k j osts] r show ?thesis by (fastforce simp: job_objects_def)
  next
    case (OpRemove k)
    with owns_RemoveJob [OF own, of k] r show ?thesis by (fastforce simp: job_objects_def)
  next
    case (OpUpdate k st)
    with owns_UpdateJob [OF own, of k st] r show ?thesis by (fastforce simp: job_objects_def)
  next
    case OpList
    with owns_GetAllJobs [OF own] r show ?thesis by (fastforce simp: job_objects_def)
  next
    case OpFill
    let ?s = "s\<lparr>ms_next := ms_next s + length (ms_jobs s)\<rparr>"
    obtain l h where l: "ptr_GetAllJobs s =
        Some (l, s\<lparr>ms_heap := h, ms_next := ms_next s + length (ms_jobs s)\<rparr>)"
      "distinct (map snd l)" "dom h = dom (ms_heap s) \<union> set (map snd l)"
      "h |` (- set (map snd l)) = ms_heap s"
      using ptr_GetAllJobs_spec [OF wf] by blast
    have "job_call OpFill s = Some ?s"
      using l delete_Jobs_spec [of l "s\<lparr>ms_heap := h, ms_next := ms_next s + length (ms_jobs s)\<rparr>"] by simp
    moreover have "\<forall>b\<in>dom (ms_heap s). b < ms_next s + length (ms_jobs s)"
      using wf unfolding wf_state_def by (blast intro: trans_less_add1)
    then have "owns_jobs lost ?s"
      using own wf_more_objects(1) [OF wf, of "ms_heap s"] by (simp add: owns_jobs_def)
    moreover have "abs_jobs ?s = abs_jobs s" by (simp add: abs_jobs_def cong: option.case_cong)
    ultimately show ?thesis using OpFill r by (auto simp: job_objects_def)
  next
    case OpReset
    have "snd ` set (ms_jobs s) = ran (map_of (ms_jobs s))"
      using wf by (simp add: wf_state_def smap_ok_def strict_sorted_iff ran_distinct)
    then have "owns_jobs lost (ScheduleState_Reset s)"
      using own wf_Reset [OF wf] by (auto simp: owns_jobs_def ScheduleState_Reset_def)
    with OpReset r show ?thesis
      by (auto simp: job_objects_def abs_Reset intro!: exI [of _ lost])
  qed
qed

lemma job_calls_objects:
  "job_objects r s \<Longrightarrow> \<exists>s'. job_calls cs s = Some s' \<and> job_objects (fold map_call cs r) s'"
proof (induction cs arbitrary: r s)
  case (Cons c cs)
  from job_call_objects [OF Cons.prems, of c] obtain s1 where "job_call c s = Some s1"
    "job_objects (map_call c r) s1" by blast
  with Cons.IH show ?case by simp
qed simp

lemma job_objects_empty: "job_objects (Map.empty, 0) empty_state"
  by (auto simp: job_objects_def owns_jobs_def empty_state_def
      wf_empty [unfolded empty_state_def] abs_empty [unfolded empty_state_def])

end
