(* ===== verification/ZeroMQ.thy ===== *)
theory ZeroMQ
  imports Exec
begin

text \<open>
  \<open>src/src/common/communication/zmq.hpp\<close> and \<open>zhelpers.hpp\<close>: the C++ classes over
  ZeroMQ's C interface, as far as the program uses them. The C functions are the parameters:
  \<open>libzmq\<close> has one field per function, over a world \<open>'w\<close>. Pointers the library hands out
  are numbers with \<open>0\<close> for \<open>NULL\<close>; a message buffer is its bytes. \<open>zmq_ctx_destroy\<close> is
  \<open>None\<close> when the call never returns.

  Every wrapper throws \<open>error_t\<close> when the C function fails; \<open>ZMQ_ASSERT\<close> is \<open>assert\<close>, as it
  is in a build without \<open>NDEBUG\<close>.
  Both are the left side of a sum, \<open>Blocks\<close> is a call that does not return, and \<open>Out_of_bounds\<close>
  a read outside an object.
\<close>

type_synonym ptr = nat

datatype zmq_errno = EAGAIN | ETERM | Errno int

datatype zmq_failure = Error_t zmq_errno | Assertion_failed | Blocks | Out_of_bounds

datatype socket_type =
    ZMQ_REQ | ZMQ_REP | ZMQ_DEALER | ZMQ_ROUTER | ZMQ_PUB | ZMQ_SUB | ZMQ_XPUB | ZMQ_XSUB
  | ZMQ_PUSH | ZMQ_PULL | ZMQ_PAIR | ZMQ_STREAM

datatype context_option = ZMQ_IO_THREADS | ZMQ_MAX_SOCKETS

datatype socket_option = ZMQ_LINGER | ZMQ_IDENTITY | ZMQ_RCVMORE

record 'w libzmq =
  zmq_errno :: "'w \<Rightarrow> zmq_errno"
  zmq_ctx_new :: "'w \<Rightarrow> ptr \<times> 'w"
  zmq_ctx_set :: "'w \<Rightarrow> ptr \<Rightarrow> context_option \<Rightarrow> int \<Rightarrow> int \<times> 'w"
  zmq_ctx_destroy :: "'w \<Rightarrow> ptr \<Rightarrow> (int \<times> 'w) option"
  zmq_socket :: "'w \<Rightarrow> ptr \<Rightarrow> socket_type \<Rightarrow> ptr \<times> 'w"
  zmq_close :: "'w \<Rightarrow> ptr \<Rightarrow> int \<times> 'w"
  zmq_setsockopt :: "'w \<Rightarrow> ptr \<Rightarrow> socket_option \<Rightarrow> int \<Rightarrow> int \<times> 'w"
  zmq_bind :: "'w \<Rightarrow> ptr \<Rightarrow> string \<Rightarrow> int \<times> 'w"
  zmq_connect :: "'w \<Rightarrow> ptr \<Rightarrow> string \<Rightarrow> int \<times> 'w"
  zmq_msg_init :: "'w \<Rightarrow> int \<times> 'w"
  zmq_msg_init_size :: "'w \<Rightarrow> nat \<Rightarrow> int \<times> string \<times> 'w"
  zmq_msg_close :: "'w \<Rightarrow> string \<Rightarrow> int \<times> 'w"
  zmq_msg_send :: "'w \<Rightarrow> string \<Rightarrow> ptr \<Rightarrow> int \<Rightarrow> int \<times> 'w"
  zmq_msg_recv :: "'w \<Rightarrow> ptr \<Rightarrow> int \<Rightarrow> int \<times> string \<times> 'w"
  zmq_poll :: "'w \<Rightarrow> ptr \<Rightarrow> int \<Rightarrow> int \<times> bool \<times> 'w"
  zmq_max_sockets_default :: int

section \<open>Sequences of calls\<close>

type_synonym ('w, 'a) zmq_call = "'w \<Rightarrow> zmq_failure + 'a \<times> 'w"

definition zreturn :: "'a \<Rightarrow> ('w, 'a) zmq_call" where
  "zreturn x w = Inr (x, w)"

definition zbind :: "('w, 'a) zmq_call \<Rightarrow> ('a \<Rightarrow> ('w, 'b) zmq_call) \<Rightarrow> ('w, 'b) zmq_call" where
  "zbind f g w = (case f w of Inl e \<Rightarrow> Inl e | Inr (x, w') \<Rightarrow> g x w')"

text \<open>\<open>throw error_t ()\<close>: the constructor of \<open>error_t\<close> reads \<open>zmq_errno\<close>.\<close>

definition throw_error_t :: "'w libzmq \<Rightarrow> ('w, 'a) zmq_call" where
  "throw_error_t lib w = Inl (Error_t (zmq_errno lib w))"

text \<open>The two ways the wrappers treat a return code.\<close>

definition throw_unless_zero :: "'w libzmq \<Rightarrow> ('w \<Rightarrow> int \<times> 'w) \<Rightarrow> ('w, unit) zmq_call" where
  "throw_unless_zero lib f w =
     (case f w of (rc, w') \<Rightarrow> if rc \<noteq> 0 then throw_error_t lib w' else zreturn () w')"

definition assert_zero :: "('w \<Rightarrow> int \<times> 'w) \<Rightarrow> ('w, unit) zmq_call" where
  "assert_zero f w = (case f w of (rc, w') \<Rightarrow> if rc \<noteq> 0 then Inl Assertion_failed else zreturn () w')"

section \<open>Classes\<close>

text \<open>\<open>message_t\<close>: the constructors, and the destructor.\<close>

definition message_empty :: "'w libzmq \<Rightarrow> ('w, string) zmq_call" where
  "message_empty lib = zbind (throw_unless_zero lib (zmq_msg_init lib)) (\<lambda>u. zreturn [])"

definition message_size :: "'w libzmq \<Rightarrow> nat \<Rightarrow> ('w, string) zmq_call" where
  "message_size lib n w =
     (case zmq_msg_init_size lib w n of
        (rc, buffer, w') \<Rightarrow> if rc \<noteq> 0 then throw_error_t lib w' else zreturn buffer w')"

definition message_destroy :: "'w libzmq \<Rightarrow> string \<Rightarrow> ('w, unit) zmq_call" where
  "message_destroy lib m = assert_zero (\<lambda>w. zmq_msg_close lib w m)"

text \<open>\<open>context_t\<close>: the constructor with a number of threads, and \<open>close\<close>.\<close>

definition context_new :: "'w libzmq \<Rightarrow> int \<Rightarrow> ('w, ptr) zmq_call" where
  "context_new lib io_threads =
     zbind (\<lambda>w. case zmq_ctx_new lib w of
                  (p, w') \<Rightarrow> if p = 0 then throw_error_t lib w' else zreturn p w') (\<lambda>p.
     zbind (assert_zero (\<lambda>w. zmq_ctx_set lib w p ZMQ_IO_THREADS io_threads)) (\<lambda>u.
     zbind (assert_zero (\<lambda>w. zmq_ctx_set lib w p ZMQ_MAX_SOCKETS (zmq_max_sockets_default lib))) (\<lambda>u.
     zreturn p)))"

definition context_close :: "'w libzmq \<Rightarrow> ptr \<Rightarrow> ('w, unit) zmq_call" where
  "context_close lib p w =
     (case zmq_ctx_destroy lib w p of
        None \<Rightarrow> Inl Blocks
      | Some (rc, w') \<Rightarrow> if rc \<noteq> 0 then Inl Assertion_failed else zreturn () w')"

text \<open>\<open>socket_t\<close>. The destructor is \<open>close\<close>; closing a null pointer does nothing.\<close>

definition socket_new :: "'w libzmq \<Rightarrow> ptr \<Rightarrow> socket_type \<Rightarrow> ('w, ptr) zmq_call" where
  "socket_new lib ctx type w =
     (case zmq_socket lib w ctx type of
        (p, w') \<Rightarrow> if p = 0 then throw_error_t lib w' else zreturn p w')"

definition socket_close :: "'w libzmq \<Rightarrow> ptr \<Rightarrow> ('w, unit) zmq_call" where
  "socket_close lib p = (if p = 0 then zreturn () else assert_zero (\<lambda>w. zmq_close lib w p))"

definition socket_setsockopt ::
  "'w libzmq \<Rightarrow> ptr \<Rightarrow> socket_option \<Rightarrow> int \<Rightarrow> ('w, unit) zmq_call" where
  "socket_setsockopt lib p opt value =
     throw_unless_zero lib (\<lambda>w. zmq_setsockopt lib w p opt value)"

definition socket_bind :: "'w libzmq \<Rightarrow> ptr \<Rightarrow> string \<Rightarrow> ('w, unit) zmq_call" where
  "socket_bind lib p addr = throw_unless_zero lib (\<lambda>w. zmq_bind lib w p (c_str addr))"

definition socket_connect :: "'w libzmq \<Rightarrow> ptr \<Rightarrow> string \<Rightarrow> ('w, unit) zmq_call" where
  "socket_connect lib p addr = throw_unless_zero lib (\<lambda>w. zmq_connect lib w p (c_str addr))"

definition socket_send :: "'w libzmq \<Rightarrow> ptr \<Rightarrow> string \<Rightarrow> int \<Rightarrow> ('w, bool) zmq_call" where
  "socket_send lib p msg flags w =
     (case zmq_msg_send lib w msg p flags of
        (nbytes, w') \<Rightarrow>
          if 0 \<le> nbytes then zreturn True w'
          else if zmq_errno lib w' = EAGAIN then zreturn False w'
          else throw_error_t lib w')"

text \<open>The message keeps its content when nothing was received.\<close>

definition socket_recv :: "'w libzmq \<Rightarrow> ptr \<Rightarrow> string \<Rightarrow> int \<Rightarrow> ('w, bool \<times> string) zmq_call" where
  "socket_recv lib p msg flags w =
     (case zmq_msg_recv lib w p flags of
        (nbytes, content, w') \<Rightarrow>
          if 0 \<le> nbytes then zreturn (True, content) w'
          else if zmq_errno lib w' = EAGAIN then zreturn (False, msg) w'
          else throw_error_t lib w')"

text \<open>
  \<open>zmq::poll\<close> on one item that asks for \<open>ZMQ_POLLIN\<close>, with a timeout in milliseconds; the
  result says whether \<open>revents\<close> has \<open>ZMQ_POLLIN\<close>.
\<close>

definition poll_in :: "'w libzmq \<Rightarrow> ptr \<Rightarrow> int \<Rightarrow> ('w, bool) zmq_call" where
  "poll_in lib p timeout w =
     (case zmq_poll lib w p timeout of
        (rc, revents, w') \<Rightarrow> if rc < 0 then throw_error_t lib w' else zreturn revents w')"

section \<open>Helpers\<close>

text \<open>\<open>s_recv\<close> ignores the result of \<open>recv\<close>; \<open>s_send\<close> copies the string into a buffer of its size.\<close>

definition s_recv :: "'w libzmq \<Rightarrow> ptr \<Rightarrow> ('w, string) zmq_call" where
  "s_recv lib p =
     zbind (message_empty lib) (\<lambda>message.
     zbind (socket_recv lib p message 0) (\<lambda>(received, content).
     zbind (message_destroy lib content) (\<lambda>u.
     zreturn content)))"

definition memcpy :: "string \<Rightarrow> string \<Rightarrow> nat \<Rightarrow> string" where
  "memcpy dest source n = take n source @ drop n dest"

definition s_send :: "'w libzmq \<Rightarrow> ptr \<Rightarrow> string \<Rightarrow> ('w, bool) zmq_call" where
  "s_send lib p s =
     zbind (message_size lib (length s)) (\<lambda>buffer.
     let message = memcpy buffer s (length s) in
     zbind (socket_send lib p message 0) (\<lambda>rc.
     zbind (message_destroy lib (if rc then [] else message)) (\<lambda>u.
     zreturn rc)))"

section \<open>Messages that can be made and closed\<close>

text \<open>
  What the library documents about messages: they can be made and closed, a buffer has the size asked for, and none of this
  changes what \<open>view\<close> sees of the world.
\<close>

definition message_calls :: "'w libzmq \<Rightarrow> ('w \<Rightarrow> 'v) \<Rightarrow> bool" where
  "message_calls lib view \<longleftrightarrow>
     (\<forall>w. \<exists>w'. zmq_msg_init lib w = (0, w') \<and> view w' = view w) \<and>
     (\<forall>w n. \<exists>b w'. zmq_msg_init_size lib w n = (0, b, w') \<and> length b = n \<and> view w' = view w) \<and>
     (\<forall>w m. \<exists>w'. zmq_msg_close lib w m = (0, w') \<and> view w' = view w)"

lemmas zmq_call_defs = zbind_def zreturn_def throw_error_t_def throw_unless_zero_def assert_zero_def

lemma memcpy_full: "length b = length s \<Longrightarrow> memcpy b s (length s) = s"
  by (simp add: memcpy_def)

lemma zbind_Inr: "zbind f g w = Inr r \<longleftrightarrow> (\<exists>x w1. f w = Inr (x, w1) \<and> g x w1 = Inr r)"
  by (auto simp: zbind_def split: sum.splits)

lemma zreturn_Inr: "zreturn x w = Inr r \<longleftrightarrow> r = (x, w)"
  by (auto simp: zreturn_def)

lemma socket_new_Inr: "socket_new lib ctx type w = Inr (p, w1) \<longleftrightarrow> zmq_socket lib w ctx type = (p, w1) \<and> p \<noteq> 0"
  by (auto simp: socket_new_def zmq_call_defs split: prod.splits)

lemma message_destroy_ok:
  assumes "message_calls lib view"
  shows "message_destroy lib m w = Inr ((), snd (zmq_msg_close lib w m))"
proof -
  obtain w' where "zmq_msg_close lib w m = (0, w')"
    using assms unfolding message_calls_def by blast
  then show ?thesis by (simp add: message_destroy_def zmq_call_defs)
qed

text \<open>With well-behaved messages the helpers come down to one call of the library.\<close>

lemma s_send_call:
  assumes "message_calls lib view"
  obtains w1 where "view w1 = view w"
    and "s_send lib p s w = (case zmq_msg_send lib w1 s p 0 of (n, w2) \<Rightarrow>
      if 0 \<le> n then Inr (True, snd (zmq_msg_close lib w2 []))
      else if zmq_errno lib w2 = EAGAIN then Inr (False, snd (zmq_msg_close lib w2 s))
      else Inl (Error_t (zmq_errno lib w2)))"
proof -
  obtain b w1 where init: "zmq_msg_init_size lib w (length s) = (0, b, w1)" "length b = length s"
    "view w1 = view w"
    using assms unfolding message_calls_def by blast
  show thesis
    by (rule that [OF init(3)])
      (simp add: s_send_def message_size_def init memcpy_full Let_def socket_send_def zmq_call_defs
        message_destroy_ok [OF assms] split: prod.split)
qed

lemma s_recv_call:
  assumes "message_calls lib view"
  obtains w1 where "view w1 = view w"
    and "s_recv lib p w = (case zmq_msg_recv lib w1 p 0 of (n, c, w2) \<Rightarrow>
      if 0 \<le> n then Inr (c, snd (zmq_msg_close lib w2 c))
      else if zmq_errno lib w2 = EAGAIN then Inr ([], snd (zmq_msg_close lib w2 []))
      else Inl (Error_t (zmq_errno lib w2)))"
proof -
  obtain w1 where init: "zmq_msg_init lib w = (0, w1)" "view w1 = view w"
    using assms unfolding message_calls_def by blast
  show thesis
    by (rule that [OF init(2)])
      (simp add: s_recv_def message_empty_def init socket_recv_def zmq_call_defs
        message_destroy_ok [OF assms] split: prod.split)
qed

lemma close_view: "message_calls lib view \<Longrightarrow> view (snd (zmq_msg_close lib w m)) = view w"
  unfolding message_calls_def by (metis snd_conv)

text \<open>
  What is sent on socket \<open>p\<close> comes in at socket \<open>q\<close>, in order and unchanged: \<open>view w\<close> has the
  messages that wait at \<open>q\<close> and whether \<open>q\<close> must send before it can receive again.
\<close>

definition carries :: "'w libzmq \<Rightarrow> ptr \<Rightarrow> ptr \<Rightarrow> ('w \<Rightarrow> string list \<times> bool) \<Rightarrow> bool" where
  "carries lib p q view \<longleftrightarrow> message_calls lib view \<and>
     (\<forall>w m n w'. zmq_msg_send lib w m p 0 = (n, w') \<longrightarrow> 0 \<le> n \<longrightarrow>
        view w' = (fst (view w) @ [m], snd (view w))) \<and>
     (\<forall>w m ms. view w = (m # ms, False) \<longrightarrow>
        (\<exists>n w'. zmq_msg_recv lib w q 0 = (n, m, w') \<and> 0 \<le> n \<and> view w' = (ms, True)))"

lemma s_send_carries:
  assumes c: "carries lib p q view" and run: "s_send lib p s w = Inr (True, w')"
  shows "view w' = (fst (view w) @ [s], snd (view w))"
proof -
  have msg: "message_calls lib view" using c by (simp add: carries_def)
  obtain w1 where w1: "view w1 = view w" and call: "s_send lib p s w = (case zmq_msg_send lib w1 s p 0 of (n, w2) \<Rightarrow>
      if 0 \<le> n then Inr (True, snd (zmq_msg_close lib w2 []))
      else if zmq_errno lib w2 = EAGAIN then Inr (False, snd (zmq_msg_close lib w2 s))
      else Inl (Error_t (zmq_errno lib w2)))"
    using s_send_call [OF msg, of w p s] by blast
  obtain n w2 where send: "zmq_msg_send lib w1 s p 0 = (n, w2)" by (cases "zmq_msg_send lib w1 s p 0") auto
  from run call send have "0 \<le> n" "w' = snd (zmq_msg_close lib w2 [])" by (auto split: if_splits)
  moreover have "view w2 = (fst (view w1) @ [s], snd (view w1))"
    using c send \<open>0 \<le> n\<close> unfolding carries_def by metis
  ultimately show ?thesis using w1 close_view [OF msg, of w2 "[]"] by simp
qed

lemma s_recv_carries:
  assumes c: "carries lib p q view" and queue: "view w = (m # ms, False)"
  shows "\<exists>w'. s_recv lib q w = Inr (m, w') \<and> view w' = (ms, True)"
proof -
  have msg: "message_calls lib view" using c by (simp add: carries_def)
  obtain w1 where w1: "view w1 = view w" and call: "s_recv lib q w = (case zmq_msg_recv lib w1 q 0 of (n, c, w2) \<Rightarrow>
      if 0 \<le> n then Inr (c, snd (zmq_msg_close lib w2 c))
      else if zmq_errno lib w2 = EAGAIN then Inr ([], snd (zmq_msg_close lib w2 []))
      else Inl (Error_t (zmq_errno lib w2)))"
    using s_recv_call [OF msg, of w q] by blast
  obtain n w2 where "zmq_msg_recv lib w1 q 0 = (n, m, w2)" "0 \<le> n" "view w2 = (ms, True)"
    using c w1 queue unfolding carries_def by metis
  with call close_view [OF msg, of w2 m] show ?thesis by simp
qed

end
