(* ===== verification/Responder.thy ===== *)
theory Responder
  imports ZeroMQ
begin

text \<open>
  The \<open>REP\<close> side of the exchanges, which \<open>src/src/server/Server.cpp\<close> and
  \<open>src/src/oss_rule_server/OSSRuleServer.cpp\<close> share: the two operations their loops use,
  \<open>RepSocket\<close> (\<open>None\<close> when the library throws, which nothing catches), the one the classes
  build from \<open>zmq.hpp\<close>, and what the library documents about such a socket.
\<close>

record 'z RepSocket =
  wire_recv :: "'z \<Rightarrow> (string \<times> 'z) option"
  wire_send :: "'z \<Rightarrow> string \<Rightarrow> 'z option"

text \<open>The members \<open>context_\<close> and \<open>server_\<close> of both classes; both start as null pointers.\<close>

record ServerSockets =
  sv_context :: ptr
  sv_server :: ptr

definition no_sockets :: ServerSockets where
  "no_sockets = \<lparr>sv_context = 0, sv_server = 0\<rparr>"

definition zmq_responder :: "'w libzmq \<Rightarrow> ptr \<Rightarrow> 'w RepSocket" where
  "zmq_responder lib p =
     \<lparr>wire_recv = \<lambda>w. (case s_recv lib p w of Inl e \<Rightarrow> None | Inr (m, w') \<Rightarrow> Some (m, w')),
      wire_send = \<lambda>w m. (case s_send lib p m w of Inl e \<Rightarrow> None | Inr (rc, w') \<Rightarrow> Some w')\<rparr>"

section \<open>What the library documents\<close>

text \<open>
  A \<open>REP\<close> socket alternates: \<open>waiting w\<close> says that a request was received and not answered;
  then receiving fails. A blocking call does not fail with \<open>EAGAIN\<close>.
\<close>

definition rep_protocol :: "'w libzmq \<Rightarrow> ptr \<Rightarrow> ('w \<Rightarrow> bool) \<Rightarrow> bool" where
  "rep_protocol lib p waiting \<longleftrightarrow>
     (\<forall>w n c w'. zmq_msg_recv lib w p 0 = (n, c, w') \<longrightarrow>
        (if 0 \<le> n then \<not> waiting w \<and> waiting w' else zmq_errno lib w' \<noteq> EAGAIN)) \<and>
     (\<forall>w m. waiting w \<longrightarrow> (\<exists>n w'. zmq_msg_send lib w m p 0 = (n, w') \<and> 0 \<le> n \<and> \<not> waiting w'))"

definition rep_socket :: "('z, 'x) RepSocket_scheme \<Rightarrow> ('z \<Rightarrow> bool) \<Rightarrow> bool" where
  "rep_socket wire waiting \<longleftrightarrow>
     (\<forall>z raw z'. wire_recv wire z = Some (raw, z') \<longrightarrow> \<not> waiting z \<and> waiting z') \<and>
     (\<forall>z raw. waiting z \<longrightarrow> (\<exists>z'. wire_send wire z raw = Some z' \<and> \<not> waiting z'))"

section \<open>Lemmas\<close>

lemma rep_socket_recv: "rep_socket wire waiting \<Longrightarrow> waiting z \<Longrightarrow> wire_recv wire z = None"
  unfolding rep_socket_def by (cases "wire_recv wire z") auto

text \<open>The library's \<open>REP\<close> socket keeps the alternation through the helpers.\<close>

lemma zmq_responder_rep:
  assumes msg: "message_calls lib waiting" and rep: "rep_protocol lib p waiting"
  shows "rep_socket (zmq_responder lib p) waiting"
  unfolding rep_socket_def
proof (intro conjI allI impI)
  fix w raw w' assume recv: "wire_recv (zmq_responder lib p) w = Some (raw, w')"
  obtain w1 where "waiting w1 = waiting w" and call: "s_recv lib p w = (case zmq_msg_recv lib w1 p 0 of (n, c, w2) \<Rightarrow>
      if 0 \<le> n then Inr (c, snd (zmq_msg_close lib w2 c))
      else if zmq_errno lib w2 = EAGAIN then Inr ([], snd (zmq_msg_close lib w2 []))
      else Inl (Error_t (zmq_errno lib w2)))"
    using s_recv_call [OF msg, of w p] by blast
  moreover obtain n c w2 where "zmq_msg_recv lib w1 p 0 = (n, c, w2)"
    by (cases "zmq_msg_recv lib w1 p 0") auto
  moreover from this have "if 0 \<le> n then \<not> waiting w1 \<and> waiting w2 else zmq_errno lib w2 \<noteq> EAGAIN"
    using rep unfolding rep_protocol_def by blast
  ultimately show "\<not> waiting w" "waiting w'"
    using recv close_view [OF msg, of w2 c] by (auto simp: zmq_responder_def split: if_splits)
next
  fix w raw assume "waiting w"
  obtain w1 where w1: "waiting w1 = waiting w" and call: "s_send lib p raw w = (case zmq_msg_send lib w1 raw p 0 of (n, w2) \<Rightarrow>
      if 0 \<le> n then Inr (True, snd (zmq_msg_close lib w2 []))
      else if zmq_errno lib w2 = EAGAIN then Inr (False, snd (zmq_msg_close lib w2 raw))
      else Inl (Error_t (zmq_errno lib w2)))"
    using s_send_call [OF msg, of w p raw] by blast
  obtain n w2 where "zmq_msg_send lib w1 raw p 0 = (n, w2)" "0 \<le> n" "\<not> waiting w2"
    using rep \<open>waiting w\<close> w1 unfolding rep_protocol_def by blast
  with call close_view [OF msg, of w2 "[]"] show "\<exists>w'. wire_send (zmq_responder lib p) w raw = Some w' \<and> \<not> waiting w'"
    by (simp add: zmq_responder_def)
qed

end
