(* ===== verification/Server.thy ===== *)
theory Server
  imports Planner Responder
begin

text \<open>
  \<open>src/src/server/Server.h/.cpp\<close>: the sockets, and the request loop over a socket with the
  operations of \<open>RepSocket\<close>. The wire format is a parameter, \<open>ParseFromString\<close> and
  \<open>SerializeAsString\<close>.
\<close>

datatype server_failure = ServeFailed serve_failure | SocketError

record 'z Wire = "'z RepSocket" +
  ParseFromString :: "string \<Rightarrow> bool \<times> Message"
  SerializeAsString :: "Message \<Rightarrow> string"

text \<open>What a call to the planner depends on besides its state.\<close>

record 'w Surroundings =
  sur_env :: "'w Env"
  sur_uninit :: "nat \<Rightarrow> u32"
  sur_iterate :: "string set \<Rightarrow> string list"
  sur_now :: time_point
  sur_compile :: "string \<Rightarrow> (string \<Rightarrow> bool) option"
  sur_put_time :: "int \<Rightarrow> string"

section \<open>The object\<close>

record 'w Server =
  srv_root_path :: string
  srv_ip_port :: string
  srv_planner :: "'w Planner"
  srv_sockets :: ServerSockets

definition Server_new :: "string \<Rightarrow> string \<Rightarrow> 'w Planner \<Rightarrow> 'w Server" where
  "Server_new ip_port root_path planner =
     \<lparr>srv_root_path = root_path, srv_ip_port = ip_port, srv_planner = planner, srv_sockets = no_sockets\<rparr>"

text \<open>\<open>reset\<close> destroys the old socket after the new one is made.\<close>

definition Server_initZMQ :: "'z libzmq \<Rightarrow> 'w Server \<Rightarrow> ('z, 'w Server) zmq_call" where
  "Server_initZMQ lib s =
     zbind (context_new lib 1) (\<lambda>ctx.
     zbind (socket_new lib ctx ZMQ_REP) (\<lambda>new.
     zbind (socket_close lib (sv_server (srv_sockets s))) (\<lambda>u.
     zbind (socket_bind lib new (''tcp://'' @ srv_ip_port s)) (\<lambda>u.
     zreturn (s\<lparr>srv_sockets := \<lparr>sv_context = ctx, sv_server = new\<rparr>\<rparr>)))))"

definition Server_Init :: "'z libzmq \<Rightarrow> 'w Server \<Rightarrow> ('z, bool \<times> 'w Server) zmq_call" where
  "Server_Init lib s =
     (if srv_root_path s \<noteq> [] then zreturn (False, s)
      else zbind (Server_initZMQ lib s) (\<lambda>s1. zreturn (True, s1)))"

definition Server_TearDown :: "'w Server \<Rightarrow> bool \<times> 'w Server" where
  "Server_TearDown s = (True, s)"

section \<open>Requests\<close>

definition ProcessMessage ::
  "'w Surroundings \<Rightarrow> 'w Planner \<Rightarrow> Message \<Rightarrow> serve_failure + bool \<times> Message \<times> 'w Planner" where
  "ProcessMessage sur p msg =
     (case req_type (request msg) of
        RESERVE \<Rightarrow>
          ServeJobSubmission (sur_env sur) (sur_uninit sur) (sur_iterate sur) (sur_now sur) p msg
      | DELETE \<Rightarrow> ServeJobRemove (sur_env sur) p msg
      | LISTJOBS \<Rightarrow> ServeListJobs (sur_compile sur) (sur_put_time sur) p msg
      | INVALID \<Rightarrow> Inr (False, msg, p)
      | OtherRequestType n \<Rightarrow> Inr (False, msg, p))"

definition ProcessUnparsableMsg :: "Message \<Rightarrow> Message" where
  "ProcessUnparsableMsg msg = mutable_reply (\<lambda>r. r\<lparr>rep_rc := 1\<rparr>) (msg\<lparr>msg_type := REPLY\<rparr>)"

text \<open>What the server sends for a request it processed.\<close>

definition finish_reply :: "Message \<Rightarrow> Message" where
  "finish_reply msg = (release_request msg)\<lparr>msg_type := REPLY\<rparr>"

text \<open>
  One turn of the loop of \<open>Serve\<close>. A message of type \<open>REPLY\<close> takes the \<open>continue\<close> that
  sends nothing.
\<close>

definition Serve_turn ::
  "'w Surroundings \<Rightarrow> 'z Wire \<Rightarrow> 'w Planner \<times> 'z \<Rightarrow> server_failure + 'w Planner \<times> 'z" where
  "Serve_turn sur wire st =
     (case st of (p, z) \<Rightarrow>
        (case wire_recv wire z of
           None \<Rightarrow> Inl SocketError
         | Some (raw, z1) \<Rightarrow>
             (case ParseFromString wire raw of
                (parsed, msg) \<Rightarrow>
                  if \<not> parsed then
                    (case wire_send wire z1 (SerializeAsString wire (ProcessUnparsableMsg msg)) of
                       None \<Rightarrow> Inl SocketError
                     | Some z2 \<Rightarrow> Inr (p, z2))
                  else if msg_type msg = REPLY then Inr (p, z1)
                  else
                    (case ProcessMessage sur p msg of
                       Inl f \<Rightarrow> Inl (ServeFailed f)
                     | Inr (ok, msg1, p1) \<Rightarrow>
                         (case wire_send wire z1 (SerializeAsString wire (finish_reply msg1)) of
                            None \<Rightarrow> Inl SocketError
                          | Some z2 \<Rightarrow> Inr (p1, z2))))))"

fun Serve ::
  "'z Wire \<Rightarrow> 'w Surroundings list \<Rightarrow> 'w Planner \<times> 'z \<Rightarrow> server_failure + 'w Planner \<times> 'z" where
  "Serve wire [] st = Inr st"
| "Serve wire (sur # surs) st =
     (case Serve_turn sur wire st of Inl f \<Rightarrow> Inl f | Inr st1 \<Rightarrow> Serve wire surs st1)"

section \<open>Lemmas\<close>

lemma Server_Init_shape:
  assumes "Server_Init lib s z = Inr ((ok, s1), z1)"
  shows "srv_planner s1 = srv_planner s" and "srv_root_path s1 = srv_root_path s"
    and "ok \<longleftrightarrow> srv_root_path s = []" and "ok \<Longrightarrow> sv_server (srv_sockets s1) \<noteq> 0"
  using assms
  by (auto simp: Server_Init_def Server_initZMQ_def zbind_Inr zreturn_Inr socket_new_Inr split: if_splits)

lemma ServeJobRemove_total:
  assumes "mon_inv (pl_monitor p)"
  shows "\<exists>p'. ServeJobRemove env p msg =
      Inr (True, mutable_reply (\<lambda>r. r\<lparr>rep_rc := 0\<rparr>) msg, p') \<and> mon_inv (pl_monitor p')"
  using remove_ids_spec [OF assms, of env "dr_id (deleterequest (request msg))"]
  by (auto simp: ServeJobRemove_def)

lemma ServeListJobs_cases:
  assumes "mon_inv (pl_monitor p)"
  shows "\<exists>msg'. ServeListJobs compile put_time p msg = Inr (True, msg', p) \<and> has_reply msg' \<or>
    ServeListJobs compile put_time p msg = Inl RegexError"
  using GetAllJobs_mon [OF assms]
  by (auto simp: ServeListJobs_def Let_def split: option.split)

lemma ServeListJobs_reply:
  assumes "mon_inv (pl_monitor p)"
    and "compile (if lj_regex (listjobsrequest (request msg)) = [] then ''.*''
      else lj_regex (listjobsrequest (request msg))) = Some search"
  shows "\<exists>js msg'. map_of js = mjobs (pl_monitor p) \<and> smap_ok js \<and>
    ServeListJobs compile put_time p msg = Inr (True, msg', p) \<and> rep_rc (reply msg') = 0 \<and>
    rep_return_msg (reply msg') =
      (if js = [] then ''no matches found'' @ [CHR 0x0A]
       else let found = filter (search \<circ> fst) js in
         if found = [] then [] else header_line @ concat (map (job_line put_time \<circ> snd) found))"
proof -
  obtain js where js: "GetAllJobs (mon_schedule (pl_monitor p)) = Some js" "smap_ok js"
    "map_of js = mjobs (pl_monitor p)"
    using GetAllJobs_mon [OF assms(1)] by blast
  let ?msg = "AddDefaultRegexIfEmpty msg" and ?found = "filter (\<lambda>kv. search (fst kv)) js"
  let ?reply = "(AddJobsToReply put_time default_Reply js (map snd ?found))\<lparr>rep_rc := 0\<rparr>"
  have "compile (lj_regex (listjobsrequest (request ?msg))) = Some search"
    using assms(2)
    by (cases "lj_regex (listjobsrequest (request msg)) = []") (simp_all add: AddDefaultRegexIfEmpty_def)
  with js(1) have run: "ServeListJobs compile put_time p msg =
      Inr (True, mutable_reply (\<lambda>r. ?reply) ?msg, p)"
    by (simp add: ServeListJobs_def FilterJobs_def)
  have "rep_return_msg ?reply = (if js = [] then ''no matches found'' @ [CHR 0x0A]
       else let found = filter (search \<circ> fst) js in
         if found = [] then [] else header_line @ concat (map (job_line put_time \<circ> snd) found))"
    by (simp add: AddJobsToReply_def Format_text comp_def Let_def) (simp add: Format_def)
  with js run show ?thesis by (intro exI conjI) (auto simp: comp_def)
qed

text \<open>What a handler fails on, when the state satisfies the invariant.\<close>

definition search_expression :: "Message \<Rightarrow> string" where
  "search_expression msg =
     (let e = lj_regex (listjobsrequest (request msg)) in if e = [] then ''.*'' else e)"

lemma ServeListJobs_fails:
  assumes "mon_inv (pl_monitor p)"
  shows "ServeListJobs compile put_time p msg = Inl f \<longleftrightarrow>
    f = RegexError \<and> compile (search_expression msg) = None"
proof -
  obtain js where "GetAllJobs (mon_schedule (pl_monitor p)) = Some js"
    using GetAllJobs_mon [OF assms] by blast
  moreover have "lj_regex (listjobsrequest (request (AddDefaultRegexIfEmpty msg))) = search_expression msg"
    by (simp add: AddDefaultRegexIfEmpty_def search_expression_def Let_def)
  ultimately show ?thesis
    by (auto simp: ServeListJobs_def FilterJobs_def Let_def split: option.split)
qed

lemma ServeJobSubmission_fails:
  assumes inv: "mon_inv (pl_monitor p)"
  shows "ServeJobSubmission env uninit iterate now p msg = Inl f \<longleftrightarrow>
    f = Undefined \<and> rr_files (resourcerequest (request msg)) \<noteq> [] \<and>
    fst (tryComputeOstSetOfRequest (env_lustre env) (mon_world (pl_monitor p))
      (rr_files (resourcerequest (request msg))) {}) \<and>
    reservation_end now (resourcerequest (request msg)) = None"
proof -
  let ?req = "resourcerequest (request msg)"
  obtain ok osts w1 where t: "tryComputeOstSetOfRequest (env_lustre env) (mon_world (pl_monitor p))
      (rr_files ?req) {} = (ok, osts, w1)" by (metis prod_cases3)
  show ?thesis
  proof (cases "rr_files ?req = [] \<or> \<not> ok \<or> reservation_end now ?req = None")
    case True
    with t show ?thesis by (auto simp: ServeJobSubmission_def reservation_end_def Let_def)
  next
    case False
    then obtain tend where fin: "reservation_end now ?req = Some tend" by auto
    from False t have "rr_files ?req \<noteq> []" "tryComputeOstSetOfRequest (env_lustre env)
        (mon_world (pl_monitor p)) (rr_files ?req) {} = (True, osts, w1)" by simp_all
    from ServeJobSubmission_spec [where iterate = iterate and uninit = uninit, OF inv this fin refl]
    obtain b p' msg' where "ServeJobSubmission env uninit iterate now p msg = Inr (b, msg', p')" by blast
    with False show ?thesis by simp
  qed
qed

lemma ProcessMessage_fails:
  assumes "mon_inv (pl_monitor p)"
  shows "ProcessMessage sur p msg = Inl f \<longleftrightarrow>
    (req_type (request msg) = LISTJOBS \<and> f = RegexError \<and>
       sur_compile sur (search_expression msg) = None) \<or>
    (req_type (request msg) = RESERVE \<and> f = Undefined \<and>
       rr_files (resourcerequest (request msg)) \<noteq> [] \<and>
       fst (tryComputeOstSetOfRequest (env_lustre (sur_env sur)) (mon_world (pl_monitor p))
         (rr_files (resourcerequest (request msg))) {}) \<and>
       reservation_end (sur_now sur) (resourcerequest (request msg)) = None)"
  using ServeListJobs_fails [OF assms] ServeJobSubmission_fails [OF assms]
    ServeJobRemove_total [OF assms, of "sur_env sur" msg]
  by (cases "req_type (request msg)") (auto simp: ProcessMessage_def)

lemma ProcessMessage_inv:
  assumes inv: "mon_inv (pl_monitor p)" and run: "ProcessMessage sur p msg = Inr (b, msg', p')"
  shows "mon_inv (pl_monitor p')"
proof (cases "req_type (request msg)")
  case RESERVE
  with run ServeJobSubmission_inv [OF inv] show ?thesis by (simp add: ProcessMessage_def)
next
  case DELETE
  with run ServeJobRemove_total [OF inv, of "sur_env sur" msg] show ?thesis
    by (auto simp: ProcessMessage_def)
next
  case LISTJOBS
  with run inv ServeListJobs_cases [OF inv, of "sur_compile sur" "sur_put_time sur" msg]
  show ?thesis by (auto simp: ProcessMessage_def)
qed (use run inv in \<open>auto simp: ProcessMessage_def\<close>)

lemma Serve_turn_inv:
  assumes "mon_inv (pl_monitor p)" and "Serve_turn sur wire (p, z) = Inr (p', z')"
  shows "mon_inv (pl_monitor p')"
  using assms by (auto simp: Serve_turn_def split: option.splits prod.splits sum.splits if_splits
      dest: ProcessMessage_inv)

text \<open>Every reply the server builds is a message of type \<open>REPLY\<close> without a request.\<close>

lemma finish_reply_shape:
  "msg_type (finish_reply msg) = REPLY" "\<not> has_request (finish_reply msg)"
  "has_reply (finish_reply msg) = has_reply msg"
  by (auto simp: finish_reply_def release_request_def accessor_defs split: RqCase.splits)

lemma ProcessUnparsableMsg_shape:
  "msg_type (ProcessUnparsableMsg msg) = REPLY" "\<not> has_request (ProcessUnparsableMsg msg)"
  by (auto simp: ProcessUnparsableMsg_def accessor_defs mutable_reply_def split: RqCase.splits)

text \<open>What is sent in a turn, if anything, is a message of type \<open>REPLY\<close> without a request.\<close>

lemma Serve_turn_sends:
  assumes "Serve_turn sur wire (p, z) = Inr (p', z')"
  shows "\<exists>raw z1 msg. wire_recv wire z = Some (raw, z1) \<and>
    (if fst (ParseFromString wire raw) \<and> msg_type (snd (ParseFromString wire raw)) = REPLY
     then z' = z1 \<and> p' = p
     else wire_send wire z1 (SerializeAsString wire msg) = Some z' \<and>
       msg_type msg = REPLY \<and> \<not> has_request msg)"
proof -
  obtain raw z1 where recv: "wire_recv wire z = Some (raw, z1)"
    using assms by (auto simp: Serve_turn_def split: option.splits)
  obtain parsed msg where parse: "ParseFromString wire raw = (parsed, msg)"
    by (cases "ParseFromString wire raw") auto
  show ?thesis
  proof (cases "parsed \<and> msg_type msg \<noteq> REPLY")
    case True
    obtain ok m1 p1 where "ProcessMessage sur p msg = Inr (ok, m1, p1)"
      using assms True recv parse by (auto simp: Serve_turn_def split: sum.splits)
    with assms True recv parse have "wire_send wire z1 (SerializeAsString wire (finish_reply m1)) = Some z'"
      by (auto simp: Serve_turn_def split: option.splits)
    with True recv parse finish_reply_shape(1,2) [of m1] show ?thesis by auto
  next
    case False
    with assms recv parse ProcessUnparsableMsg_shape [of msg] show ?thesis
      by (auto simp: Serve_turn_def split: option.splits if_splits)
  qed
qed

lemma Serve_inv:
  "mon_inv (pl_monitor p) \<Longrightarrow> Serve wire surs (p, z) = Inr (p', z') \<Longrightarrow> mon_inv (pl_monitor p')"
proof (induction surs arbitrary: p z)
  case (Cons sur surs)
  from Cons.prems(2) obtain st1 where t: "Serve_turn sur wire (p, z) = Inr st1"
    and rest: "Serve wire surs st1 = Inr (p', z')"
    by (cases "Serve_turn sur wire (p, z)") simp_all
  obtain p1 z1 where st1: "st1 = (p1, z1)" by (cases st1)
  from Serve_turn_inv [OF Cons.prems(1) t [unfolded st1]]
  show ?case using rest unfolding st1 by (rule Cons.IH)
qed simp

end
