(* ===== verification/WireFormat.thy ===== *)
theory WireFormat
  imports Prelude
begin

text \<open>
  The part of the protocol buffers runtime that the generated classes of
  \<open>src/src/common/rpc/proto\<close> call, and the shape those classes share.

  The runtime (\<open>CodedInputStream\<close>, \<open>CodedOutputStream\<close> and \<open>WireFormatLite\<close>) is a library:
  its calls are the fields of the record \<open>WireFormatLite\<close> and \<open>wire_laws\<close> says what its
  documentation promises of them. A stream is the bytes up to its current limit and the flag
  that \<open>ConsumedEntireMessage\<close> reads. What protoc generates is the same for every class but
  for the fields: \<open>merge_loop\<close> is the loop of \<open>MergePartialFromCodedStream\<close>, over a table
  that says for every tag how the field is read and which shortcuts follow it.
\<close>

section \<open>The library\<close>

record CodedInputStream =
  unread :: string
  legitimate_message_end :: bool

record WireFormatLite =
  ReadTagWithCutoff :: "nat \<Rightarrow> CodedInputStream \<Rightarrow> 32 word \<times> bool \<times> CodedInputStream"
  ExpectTag :: "32 word \<Rightarrow> CodedInputStream \<Rightarrow> bool \<times> CodedInputStream"
  ExpectAtEnd :: "CodedInputStream \<Rightarrow> bool \<times> CodedInputStream"
  SkipField :: "32 word \<Rightarrow> CodedInputStream \<Rightarrow> CodedInputStream option"
  ReadString :: "CodedInputStream \<Rightarrow> string \<Rightarrow> string \<times> CodedInputStream option"
  ReadInt32 :: "CodedInputStream \<Rightarrow> (32 word \<times> CodedInputStream) option"
  ReadInt64 :: "CodedInputStream \<Rightarrow> (64 word \<times> CodedInputStream) option"
  ReadEnum :: "CodedInputStream \<Rightarrow> (32 word \<times> CodedInputStream) option"
  ReadBool :: "CodedInputStream \<Rightarrow> (bool \<times> CodedInputStream) option"
  PushLengthLimit :: "CodedInputStream \<Rightarrow> (string \<times> string) option"
  VerifyUtf8String :: "string \<Rightarrow> bool"
  LengthPrefix :: "nat \<Rightarrow> nat \<Rightarrow> string"
  WriteInt32ToArray :: "nat \<Rightarrow> 32 word \<Rightarrow> string"
  WriteInt64ToArray :: "nat \<Rightarrow> 64 word \<Rightarrow> string"
  WriteEnumToArray :: "nat \<Rightarrow> 32 word \<Rightarrow> string"
  WriteBoolToArray :: "nat \<Rightarrow> bool \<Rightarrow> string"
  VarintSize32 :: "nat \<Rightarrow> nat"
  Int32Size :: "32 word \<Rightarrow> nat"
  Int64Size :: "64 word \<Rightarrow> nat"
  EnumSize :: "32 word \<Rightarrow> nat"

text \<open>
  \<open>PushLengthLimit\<close> reads the length of a sub-message: the bytes its limit leaves to it, and
  those after it. \<open>LengthPrefix\<close> is the tag of a length-delimited field with its length.
  A string field is that prefix and its bytes, a message field that prefix and what the message
  writes.
\<close>

definition WriteStringToArray :: "WireFormatLite \<Rightarrow> nat \<Rightarrow> string \<Rightarrow> string" where
  "WriteStringToArray lib n s = LengthPrefix lib n (length s) @ s"

definition StringSize :: "WireFormatLite \<Rightarrow> string \<Rightarrow> nat" where
  "StringSize lib s = VarintSize32 lib (length s) + length s"

definition WriteMessageToArray :: "WireFormatLite \<Rightarrow> nat \<Rightarrow> nat \<Rightarrow> string \<Rightarrow> string" where
  "WriteMessageToArray lib n cached_size bytes = LengthPrefix lib n cached_size @ bytes"

definition MessageSizeNoVirtual :: "WireFormatLite \<Rightarrow> nat \<Rightarrow> nat" where
  "MessageSizeNoVirtual lib byte_size = VarintSize32 lib byte_size + byte_size"

type_synonym 'm merged = "'m \<times> CodedInputStream option"

text \<open>
  A merge yields the message as far as it got and the stream, \<open>None\<close> for \<open>goto failure\<close>; the
  merge itself is \<open>None\<close> when it never returns. \<open>ReadMessageNoVirtual\<close> merges a sub-message
  inside its limit and then asks whether it ended legitimately; lifting the limit forgets the
  flag. The nesting of the messages is at most three, below the recursion limit.
\<close>

definition ReadMessageNoVirtual ::
  "WireFormatLite \<Rightarrow> ('s \<Rightarrow> CodedInputStream \<Rightarrow> 's merged option) \<Rightarrow> 's \<Rightarrow> CodedInputStream
    \<Rightarrow> 's merged option" where
  "ReadMessageNoVirtual lib merge sub inp =
     (case PushLengthLimit lib inp of
        None \<Rightarrow> Some (sub, None)
      | Some (inside, after) \<Rightarrow>
          (case merge sub (inp\<lparr>unread := inside\<rparr>) of
             None \<Rightarrow> None
           | Some (sub1, None) \<Rightarrow> Some (sub1, None)
           | Some (sub1, Some in1) \<Rightarrow>
               Some (sub1, if legitimate_message_end in1
                 then Some \<lparr>unread = after, legitimate_message_end = False\<rparr> else None)))"

section \<open>The shape of the generated parsers\<close>

text \<open>
  A field of a class: how it is read into the message, the tags \<open>ExpectTag\<close> tries after it, and
  whether \<open>ExpectAtEnd\<close> is tried then.
\<close>

type_synonym 'm field =
  "('m \<Rightarrow> CodedInputStream \<Rightarrow> 'm merged option) \<times> 32 word list \<times> bool"

type_synonym 'm fields = "32 word \<Rightarrow> 'm field option"

fun expect_tags ::
  "WireFormatLite \<Rightarrow> 32 word list \<Rightarrow> CodedInputStream \<Rightarrow> 32 word option \<times> CodedInputStream" where
  "expect_tags lib [] inp = (None, inp)"
| "expect_tags lib (t # ts) inp =
     (case ExpectTag lib t inp of
        (True, in1) \<Rightarrow> (Some t, in1)
      | (False, in1) \<Rightarrow> expect_tags lib ts in1)"

text \<open>
  The loop. \<open>target\<close> is the label of a \<open>goto\<close>: \<open>None\<close> for the top of the loop, \<open>Some tag\<close> for the
  read of the field with this tag. The \<open>switch\<close> on the field number and the comparison with the
  whole tag inside each case are one comparison; wire type 4 is \<open>WIRETYPE_END_GROUP\<close>.
\<close>

partial_function (option) merge_loop ::
  "WireFormatLite \<Rightarrow> 'm fields \<Rightarrow> 32 word option \<Rightarrow> 'm \<Rightarrow> CodedInputStream \<Rightarrow> 'm merged option"
where
  "merge_loop lib table target m inp =
     (case (case target of Some t \<Rightarrow> (t, True, inp) | None \<Rightarrow> ReadTagWithCutoff lib 127 inp) of
        (tag, within, in1) \<Rightarrow> (case (if within then table tag else None) of
           None \<Rightarrow>
             if tag = 0 \<or> take_bit 3 tag = 4 then Some (m, Some in1)
             else (case SkipField lib tag in1 of
                     None \<Rightarrow> Some (m, None)
                   | Some in2 \<Rightarrow> merge_loop lib table None m in2)
         | Some (read, expected, at_end) \<Rightarrow>
             (case read m in1 of
                None \<Rightarrow> None
              | Some (m1, None) \<Rightarrow> Some (m1, None)
              | Some (m1, Some in2) \<Rightarrow>
                  (case expect_tags lib expected in2 of
                     (Some t, in3) \<Rightarrow> merge_loop lib table (Some t) m1 in3
                   | (None, in3) \<Rightarrow>
                       if \<not> at_end then merge_loop lib table None m1 in3
                       else (case ExpectAtEnd lib in3 of
                               (ended, in4) \<Rightarrow>
                                 if ended then Some (m1, Some in4)
                                 else merge_loop lib table None m1 in4)))))"

text \<open>
  The kinds of fields: a string (\<open>old\<close> is what \<open>ReadString\<close> finds in the string it fills), a
  number, a sub-message.
\<close>

definition field_string ::
  "WireFormatLite \<Rightarrow> ('m \<Rightarrow> string) \<Rightarrow> (string \<Rightarrow> 'm \<Rightarrow> 'm) \<Rightarrow> 'm \<Rightarrow> CodedInputStream
    \<Rightarrow> 'm merged option" where
  "field_string lib old put m inp =
     (case ReadString lib inp (old m) of
        (s, None) \<Rightarrow> Some (put s m, None)
      | (s, Some in1) \<Rightarrow> Some (put s m, if VerifyUtf8String lib s then Some in1 else None))"

definition field_value ::
  "(CodedInputStream \<Rightarrow> ('v \<times> CodedInputStream) option) \<Rightarrow> ('v \<Rightarrow> 'm \<Rightarrow> 'm) \<Rightarrow> 'm
    \<Rightarrow> CodedInputStream \<Rightarrow> 'm merged option" where
  "field_value read put m inp =
     (case read inp of None \<Rightarrow> Some (m, None) | Some (v, in1) \<Rightarrow> Some (put v m, Some in1))"

definition field_message ::
  "WireFormatLite \<Rightarrow> ('s \<Rightarrow> CodedInputStream \<Rightarrow> 's merged option) \<Rightarrow> ('m \<Rightarrow> 's) \<Rightarrow> ('s \<Rightarrow> 'm \<Rightarrow> 'm)
    \<Rightarrow> 'm \<Rightarrow> CodedInputStream \<Rightarrow> 'm merged option" where
  "field_message lib merge sub put m inp =
     map_option (\<lambda>(s, r). (put s m, r)) (ReadMessageNoVirtual lib merge (sub m) inp)"

text \<open>
  \<open>ParseFromString\<close> clears the message, merges, and asks \<open>ConsumedEntireMessage\<close>;
  \<open>SerializeAsString\<close> writes into as many bytes as \<open>ByteSizeLong\<close> announced, and answers
  the empty string for a message over \<open>INT_MAX\<close>.
\<close>

definition parse_from_string ::
  "('m \<Rightarrow> CodedInputStream \<Rightarrow> 'm merged option) \<Rightarrow> 'm \<Rightarrow> string \<Rightarrow> (bool \<times> 'm) option" where
  "parse_from_string merge cleared raw =
     map_option (\<lambda>(m, r). (case r of None \<Rightarrow> False | Some in1 \<Rightarrow> legitimate_message_end in1, m))
       (merge cleared \<lparr>unread = raw, legitimate_message_end = False\<rparr>)"

definition size_limit :: nat where
  "size_limit = 2 ^ 31"

definition serialize_as_string :: "nat \<Rightarrow> string \<Rightarrow> string" where
  "serialize_as_string byte_size bytes = (if byte_size \<ge> size_limit then [] else bytes)"

section \<open>What the library promises\<close>

text \<open>
  Reading makes progress and ends: a tag takes at least a byte, no read gives bytes back, an
  empty stream answers tag 0 and a legitimate end. \<open>ExpectTag\<close> and \<open>ExpectAtEnd\<close> are shortcuts
  for reading that tag and for reading tag 0 at the end.
\<close>

definition stream_laws :: "WireFormatLite \<Rightarrow> bool" where
  "stream_laws lib \<longleftrightarrow>
     (\<forall>e. \<exists>w. ReadTagWithCutoff lib 127 \<lparr>unread = [], legitimate_message_end = e\<rparr> =
        (0, w, \<lparr>unread = [], legitimate_message_end = True\<rparr>)) \<and>
     (\<forall>inp tag w in1. ReadTagWithCutoff lib 127 inp = (tag, w, in1) \<longrightarrow>
        length (unread in1) + (if tag = 0 then 0 else 1) \<le> length (unread inp)) \<and>
     (\<forall>t inp in1. ExpectTag lib t inp = (True, in1) \<longrightarrow> t \<noteq> 0 \<longrightarrow> t \<le> 127 \<longrightarrow>
        ReadTagWithCutoff lib 127 inp = (t, True, in1)) \<and>
     (\<forall>t inp in1. ExpectTag lib t inp = (False, in1) \<longrightarrow> in1 = inp) \<and>
     (\<forall>inp in1. ExpectAtEnd lib inp = (True, in1) \<longrightarrow>
        unread inp = [] \<and> in1 = inp\<lparr>legitimate_message_end := True\<rparr>) \<and>
     (\<forall>inp in1. ExpectAtEnd lib inp = (False, in1) \<longrightarrow> in1 = inp)"

definition shrinks :: "(CodedInputStream \<Rightarrow> ('v \<times> CodedInputStream) option) \<Rightarrow> bool" where
  "shrinks read \<longleftrightarrow> (\<forall>inp v in1. read inp = Some (v, in1) \<longrightarrow>
     length (unread in1) \<le> length (unread inp))"

definition read_laws :: "WireFormatLite \<Rightarrow> bool" where
  "read_laws lib \<longleftrightarrow>
     (\<forall>tag inp in1. SkipField lib tag inp = Some in1 \<longrightarrow> length (unread in1) \<le> length (unread inp)) \<and>
     (\<forall>inp old s in1. ReadString lib inp old = (s, Some in1) \<longrightarrow>
        length (unread in1) \<le> length (unread inp)) \<and>
     (\<forall>inp inside after. PushLengthLimit lib inp = Some (inside, after) \<longrightarrow>
        length inside + length after \<le> length (unread inp)) \<and>
     shrinks (ReadInt32 lib) \<and> shrinks (ReadInt64 lib) \<and> shrinks (ReadEnum lib) \<and>
     shrinks (ReadBool lib)"

text \<open>
  What one call writes the matching one reads: \<open>field_read\<close> is a field with a tag below the
  cutoff, followed by anything.
\<close>

definition field_read ::
  "WireFormatLite \<Rightarrow> (CodedInputStream \<Rightarrow> ('v \<times> CodedInputStream) option) \<Rightarrow> (nat \<Rightarrow> 'v \<Rightarrow> string)
    \<Rightarrow> bool" where
  "field_read lib read write \<longleftrightarrow>
     (\<forall>n v rest e. 0 < n \<longrightarrow> n < 16 \<longrightarrow>
        (\<exists>in1. ReadTagWithCutoff lib 127
             \<lparr>unread = write n v @ rest, legitimate_message_end = e\<rparr> = (word_of_nat (8 * n), True, in1) \<and>
           read in1 = Some (v, \<lparr>unread = rest, legitimate_message_end = e\<rparr>)))"

definition ascii :: "string \<Rightarrow> bool" where
  "ascii s \<longleftrightarrow> list_all (\<lambda>c. (of_char c :: nat) < 128) s"

definition write_laws :: "WireFormatLite \<Rightarrow> bool" where
  "write_laws lib \<longleftrightarrow>
     (\<forall>n p rest e. 0 < n \<longrightarrow> n < 16 \<longrightarrow> length p < size_limit \<longrightarrow>
        (\<exists>in1. ReadTagWithCutoff lib 127
             \<lparr>unread = LengthPrefix lib n (length p) @ p @ rest, legitimate_message_end = e\<rparr> =
             (word_of_nat (8 * n + 2), True, in1) \<and> legitimate_message_end in1 = e \<and>
           (\<forall>old. ReadString lib in1 old = (p, Some \<lparr>unread = rest, legitimate_message_end = e\<rparr>)) \<and>
           PushLengthLimit lib in1 = Some (p, rest))) \<and>
     field_read lib (ReadInt32 lib) (WriteInt32ToArray lib) \<and>
     field_read lib (ReadInt64 lib) (WriteInt64ToArray lib) \<and>
     field_read lib (ReadEnum lib) (WriteEnumToArray lib) \<and>
     field_read lib (ReadBool lib) (WriteBoolToArray lib) \<and>
     (\<forall>s. ascii s \<longrightarrow> VerifyUtf8String lib s)"

text \<open>The sizes are those of the bytes, and a varint has at most ten.\<close>

definition size_laws :: "WireFormatLite \<Rightarrow> bool" where
  "size_laws lib \<longleftrightarrow>
     (\<forall>n k. 0 < n \<longrightarrow> n < 16 \<longrightarrow> k < size_limit \<longrightarrow> length (LengthPrefix lib n k) = 1 + VarintSize32 lib k) \<and>
     (\<forall>n v. 0 < n \<longrightarrow> n < 16 \<longrightarrow> length (WriteInt32ToArray lib n v) = 1 + Int32Size lib v) \<and>
     (\<forall>n v. 0 < n \<longrightarrow> n < 16 \<longrightarrow> length (WriteInt64ToArray lib n v) = 1 + Int64Size lib v) \<and>
     (\<forall>n v. 0 < n \<longrightarrow> n < 16 \<longrightarrow> length (WriteEnumToArray lib n v) = 1 + EnumSize lib v) \<and>
     (\<forall>n v. 0 < n \<longrightarrow> n < 16 \<longrightarrow> length (WriteBoolToArray lib n v) = 1 + 1) \<and>
     (\<forall>k. VarintSize32 lib k \<le> 10) \<and> (\<forall>v. Int32Size lib v \<le> 10) \<and>
     (\<forall>v. Int64Size lib v \<le> 10) \<and> (\<forall>v. EnumSize lib v \<le> 10)"

definition wire_laws :: "WireFormatLite \<Rightarrow> bool" where
  "wire_laws lib \<longleftrightarrow> stream_laws lib \<and> read_laws lib \<and> write_laws lib \<and> size_laws lib"


section \<open>The shortcuts save a turn of the loop\<close>

text \<open>A table knows no tag 0, and the shortcuts of its fields are for tags below the cutoff.\<close>

definition table_ok :: "'m fields \<Rightarrow> bool" where
  "table_ok table \<longleftrightarrow> table 0 = None \<and>
     (\<forall>tag read ts e. table tag = Some (read, ts, e) \<longrightarrow> (\<forall>t\<in>set ts. t \<noteq> 0 \<and> t \<le> 127))"

lemma stream_lawsD:
  assumes "stream_laws lib"
  shows "\<exists>w. ReadTagWithCutoff lib 127 \<lparr>unread = [], legitimate_message_end = e\<rparr> =
      (0, w, \<lparr>unread = [], legitimate_message_end = True\<rparr>)"
    and "ReadTagWithCutoff lib 127 inp = (tag, w, in1) \<Longrightarrow>
      length (unread in1) + (if tag = 0 then 0 else 1) \<le> length (unread inp)"
    and "ExpectTag lib t inp = (True, in1) \<Longrightarrow> t \<noteq> 0 \<Longrightarrow> t \<le> 127 \<Longrightarrow>
      ReadTagWithCutoff lib 127 inp = (t, True, in1)"
    and "ExpectTag lib t inp = (False, in1) \<Longrightarrow> in1 = inp"
    and "ExpectAtEnd lib inp = (True, in1) \<Longrightarrow>
      unread inp = [] \<and> in1 = inp\<lparr>legitimate_message_end := True\<rparr>"
    and "ExpectAtEnd lib inp = (False, in1) \<Longrightarrow> in1 = inp"
  using assms unfolding stream_laws_def by blast+

lemma merge_loop_at_end:
  assumes "stream_laws lib" and "table_ok table"
  shows "merge_loop lib table None m \<lparr>unread = [], legitimate_message_end = e\<rparr> =
    Some (m, Some \<lparr>unread = [], legitimate_message_end = True\<rparr>)"
proof -
  obtain w where "ReadTagWithCutoff lib 127 \<lparr>unread = [], legitimate_message_end = e\<rparr> =
      (0, w, \<lparr>unread = [], legitimate_message_end = True\<rparr>)"
    using stream_lawsD(1) [OF assms(1)] by blast
  with assms(2) show ?thesis by (simp add: merge_loop.simps [of lib table None] table_ok_def)
qed

lemma expect_tags_None:
  assumes "stream_laws lib"
  shows "expect_tags lib ts inp = (None, in1) \<Longrightarrow> in1 = inp"
  by (induction ts) (auto split: prod.splits bool.splits dest: stream_lawsD(4) [OF assms])

lemma expect_tags_Some:
  assumes "stream_laws lib" and "\<forall>t\<in>set ts. t \<noteq> 0 \<and> t \<le> 127"
  shows "expect_tags lib ts inp = (Some t, in1) \<Longrightarrow> ReadTagWithCutoff lib 127 inp = (t, True, in1)"
  using assms(2)
  by (induction ts) (auto split: prod.splits bool.splits
      dest: stream_lawsD(4) [OF assms(1)] stream_lawsD(3) [OF assms(1)])

lemma goto_is_a_read:
  "ReadTagWithCutoff lib 127 inp = (t, True, in1) \<Longrightarrow>
   merge_loop lib table (Some t) m in1 = merge_loop lib table None m inp"
  by (subst (1 2) merge_loop.simps) simp

text \<open>So the loop may be read without them.\<close>

definition plain_turn :: "WireFormatLite \<Rightarrow> 'm fields \<Rightarrow> ('m \<Rightarrow> CodedInputStream \<Rightarrow> 'm merged option)
    \<Rightarrow> 'm \<Rightarrow> CodedInputStream \<Rightarrow> 'm merged option" where
  "plain_turn lib table next_turn m inp =
     (case ReadTagWithCutoff lib 127 inp of
        (tag, within, in1) \<Rightarrow>
          (case (if within then table tag else None) of
             None \<Rightarrow>
               if tag = 0 \<or> take_bit 3 tag = 4 then Some (m, Some in1)
               else (case SkipField lib tag in1 of
                       None \<Rightarrow> Some (m, None)
                     | Some in2 \<Rightarrow> next_turn m in2)
           | Some (read, _, _) \<Rightarrow>
               (case read m in1 of
                  None \<Rightarrow> None
                | Some (m1, None) \<Rightarrow> Some (m1, None)
                | Some (m1, Some in2) \<Rightarrow> next_turn m1 in2)))"

lemma after_field:
  assumes laws: "stream_laws lib" and ok: "table_ok table" and ts: "\<forall>t\<in>set ts. t \<noteq> 0 \<and> t \<le> 127"
  shows "(case expect_tags lib ts inp of
      (Some t, in3) \<Rightarrow> merge_loop lib table (Some t) m in3
    | (None, in3) \<Rightarrow>
        if \<not> e then merge_loop lib table None m in3
        else (case ExpectAtEnd lib in3 of
                (ended, in4) \<Rightarrow> if ended then Some (m, Some in4) else merge_loop lib table None m in4)) =
    merge_loop lib table None m inp"
proof (cases "expect_tags lib ts inp")
  case (Pair target in3)
  show ?thesis
  proof (cases target)
    case None
    then have "in3 = inp" using expect_tags_None [OF laws] Pair by blast
    moreover obtain ended in4 where x: "ExpectAtEnd lib inp = (ended, in4)" by fastforce
    moreover have "(if ended then Some (m, Some in4) else merge_loop lib table None m in4) =
        merge_loop lib table None m inp"
    proof (cases ended)
      case True
      with x have "ExpectAtEnd lib inp = (True, in4)" by simp
      from stream_lawsD(5) [OF laws this] True show ?thesis using merge_loop_at_end [OF laws ok] by (cases inp) simp
    next
      case False
      with x have "ExpectAtEnd lib inp = (False, in4)" by simp
      from stream_lawsD(6) [OF laws this] False show ?thesis by simp
    qed
    ultimately show ?thesis using Pair None by simp
  next
    case (Some t)
    then show ?thesis using Pair goto_is_a_read expect_tags_Some [OF laws ts] by fastforce
  qed
qed

lemma merge_loop_turn:
  assumes laws: "stream_laws lib" and ok: "table_ok table"
  shows "merge_loop lib table None m inp = plain_turn lib table (merge_loop lib table None) m inp"
proof -
  obtain tag within in1 where t: "ReadTagWithCutoff lib 127 inp = (tag, within, in1)"
    using prod_cases3 by blast
  have *: "\<forall>t\<in>set ts. t \<noteq> 0 \<and> t \<le> 127"
    if "(if within then table tag else None) = Some (read, ts, e)" for read ts e
    using that ok by (auto simp: table_ok_def split: if_splits)
  show ?thesis
    unfolding plain_turn_def t
    by (subst merge_loop.simps) (auto simp: t after_field [OF laws ok *] split: option.splits)
qed


section \<open>Every parse returns\<close>

definition returns :: "('m \<Rightarrow> CodedInputStream \<Rightarrow> 'm merged option) \<Rightarrow> bool" where
  "returns merge \<longleftrightarrow> (\<forall>m inp. \<exists>m1 r. merge m inp = Some (m1, r) \<and>
     (\<forall>in1. r = Some in1 \<longrightarrow> length (unread in1) \<le> length (unread inp)))"

definition fields_return :: "'m fields \<Rightarrow> bool" where
  "fields_return table \<longleftrightarrow> (\<forall>tag read ts e. table tag = Some (read, ts, e) \<longrightarrow> returns read)"

lemma returnsD:
  assumes "returns merge"
  obtains m1 r where "merge m inp = Some (m1, r)"
    and "\<forall>in1. r = Some in1 \<longrightarrow> length (unread in1) \<le> length (unread inp)"
  using assms unfolding returns_def by metis

lemma read_lawsD:
  assumes "read_laws lib"
  shows "SkipField lib tag inp = Some in1 \<Longrightarrow> length (unread in1) \<le> length (unread inp)"
    and "ReadString lib inp old = (s, Some in1) \<Longrightarrow> length (unread in1) \<le> length (unread inp)"
    and "PushLengthLimit lib inp = Some (inside, after) \<Longrightarrow>
      length inside + length after \<le> length (unread inp)"
    and "shrinks (ReadInt32 lib)" "shrinks (ReadInt64 lib)" "shrinks (ReadEnum lib)"
      "shrinks (ReadBool lib)"
  using assms unfolding read_laws_def by blast+

lemma field_string_returns: "read_laws lib \<Longrightarrow> returns (field_string lib old put)"
  by (auto simp: returns_def field_string_def split: prod.splits option.splits dest: read_lawsD(2))

lemma field_value_returns: "shrinks read \<Longrightarrow> returns (field_value read put)"
  by (auto simp: returns_def field_value_def shrinks_def split: prod.splits option.splits)

lemma field_message_returns:
  assumes laws: "read_laws lib" and merge: "returns merge"
  shows "returns (field_message lib merge sub put)"
  unfolding returns_def
proof (intro allI)
  fix m inp
  show "\<exists>m1 r. field_message lib merge sub put m inp = Some (m1, r) \<and>
    (\<forall>in1. r = Some in1 \<longrightarrow> length (unread in1) \<le> length (unread inp))"
  proof (cases "PushLengthLimit lib inp")
    case None
    then show ?thesis by (simp add: field_message_def ReadMessageNoVirtual_def)
  next
    case (Some window)
    then obtain inside after where w: "PushLengthLimit lib inp = Some (inside, after)"
      by (cases window) simp
    obtain s r where "merge (sub m) (inp\<lparr>unread := inside\<rparr>) = Some (s, r)"
      using returnsD [OF merge] by blast
    with w read_lawsD(3) [OF laws w] show ?thesis
      by (cases r) (auto simp: field_message_def ReadMessageNoVirtual_def)
  qed
qed

lemma merge_loop_returns:
  assumes laws: "stream_laws lib" "read_laws lib" and ok: "table_ok table" "fields_return table"
  shows "returns (merge_loop lib table None)"
proof -
  have "\<exists>m1 r. merge_loop lib table None m inp = Some (m1, r) \<and>
      (\<forall>in1. r = Some in1 \<longrightarrow> length (unread in1) \<le> length (unread inp))" for m inp
  proof (induction "length (unread inp)" arbitrary: m inp rule: less_induct)
    case less
    let ?rec = "merge_loop lib table None"
    have again: "\<exists>m1 r. ?rec m' in2 = Some (m1, r) \<and>
        (\<forall>in1. r = Some in1 \<longrightarrow> length (unread in1) \<le> length (unread inp))"
      if "length (unread in2) < length (unread inp)" for m' in2
      using less [OF that, of m'] that by (meson le_trans less_imp_le)
    obtain tag within in1 where t: "ReadTagWithCutoff lib 127 inp = (tag, within, in1)"
      using prod_cases3 by blast
    from stream_lawsD(2) [OF laws(1) t] have le: "length (unread in1) \<le> length (unread inp)"
      and lt: "tag \<noteq> 0 \<Longrightarrow> length (unread in1) < length (unread inp)"
      by (auto split: if_splits)
    have turn: "?rec m inp = plain_turn lib table ?rec m inp"
      by (rule merge_loop_turn [OF laws(1) ok(1)])
    show ?case
    proof (cases "if within then table tag else None")
      case None
      show ?thesis
      proof (cases "tag = 0 \<or> take_bit 3 tag = 4")
        case True
        with None le show ?thesis unfolding turn plain_turn_def t by simp
      next
        case False
        show ?thesis
        proof (cases "SkipField lib tag in1")
          case skip: None
          with None False show ?thesis unfolding turn plain_turn_def t by simp
        next
          case skip: (Some in2)
          with lt False have "length (unread in2) < length (unread inp)"
            using read_lawsD(1) [OF laws(2) skip] by simp
          from again [OF this, of m] None False skip show ?thesis
            unfolding turn plain_turn_def t by simp
        qed
      qed
    next
      case (Some f)
      obtain read ts e where f: "f = (read, ts, e)" using prod_cases3 by blast
      from Some f ok have tag: "tag \<noteq> 0" and read: "returns read"
        by (auto simp: fields_return_def table_ok_def split: if_splits)
      obtain m1 r where r: "read m in1 = Some (m1, r)"
        "\<forall>in2. r = Some in2 \<longrightarrow> length (unread in2) \<le> length (unread in1)"
        using returnsD [OF read, of m in1] by blast
      show ?thesis
      proof (cases r)
        case None
        with Some f r show ?thesis unfolding turn plain_turn_def t by simp
      next
        case in2: (Some in2)
        with r(2) lt [OF tag] have "length (unread in2) < length (unread inp)" by fastforce
        from again [OF this, of m1] Some f r(1) in2 show ?thesis
          unfolding turn plain_turn_def t by simp
      qed
    qed
  qed
  then show ?thesis by (simp add: returns_def)
qed


text \<open>The parser without its shortcuts is the reference, and they are the same parser.\<close>

definition without_shortcuts :: "'m fields \<Rightarrow> 'm fields" where
  "without_shortcuts table tag = map_option (\<lambda>(read, _, _). (read, [], False)) (table tag)"

lemma table_ok_without_shortcuts: "table_ok table \<Longrightarrow> table_ok (without_shortcuts table)"
  by (auto simp: table_ok_def without_shortcuts_def)

lemma plain_turn_cong:
  assumes laws: "stream_laws lib" "read_laws lib" and ok: "table_ok table" "fields_return table"
    and next_turn: "\<And>m' in2. length (unread in2) < length (unread inp) \<Longrightarrow> f m' in2 = g m' in2"
  shows "plain_turn lib table f m inp = plain_turn lib (without_shortcuts table) g m inp"
proof -
  obtain tag within in1 where t: "ReadTagWithCutoff lib 127 inp = (tag, within, in1)"
    using prod_cases3 by blast
  from stream_lawsD(2) [OF laws(1) t]
  have lt: "tag \<noteq> 0 \<Longrightarrow> length (unread in1) < length (unread inp)" by (auto split: if_splits)
  show ?thesis
  proof (cases "if within then table tag else None")
    case None
    then have "(if within then without_shortcuts table tag else None) = None"
      by (auto simp: without_shortcuts_def)
    moreover have "f m in2 = g m in2" if "tag \<noteq> 0" "SkipField lib tag in1 = Some in2" for in2
      using next_turn lt [OF that(1)] read_lawsD(1) [OF laws(2) that(2)] le_less_trans by blast
    ultimately show ?thesis using None by (simp add: plain_turn_def t split: option.split)
  next
    case (Some h)
    obtain read ts e where h: "h = (read, ts, e)" using prod_cases3 by blast
    from Some h ok have tag: "tag \<noteq> 0" and read: "returns read"
      by (auto simp: fields_return_def table_ok_def split: if_splits)
    have "(if within then without_shortcuts table tag else None) = Some (read, [], False)"
      using Some h by (auto simp: without_shortcuts_def split: if_splits)
    moreover obtain m1 r where r: "read m in1 = Some (m1, r)"
      "\<forall>in2. r = Some in2 \<longrightarrow> length (unread in2) \<le> length (unread in1)"
      using returnsD [OF read, of m in1] by blast
    moreover have "f m1 in2 = g m1 in2" if "r = Some in2" for in2
      using next_turn lt [OF tag] r(2) that le_less_trans by blast
    ultimately show ?thesis using Some h by (cases r) (simp_all add: plain_turn_def t)
  qed
qed

lemma shortcuts_change_nothing:
  assumes laws: "stream_laws lib" "read_laws lib" and ok: "table_ok table" "fields_return table"
  shows "merge_loop lib table None m inp = merge_loop lib (without_shortcuts table) None m inp"
proof (induction "length (unread inp)" arbitrary: m inp rule: less_induct)
  case less
  have "plain_turn lib table (merge_loop lib table None) m inp =
    plain_turn lib (without_shortcuts table) (merge_loop lib (without_shortcuts table) None) m inp"
    using less by (rule plain_turn_cong [OF laws ok])
  then show ?case
    unfolding merge_loop_turn [OF laws(1) ok(1), of m inp]
      merge_loop_turn [OF laws(1) table_ok_without_shortcuts [OF ok(1)], of m inp] .
qed

section \<open>Reading what was written\<close>

abbreviation stream :: "string \<Rightarrow> CodedInputStream" where
  "stream raw \<equiv> \<lparr>unread = raw, legitimate_message_end = False\<rparr>"

abbreviation at_end :: CodedInputStream where
  "at_end \<equiv> \<lparr>unread = [], legitimate_message_end = True\<rparr>"

lemma wire_lawsD:
  assumes "wire_laws lib"
  shows "stream_laws lib" "read_laws lib"
    and "0 < n \<Longrightarrow> n < 16 \<Longrightarrow> length p < size_limit \<Longrightarrow>
      \<exists>in1. ReadTagWithCutoff lib 127 (stream (LengthPrefix lib n (length p) @ p @ rest)) =
          (word_of_nat (8 * n + 2), True, in1) \<and> legitimate_message_end in1 = False \<and>
        (\<forall>old. ReadString lib in1 old = (p, Some (stream rest))) \<and>
        PushLengthLimit lib in1 = Some (p, rest)"
    and "field_read lib (ReadInt32 lib) (WriteInt32ToArray lib)"
      "field_read lib (ReadInt64 lib) (WriteInt64ToArray lib)"
      "field_read lib (ReadEnum lib) (WriteEnumToArray lib)"
      "field_read lib (ReadBool lib) (WriteBoolToArray lib)"
    and "ascii s \<Longrightarrow> VerifyUtf8String lib s"
  using assms unfolding wire_laws_def write_laws_def by blast+

lemma wire_sizes:
  assumes "wire_laws lib" and "0 < n" and "n < 16"
  shows "k < size_limit \<Longrightarrow> length (LengthPrefix lib n k) = 1 + VarintSize32 lib k"
    "length (WriteInt32ToArray lib n v) = 1 + Int32Size lib v"
    "length (WriteInt64ToArray lib n l) = 1 + Int64Size lib l"
    "length (WriteEnumToArray lib n v) = 1 + EnumSize lib v"
    "length (WriteBoolToArray lib n b) = 1 + 1"
  using assms by (simp_all add: wire_laws_def size_laws_def)

lemma sizes_bound_length:
  "StringSize lib s < k \<Longrightarrow> length s < k" "MessageSizeNoVirtual lib n < k \<Longrightarrow> n < k"
  by (simp_all add: StringSize_def MessageSizeNoVirtual_def)

lemma length_WriteStringToArray:
  "wire_laws lib \<Longrightarrow> 0 < n \<Longrightarrow> n < 16 \<Longrightarrow> StringSize lib s < size_limit \<Longrightarrow>
   length (WriteStringToArray lib n s) = Suc (StringSize lib s)"
  by (simp add: WriteStringToArray_def StringSize_def wire_sizes)

lemma varint_sizes:
  assumes "wire_laws lib"
  shows "VarintSize32 lib k \<le> 10" "Int32Size lib v \<le> 10" "Int64Size lib l \<le> 10" "EnumSize lib v \<le> 10"
  using assms by (simp_all add: wire_laws_def size_laws_def)

lemma prefixed_sizes:
  assumes "wire_laws lib"
  shows "StringSize lib s \<le> 10 + length s" "MessageSizeNoVirtual lib n \<le> 10 + n"
  using varint_sizes(1) [OF assms] by (simp_all add: StringSize_def MessageSizeNoVirtual_def)

lemma strings_size:
  assumes "wire_laws lib"
  shows "length ss + sum_list (map (StringSize lib) ss) \<le> sum_list (map (\<lambda>s. 11 + length s) ss)"
proof (induction ss)
  case (Cons s ss)
  then show ?case using prefixed_sizes(1) [OF assms, of s] by simp
qed simp

lemmas written_sizes = length_WriteStringToArray wire_sizes(2-5)

lemma merge_loop_read:
  assumes "stream_laws lib" and "table_ok table"
    and "ReadTagWithCutoff lib 127 inp = (tag, True, in1)"
    and "table tag = Some (read, ts, e)" and "read m in1 = Some (m1, Some in2)"
  shows "merge_loop lib table None m inp = merge_loop lib table None m1 in2"
  unfolding merge_loop_turn [OF assms(1,2), of m inp] plain_turn_def
  using assms(3-5) by simp

text \<open>A field written in front of the rest of the message is merged first.\<close>

lemma merge_value:
  assumes laws: "wire_laws lib" and ok: "table_ok table" and read: "field_read lib read write"
    and n: "0 < n" "n < 16" and tag: "table (word_of_nat (8 * n)) = Some (field_value read put, ts, e)"
  shows "merge_loop lib table None m (stream (write n v @ rest)) =
    merge_loop lib table None (put v m) (stream rest)"
proof -
  obtain in1 where "ReadTagWithCutoff lib 127 (stream (write n v @ rest)) = (word_of_nat (8 * n), True, in1)"
    "read in1 = Some (v, stream rest)"
    using read n unfolding field_read_def by blast
  from merge_loop_read [OF wire_lawsD(1) [OF laws] ok this(1) tag] this(2)
  show ?thesis by (simp add: field_value_def)
qed

lemma merge_string:
  assumes laws: "wire_laws lib" and ok: "table_ok table" and s: "ascii s" "StringSize lib s < size_limit"
    and n: "0 < n" "n < 16"
    and tag: "table (word_of_nat (8 * n + 2)) = Some (field_string lib old put, ts, e)"
  shows "merge_loop lib table None m (stream (WriteStringToArray lib n s @ rest)) =
    merge_loop lib table None (put s m) (stream rest)"
proof -
  obtain in1 where "ReadTagWithCutoff lib 127 (stream (WriteStringToArray lib n s @ rest)) =
      (word_of_nat (8 * n + 2), True, in1)"
    "\<forall>old. ReadString lib in1 old = (s, Some (stream rest))"
    using wire_lawsD(3) [OF laws n sizes_bound_length(1) [OF s(2)]] unfolding WriteStringToArray_def append_assoc by blast
  from merge_loop_read [OF wire_lawsD(1) [OF laws] ok this(1) tag] this(2) wire_lawsD(8) [OF laws s(1)]
  show ?thesis by (simp add: field_string_def)
qed

text \<open>Text that is not UTF-8 was written all the same, and stops the parser.\<close>

lemma merge_loop_refused:
  assumes "stream_laws lib" and "table_ok table"
    and "ReadTagWithCutoff lib 127 inp = (tag, True, in1)"
    and "table tag = Some (read, ts, e)" and "read m in1 = Some (m1, None)"
  shows "merge_loop lib table None m inp = Some (m1, None)"
  unfolding merge_loop_turn [OF assms(1,2), of m inp] plain_turn_def
  using assms(3-5) by simp

lemma merge_string_refused:
  assumes laws: "wire_laws lib" and ok: "table_ok table" and s: "\<not> VerifyUtf8String lib s"
    and size: "StringSize lib s < size_limit" and n: "0 < n" "n < 16"
    and tag: "table (word_of_nat (8 * n + 2)) = Some (field_string lib old put, ts, e)"
  shows "merge_loop lib table None m (stream (WriteStringToArray lib n s @ rest)) = Some (put s m, None)"
proof -
  obtain in1 where "ReadTagWithCutoff lib 127 (stream (WriteStringToArray lib n s @ rest)) =
      (word_of_nat (8 * n + 2), True, in1)"
    "\<forall>old. ReadString lib in1 old = (s, Some (stream rest))"
    using wire_lawsD(3) [OF laws n sizes_bound_length(1) [OF size]]
    unfolding WriteStringToArray_def append_assoc by blast
  from merge_loop_refused [OF wire_lawsD(1) [OF laws] ok this(1) tag] this(2) s
  show ?thesis by (simp add: field_string_def)
qed

text \<open>A field left out because it has its default value leaves the message alone.\<close>

lemma merge_optional:
  assumes "b \<Longrightarrow> merge_loop lib table None m (stream (w @ rest)) = merge_loop lib table None m1 (stream rest)"
  shows "merge_loop lib table None m (stream ((if b then w else []) @ rest)) =
    merge_loop lib table None (if b then m1 else m) (stream rest)"
  using assms by simp

lemma merge_strings:
  assumes laws: "wire_laws lib" and ok: "table_ok table" and n: "0 < n" "n < 16"
    and tag: "table (word_of_nat (8 * n + 2)) = Some (field_string lib old put, ts, e)"
  shows "\<forall>s\<in>set ss. ascii s \<and> StringSize lib s < size_limit \<Longrightarrow>
    merge_loop lib table None m (stream (concat (map (WriteStringToArray lib n) ss) @ rest)) =
    merge_loop lib table None (fold put ss m) (stream rest)"
  by (induction ss arbitrary: m) (simp_all add: merge_string [OF laws ok _ _ n tag])

lemma length_strings:
  assumes "wire_laws lib" and "0 < n" and "n < 16"
  shows "length ss + sum_list (map (StringSize lib) ss) < size_limit \<Longrightarrow>
    length (concat (map (WriteStringToArray lib n) ss)) = length ss + sum_list (map (StringSize lib) ss)"
  by (induction ss) (simp_all add: length_WriteStringToArray assms)

lemma sizes_of_strings:
  "length ss + sum_list (map (StringSize lib) ss) < k \<Longrightarrow> s \<in> set ss \<Longrightarrow> StringSize lib s < k"
  using member_le_sum_list [of "StringSize lib s" "map (StringSize lib) ss"] by simp

section \<open>What a generated class provides\<close>

text \<open>
  The interface of a message class: a cleared object, its parser, its serializer and the size it
  announces; \<open>plain\<close> says which messages come back as they were. \<open>returns\<close> is the progress of
  the parser on any input, \<open>size\<close> that the serializer fills the announced bytes exactly.
\<close>

locale wire_message =
  fixes cleared :: 'm
    and merge :: "WireFormatLite \<Rightarrow> 'm \<Rightarrow> CodedInputStream \<Rightarrow> 'm merged option"
    and write_array :: "WireFormatLite \<Rightarrow> 'm \<Rightarrow> string"
    and byte_size :: "WireFormatLite \<Rightarrow> 'm \<Rightarrow> nat"
    and plain :: "'m \<Rightarrow> bool"
  assumes merge_returns: "stream_laws lib \<Longrightarrow> read_laws lib \<Longrightarrow> returns (merge lib)"
    and size: "wire_laws lib \<Longrightarrow> byte_size lib m < size_limit \<Longrightarrow>
      length (write_array lib m) = byte_size lib m"
    and merge_write: "wire_laws lib \<Longrightarrow> plain m \<Longrightarrow> byte_size lib m < size_limit \<Longrightarrow>
      merge lib cleared (stream (write_array lib m)) = Some (m, Some at_end)"
begin

lemma parse_returns:
  assumes "stream_laws lib" and "read_laws lib"
  shows "\<exists>ok m. parse_from_string (merge lib) cleared raw = Some (ok, m)"
proof -
  obtain m1 r where "merge lib cleared (stream raw) = Some (m1, r)"
    using returnsD [OF merge_returns [OF assms], of cleared "stream raw"] by blast
  then show ?thesis by (simp add: parse_from_string_def)
qed

lemma parse_serialize:
  assumes "wire_laws lib" and "plain m" and "byte_size lib m < size_limit"
  shows "parse_from_string (merge lib) cleared
    (serialize_as_string (byte_size lib m) (write_array lib m)) = Some (True, m)"
  using assms by (simp add: parse_from_string_def serialize_as_string_def merge_write)

lemma serialized_size:
  "wire_laws lib \<Longrightarrow> byte_size lib m < size_limit \<Longrightarrow>
   length (serialize_as_string (byte_size lib m) (write_array lib m)) = byte_size lib m"
  by (simp add: serialize_as_string_def size)

lemma length_message:
  "wire_laws lib \<Longrightarrow> 0 < n \<Longrightarrow> n < 16 \<Longrightarrow> MessageSizeNoVirtual lib (byte_size lib m) < size_limit \<Longrightarrow>
   length (WriteMessageToArray lib n (byte_size lib m) (write_array lib m)) =
     Suc (MessageSizeNoVirtual lib (byte_size lib m))"
  by (simp add: WriteMessageToArray_def MessageSizeNoVirtual_def wire_sizes size)

lemma enter_message:
  assumes laws: "wire_laws lib" and bound: "MessageSizeNoVirtual lib (byte_size lib s) < size_limit"
    and n: "0 < n" "n < 16"
  obtains in1 where "ReadTagWithCutoff lib 127
      (stream (WriteMessageToArray lib n (byte_size lib s) (write_array lib s) @ rest)) =
      (word_of_nat (8 * n + 2), True, in1)"
    and "PushLengthLimit lib in1 = Some (write_array lib s, rest)"
    and "in1\<lparr>unread := write_array lib s\<rparr> = stream (write_array lib s)"
proof -
  note limit = sizes_bound_length(2) [OF bound]
  have len: "length (write_array lib s) = byte_size lib s" by (rule size [OF laws limit])
  then obtain in1 where t: "ReadTagWithCutoff lib 127
      (stream (WriteMessageToArray lib n (byte_size lib s) (write_array lib s) @ rest)) =
      (word_of_nat (8 * n + 2), True, in1)"
    and legit: "legitimate_message_end in1 = False"
    and window: "PushLengthLimit lib in1 = Some (write_array lib s, rest)"
    using wire_lawsD(3) [OF laws n, of "write_array lib s" rest] limit
    unfolding WriteMessageToArray_def append_assoc by metis
  from legit have "in1\<lparr>unread := write_array lib s\<rparr> = stream (write_array lib s)" by (cases in1) simp
  with t window that show ?thesis by blast
qed

lemma merge_message:
  assumes laws: "wire_laws lib" and ok: "table_ok table" and s: "plain s" "MessageSizeNoVirtual lib (byte_size lib s) < size_limit"
    and n: "0 < n" "n < 16" and sub: "sub m = cleared"
    and tag: "table (word_of_nat (8 * n + 2)) = Some (field_message lib (merge lib) sub put, ts, e)"
  shows "merge_loop lib table None m
      (stream (WriteMessageToArray lib n (byte_size lib s) (write_array lib s) @ rest)) =
    merge_loop lib table None (put s m) (stream rest)"
proof -
  obtain in1 where t: "ReadTagWithCutoff lib 127
      (stream (WriteMessageToArray lib n (byte_size lib s) (write_array lib s) @ rest)) =
      (word_of_nat (8 * n + 2), True, in1)"
    and window: "PushLengthLimit lib in1 = Some (write_array lib s, rest)"
      "in1\<lparr>unread := write_array lib s\<rparr> = stream (write_array lib s)"
    by (rule enter_message [OF laws s(2) n])
  have "field_message lib (merge lib) sub put m in1 = Some (put s m, Some (stream rest))"
    using merge_write [OF laws s(1) sizes_bound_length(2) [OF s(2)]]
    by (simp add: field_message_def ReadMessageNoVirtual_def window sub)
  from merge_loop_read [OF wire_lawsD(1) [OF laws] ok t tag this] show ?thesis .
qed

lemma merge_message_refused:
  assumes laws: "wire_laws lib" and ok: "table_ok table"
    and s: "MessageSizeNoVirtual lib (byte_size lib s) < size_limit"
      "merge lib cleared (stream (write_array lib s)) = Some (s', None)"
    and n: "0 < n" "n < 16" and sub: "sub m = cleared"
    and tag: "table (word_of_nat (8 * n + 2)) = Some (field_message lib (merge lib) sub put, ts, e)"
  shows "merge_loop lib table None m
      (stream (WriteMessageToArray lib n (byte_size lib s) (write_array lib s) @ rest)) =
    Some (put s' m, None)"
proof -
  obtain in1 where t: "ReadTagWithCutoff lib 127
      (stream (WriteMessageToArray lib n (byte_size lib s) (write_array lib s) @ rest)) =
      (word_of_nat (8 * n + 2), True, in1)"
    and window: "PushLengthLimit lib in1 = Some (write_array lib s, rest)"
      "in1\<lparr>unread := write_array lib s\<rparr> = stream (write_array lib s)"
    by (rule enter_message [OF laws s(1) n])
  have "field_message lib (merge lib) sub put m in1 = Some (put s' m, None)"
    using s(2) by (simp add: field_message_def ReadMessageNoVirtual_def window sub)
  from merge_loop_refused [OF wire_lawsD(1) [OF laws] ok t tag this] show ?thesis .
qed

end

end
