(* ===== verification/MessageCodec.thy ===== *)
theory MessageCodec
  imports Messages WireFormat
begin

text \<open>
  The classes generated from \<open>message.proto\<close> (\<open>src/src/common/rpc/proto/message.pb.cc\<close>): for
  every class the fields its parser knows, its serializer (\<open>..ToArray\<close>, the one
  \<open>SerializeAsString\<close> runs) and the size it announces, over the protocol buffers runtime of
  \<open>WireFormat\<close>. Each class is an instance of \<open>wire_message\<close>, sub-messages first.
\<close>

section \<open>The enumerations on the wire\<close>

fun request_type_number :: "Request_Type \<Rightarrow> 32 word" where
  "request_type_number INVALID = 0"
| "request_type_number RESERVE = 1"
| "request_type_number DELETE = 2"
| "request_type_number LISTJOBS = 3"
| "request_type_number (OtherRequestType n) = n"

definition request_type_of :: "32 word \<Rightarrow> Request_Type" where
  "request_type_of n =
     (if n = 0 then INVALID else if n = 1 then RESERVE else if n = 2 then DELETE
      else if n = 3 then LISTJOBS else OtherRequestType n)"

fun error_type_number :: "Error_errorType \<Rightarrow> 32 word" where
  "error_type_number EARGS = 0"
| "error_type_number EUNKNOWN = 1"
| "error_type_number (OtherErrorType n) = n"

definition error_type_of :: "32 word \<Rightarrow> Error_errorType" where
  "error_type_of n = (if n = 0 then EARGS else if n = 1 then EUNKNOWN else OtherErrorType n)"

fun message_type_number :: "Message_Type \<Rightarrow> 32 word" where
  "message_type_number REQUEST = 0"
| "message_type_number REPLY = 1"
| "message_type_number (OtherMessageType n) = n"

definition message_type_of :: "32 word \<Rightarrow> Message_Type" where
  "message_type_of n = (if n = 0 then REQUEST else if n = 1 then REPLY else OtherMessageType n)"

section \<open>\<open>Request::DeleteRequest\<close>\<close>

definition DeleteRequest_fields :: "WireFormatLite \<Rightarrow> Request_DeleteRequest fields" where
  "DeleteRequest_fields lib tag =
     (if tag = 10 then
        Some (field_string lib (\<lambda>m. []) (\<lambda>s m. m\<lparr>dr_id := dr_id m @ [s]\<rparr>), [10, 16], False)
      else if tag = 16 then Some (field_value (ReadBool lib) (\<lambda>v m. m\<lparr>dr_all := v\<rparr>), [], True)
      else None)"

definition DeleteRequest_Merge ::
  "WireFormatLite \<Rightarrow> Request_DeleteRequest \<Rightarrow> CodedInputStream \<Rightarrow> Request_DeleteRequest merged option"
where
  "DeleteRequest_Merge lib = merge_loop lib (DeleteRequest_fields lib) None"

definition DeleteRequest_Serialize :: "WireFormatLite \<Rightarrow> Request_DeleteRequest \<Rightarrow> string" where
  "DeleteRequest_Serialize lib m =
     concat (map (WriteStringToArray lib 1) (dr_id m)) @
     (if dr_all m then WriteBoolToArray lib 2 (dr_all m) else [])"

definition DeleteRequest_ByteSize :: "WireFormatLite \<Rightarrow> Request_DeleteRequest \<Rightarrow> nat" where
  "DeleteRequest_ByteSize lib m =
     (if dr_all m then 1 + 1 else 0) +
     (1 * length (dr_id m) + sum_list (map (StringSize lib) (dr_id m)))"

section \<open>\<open>Request::ResourceRequest\<close>\<close>

definition ResourceRequest_fields :: "WireFormatLite \<Rightarrow> Request_ResourceRequest fields" where
  "ResourceRequest_fields lib tag =
     (if tag = 10 then Some (field_string lib rr_id (\<lambda>s m. m\<lparr>rr_id := s\<rparr>), [16], False)
      else if tag = 16 then
        Some (field_value (ReadInt32 lib) (\<lambda>v m. m\<lparr>rr_throughputmb := v\<rparr>), [24], False)
      else if tag = 24 then
        Some (field_value (ReadInt64 lib) (\<lambda>v m. m\<lparr>rr_tstart := v\<rparr>), [32], False)
      else if tag = 32 then
        Some (field_value (ReadInt64 lib) (\<lambda>v m. m\<lparr>rr_durationsec := v\<rparr>), [42], False)
      else if tag = 42 then
        Some (field_string lib (\<lambda>m. []) (\<lambda>s m. m\<lparr>rr_files := rr_files m @ [s]\<rparr>), [42], True)
      else None)"

definition ResourceRequest_Merge ::
  "WireFormatLite \<Rightarrow> Request_ResourceRequest \<Rightarrow> CodedInputStream \<Rightarrow> Request_ResourceRequest merged option"
where
  "ResourceRequest_Merge lib = merge_loop lib (ResourceRequest_fields lib) None"

definition ResourceRequest_Serialize :: "WireFormatLite \<Rightarrow> Request_ResourceRequest \<Rightarrow> string" where
  "ResourceRequest_Serialize lib m =
     (if rr_id m \<noteq> [] then WriteStringToArray lib 1 (rr_id m) else []) @
     (if rr_throughputmb m \<noteq> 0 then WriteInt32ToArray lib 2 (rr_throughputmb m) else []) @
     (if rr_tstart m \<noteq> 0 then WriteInt64ToArray lib 3 (rr_tstart m) else []) @
     (if rr_durationsec m \<noteq> 0 then WriteInt64ToArray lib 4 (rr_durationsec m) else []) @
     concat (map (WriteStringToArray lib 5) (rr_files m))"

definition ResourceRequest_ByteSize :: "WireFormatLite \<Rightarrow> Request_ResourceRequest \<Rightarrow> nat" where
  "ResourceRequest_ByteSize lib m =
     (if rr_id m \<noteq> [] then 1 + StringSize lib (rr_id m) else 0) +
     (if rr_throughputmb m \<noteq> 0 then 1 + Int32Size lib (rr_throughputmb m) else 0) +
     (if rr_tstart m \<noteq> 0 then 1 + Int64Size lib (rr_tstart m) else 0) +
     (if rr_durationsec m \<noteq> 0 then 1 + Int64Size lib (rr_durationsec m) else 0) +
     (1 * length (rr_files m) + sum_list (map (StringSize lib) (rr_files m)))"

section \<open>\<open>Request::ListJobsRequest\<close>\<close>

definition ListJobsRequest_fields :: "WireFormatLite \<Rightarrow> Request_ListJobsRequest fields" where
  "ListJobsRequest_fields lib tag =
     (if tag = 10 then Some (field_string lib lj_regex (\<lambda>s m. m\<lparr>lj_regex := s\<rparr>), [], True) else None)"

definition ListJobsRequest_Merge ::
  "WireFormatLite \<Rightarrow> Request_ListJobsRequest \<Rightarrow> CodedInputStream \<Rightarrow> Request_ListJobsRequest merged option"
where
  "ListJobsRequest_Merge lib = merge_loop lib (ListJobsRequest_fields lib) None"

definition ListJobsRequest_Serialize :: "WireFormatLite \<Rightarrow> Request_ListJobsRequest \<Rightarrow> string" where
  "ListJobsRequest_Serialize lib m =
     (if lj_regex m \<noteq> [] then WriteStringToArray lib 1 (lj_regex m) else [])"

definition ListJobsRequest_ByteSize :: "WireFormatLite \<Rightarrow> Request_ListJobsRequest \<Rightarrow> nat" where
  "ListJobsRequest_ByteSize lib m =
     (if lj_regex m \<noteq> [] then 1 + StringSize lib (lj_regex m) else 0)"

section \<open>\<open>Request\<close>\<close>

definition Request_fields :: "WireFormatLite \<Rightarrow> Request fields" where
  "Request_fields lib tag =
     (if tag = 8 then
        Some (field_value (ReadEnum lib) (\<lambda>v m. m\<lparr>req_type := request_type_of v\<rparr>), [18], False)
      else if tag = 18 then
        Some (field_message lib (ResourceRequest_Merge lib) resourcerequest
            (\<lambda>s. mutable_resourcerequest (\<lambda>_. s)), [], True)
      else if tag = 26 then
        Some (field_message lib (DeleteRequest_Merge lib) deleterequest
            (\<lambda>s. mutable_deleterequest (\<lambda>_. s)), [34], False)
      else if tag = 34 then
        Some (field_message lib (ListJobsRequest_Merge lib) listjobsrequest
            (\<lambda>s. mutable_listjobsrequest (\<lambda>_. s)), [], True)
      else None)"

definition Request_Merge ::
  "WireFormatLite \<Rightarrow> Request \<Rightarrow> CodedInputStream \<Rightarrow> Request merged option" where
  "Request_Merge lib = merge_loop lib (Request_fields lib) None"

definition Request_Serialize :: "WireFormatLite \<Rightarrow> Request \<Rightarrow> string" where
  "Request_Serialize lib m =
     (if request_type_number (req_type m) \<noteq> 0
      then WriteEnumToArray lib 1 (request_type_number (req_type m)) else []) @
     (case req_rt m of
        kResourceRequest x \<Rightarrow>
          WriteMessageToArray lib 2 (ResourceRequest_ByteSize lib x) (ResourceRequest_Serialize lib x)
      | kDeleteRequest x \<Rightarrow>
          WriteMessageToArray lib 3 (DeleteRequest_ByteSize lib x) (DeleteRequest_Serialize lib x)
      | kListJobsRequest x \<Rightarrow>
          WriteMessageToArray lib 4 (ListJobsRequest_ByteSize lib x) (ListJobsRequest_Serialize lib x)
      | RT_NOT_SET \<Rightarrow> [])"

definition Request_ByteSize :: "WireFormatLite \<Rightarrow> Request \<Rightarrow> nat" where
  "Request_ByteSize lib m =
     (if request_type_number (req_type m) \<noteq> 0
      then 1 + EnumSize lib (request_type_number (req_type m)) else 0) +
     (case req_rt m of
        kResourceRequest x \<Rightarrow> 1 + MessageSizeNoVirtual lib (ResourceRequest_ByteSize lib x)
      | kDeleteRequest x \<Rightarrow> 1 + MessageSizeNoVirtual lib (DeleteRequest_ByteSize lib x)
      | kListJobsRequest x \<Rightarrow> 1 + MessageSizeNoVirtual lib (ListJobsRequest_ByteSize lib x)
      | RT_NOT_SET \<Rightarrow> 0)"

section \<open>\<open>Error\<close> and \<open>Reply\<close>\<close>

definition Error_fields :: "WireFormatLite \<Rightarrow> Error fields" where
  "Error_fields lib tag =
     (if tag = 8 then
        Some (field_value (ReadEnum lib) (\<lambda>v m. m\<lparr>err_error := error_type_of v\<rparr>), [18], False)
      else if tag = 18 then Some (field_string lib err_msg (\<lambda>s m. m\<lparr>err_msg := s\<rparr>), [], True)
      else None)"

definition Error_Merge :: "WireFormatLite \<Rightarrow> Error \<Rightarrow> CodedInputStream \<Rightarrow> Error merged option" where
  "Error_Merge lib = merge_loop lib (Error_fields lib) None"

definition Error_Serialize :: "WireFormatLite \<Rightarrow> Error \<Rightarrow> string" where
  "Error_Serialize lib m =
     (if error_type_number (err_error m) \<noteq> 0
      then WriteEnumToArray lib 1 (error_type_number (err_error m)) else []) @
     (if err_msg m \<noteq> [] then WriteStringToArray lib 2 (err_msg m) else [])"

definition Error_ByteSize :: "WireFormatLite \<Rightarrow> Error \<Rightarrow> nat" where
  "Error_ByteSize lib m =
     (if error_type_number (err_error m) \<noteq> 0
      then 1 + EnumSize lib (error_type_number (err_error m)) else 0) +
     (if err_msg m \<noteq> [] then 1 + StringSize lib (err_msg m) else 0)"

definition Reply_fields :: "WireFormatLite \<Rightarrow> Reply fields" where
  "Reply_fields lib tag =
     (if tag = 8 then Some (field_value (ReadInt32 lib) (\<lambda>v m. m\<lparr>rep_rc := v\<rparr>), [18], False)
      else if tag = 18 then
        Some (field_message lib (Error_Merge lib) reply_error (\<lambda>e m. m\<lparr>rep_error := Some e\<rparr>), [26], False)
      else if tag = 26 then
        Some (field_string lib rep_return_msg (\<lambda>s m. m\<lparr>rep_return_msg := s\<rparr>), [], True)
      else None)"

definition Reply_Merge :: "WireFormatLite \<Rightarrow> Reply \<Rightarrow> CodedInputStream \<Rightarrow> Reply merged option" where
  "Reply_Merge lib = merge_loop lib (Reply_fields lib) None"

definition Reply_Serialize :: "WireFormatLite \<Rightarrow> Reply \<Rightarrow> string" where
  "Reply_Serialize lib m =
     (if rep_rc m \<noteq> 0 then WriteInt32ToArray lib 1 (rep_rc m) else []) @
     (case rep_error m of
        Some e \<Rightarrow> WriteMessageToArray lib 2 (Error_ByteSize lib e) (Error_Serialize lib e)
      | None \<Rightarrow> []) @
     (if rep_return_msg m \<noteq> [] then WriteStringToArray lib 3 (rep_return_msg m) else [])"

definition Reply_ByteSize :: "WireFormatLite \<Rightarrow> Reply \<Rightarrow> nat" where
  "Reply_ByteSize lib m =
     (if rep_rc m \<noteq> 0 then 1 + Int32Size lib (rep_rc m) else 0) +
     (case rep_error m of
        Some e \<Rightarrow> 1 + MessageSizeNoVirtual lib (Error_ByteSize lib e)
      | None \<Rightarrow> 0) +
     (if rep_return_msg m \<noteq> [] then 1 + StringSize lib (rep_return_msg m) else 0)"

section \<open>\<open>Message\<close>\<close>

definition Message_fields :: "WireFormatLite \<Rightarrow> Message fields" where
  "Message_fields lib tag =
     (if tag = 8 then
        Some (field_value (ReadEnum lib) (\<lambda>v m. m\<lparr>msg_type := message_type_of v\<rparr>), [18], False)
      else if tag = 18 then
        Some (field_message lib (Request_Merge lib) request (\<lambda>s. mutable_request (\<lambda>_. s)), [], True)
      else if tag = 26 then
        Some (field_message lib (Reply_Merge lib) reply (\<lambda>s. mutable_reply (\<lambda>_. s)), [], True)
      else None)"

definition Message_Merge ::
  "WireFormatLite \<Rightarrow> Message \<Rightarrow> CodedInputStream \<Rightarrow> Message merged option" where
  "Message_Merge lib = merge_loop lib (Message_fields lib) None"

definition Message_Serialize :: "WireFormatLite \<Rightarrow> Message \<Rightarrow> string" where
  "Message_Serialize lib m =
     (if message_type_number (msg_type m) \<noteq> 0
      then WriteEnumToArray lib 1 (message_type_number (msg_type m)) else []) @
     (case msg_rq m of
        kRequest x \<Rightarrow> WriteMessageToArray lib 2 (Request_ByteSize lib x) (Request_Serialize lib x)
      | kReply x \<Rightarrow> WriteMessageToArray lib 3 (Reply_ByteSize lib x) (Reply_Serialize lib x)
      | RQ_NOT_SET \<Rightarrow> [])"

definition Message_ByteSize :: "WireFormatLite \<Rightarrow> Message \<Rightarrow> nat" where
  "Message_ByteSize lib m =
     (if message_type_number (msg_type m) \<noteq> 0
      then 1 + EnumSize lib (message_type_number (msg_type m)) else 0) +
     (case msg_rq m of
        kRequest x \<Rightarrow> 1 + MessageSizeNoVirtual lib (Request_ByteSize lib x)
      | kReply x \<Rightarrow> 1 + MessageSizeNoVirtual lib (Reply_ByteSize lib x)
      | RQ_NOT_SET \<Rightarrow> 0)"


section \<open>Every class returns from its parser\<close>

lemmas message_tables = DeleteRequest_fields_def ResourceRequest_fields_def ListJobsRequest_fields_def
  Request_fields_def Error_fields_def Reply_fields_def Message_fields_def

lemmas message_merges = DeleteRequest_Merge_def ResourceRequest_Merge_def ListJobsRequest_Merge_def
  Request_Merge_def Error_Merge_def Reply_Merge_def Message_Merge_def

lemma message_tables_ok:
  "table_ok (DeleteRequest_fields lib)" "table_ok (ResourceRequest_fields lib)"
  "table_ok (ListJobsRequest_fields lib)" "table_ok (Request_fields lib)"
  "table_ok (Error_fields lib)" "table_ok (Reply_fields lib)" "table_ok (Message_fields lib)"
  by (auto simp: table_ok_def message_tables)

lemma leaf_messages_return:
  assumes "stream_laws lib" and "read_laws lib"
  shows "returns (DeleteRequest_Merge lib)" "returns (ResourceRequest_Merge lib)"
    "returns (ListJobsRequest_Merge lib)" "returns (Error_Merge lib)"
  unfolding message_merges
  by (rule merge_loop_returns [OF assms message_tables_ok(1)]
      merge_loop_returns [OF assms message_tables_ok(2)]
      merge_loop_returns [OF assms message_tables_ok(3)]
      merge_loop_returns [OF assms message_tables_ok(5)],
    auto simp: fields_return_def message_tables read_lawsD [OF assms(2)] field_string_returns [OF assms(2)]
      field_value_returns split: if_splits)+

lemma Request_and_Reply_return:
  assumes "stream_laws lib" and "read_laws lib"
  shows "returns (Request_Merge lib)" "returns (Reply_Merge lib)"
  unfolding Request_Merge_def Reply_Merge_def
  by (rule merge_loop_returns [OF assms message_tables_ok(4)]
      merge_loop_returns [OF assms message_tables_ok(6)],
    auto simp: fields_return_def message_tables read_lawsD [OF assms(2)] field_string_returns [OF assms(2)]
      field_value_returns field_message_returns [OF assms(2)] leaf_messages_return [OF assms] split: if_splits)+

lemma Message_returns:
  "stream_laws lib \<Longrightarrow> read_laws lib \<Longrightarrow> returns (Message_Merge lib)"
  unfolding Message_Merge_def
  by (rule merge_loop_returns)
    (auto simp: message_tables_ok fields_return_def Message_fields_def read_lawsD field_value_returns
      field_message_returns Request_and_Reply_return split: if_splits)

section \<open>Reading back what was written\<close>

lemma fold_dr_id: "fold (\<lambda>s m. m\<lparr>dr_id := dr_id m @ [s]\<rparr>) ss m = m\<lparr>dr_id := dr_id m @ ss\<rparr>"
  by (induction ss arbitrary: m) simp_all

lemma fold_rr_files: "fold (\<lambda>s m. m\<lparr>rr_files := rr_files m @ [s]\<rparr>) ss m = m\<lparr>rr_files := rr_files m @ ss\<rparr>"
  by (induction ss arbitrary: m) simp_all

definition plain_DeleteRequest :: "Request_DeleteRequest \<Rightarrow> bool" where
  "plain_DeleteRequest m \<longleftrightarrow> list_all ascii (dr_id m)"

lemma DeleteRequest_written:
  assumes laws: "wire_laws lib" and m: "plain_DeleteRequest m"
    and size: "DeleteRequest_ByteSize lib m < size_limit"
  shows "DeleteRequest_Merge lib default_DeleteRequest (stream (DeleteRequest_Serialize lib m)) =
    Some (m, Some at_end)"
proof -
  let ?t = "DeleteRequest_fields lib"
  have tags: "?t (word_of_nat (8 * 1 + 2)) =
      Some (field_string lib (\<lambda>m. []) (\<lambda>s m. m\<lparr>dr_id := dr_id m @ [s]\<rparr>), [10, 16], False)"
    "?t (word_of_nat (8 * 2)) = Some (field_value (ReadBool lib) (\<lambda>v m. m\<lparr>dr_all := v\<rparr>), [], True)"
    by (simp_all add: DeleteRequest_fields_def)
  have ids: "\<forall>s\<in>set (dr_id m). ascii s \<and> StringSize lib s < size_limit"
    using m size sizes_of_strings [of "dr_id m" lib size_limit]
    by (simp add: plain_DeleteRequest_def DeleteRequest_ByteSize_def list_all_iff)
  note all = merge_value [OF laws message_tables_ok(1) wire_lawsD(7) [OF laws] _ _ tags(2), where v = "dr_all m"]
  show ?thesis
    using merge_strings [OF laws message_tables_ok(1) _ _ tags(1) ids]
      merge_optional [OF all, where rest = "[]"]
      merge_loop_at_end [OF wire_lawsD(1) [OF laws] message_tables_ok(1)]
    by (simp add: DeleteRequest_Merge_def DeleteRequest_Serialize_def default_DeleteRequest_def fold_dr_id)
qed


definition plain_ResourceRequest :: "Request_ResourceRequest \<Rightarrow> bool" where
  "plain_ResourceRequest m \<longleftrightarrow> ascii (rr_id m) \<and> list_all ascii (rr_files m)"

lemma ResourceRequest_written:
  assumes laws: "wire_laws lib" and m: "plain_ResourceRequest m"
    and size: "ResourceRequest_ByteSize lib m < size_limit"
  shows "ResourceRequest_Merge lib default_ResourceRequest (stream (ResourceRequest_Serialize lib m)) =
    Some (m, Some at_end)"
proof -
  let ?t = "ResourceRequest_fields lib"
  have tags: "?t (word_of_nat (8 * 1 + 2)) = Some (field_string lib rr_id (\<lambda>s m. m\<lparr>rr_id := s\<rparr>), [16], False)"
    "?t (word_of_nat (8 * 2)) = Some (field_value (ReadInt32 lib) (\<lambda>v m. m\<lparr>rr_throughputmb := v\<rparr>), [24], False)"
    "?t (word_of_nat (8 * 3)) = Some (field_value (ReadInt64 lib) (\<lambda>v m. m\<lparr>rr_tstart := v\<rparr>), [32], False)"
    "?t (word_of_nat (8 * 4)) = Some (field_value (ReadInt64 lib) (\<lambda>v m. m\<lparr>rr_durationsec := v\<rparr>), [42], False)"
    "?t (word_of_nat (8 * 5 + 2)) =
      Some (field_string lib (\<lambda>m. []) (\<lambda>s m. m\<lparr>rr_files := rr_files m @ [s]\<rparr>), [42], True)"
    by (simp_all add: ResourceRequest_fields_def)
  have files: "\<forall>s\<in>set (rr_files m). ascii s \<and> StringSize lib s < size_limit"
    using m size sizes_of_strings [of "rr_files m" lib size_limit]
    by (simp add: plain_ResourceRequest_def ResourceRequest_ByteSize_def list_all_iff)
  have id: "merge_loop lib ?t None x (stream (WriteStringToArray lib 1 (rr_id m) @ rest)) =
      merge_loop lib ?t None (x\<lparr>rr_id := rr_id m\<rparr>) (stream rest)" if "rr_id m \<noteq> []" for x rest
    by (rule merge_string [OF laws message_tables_ok(2) _ _ _ _ tags(1)])
      (use that m size in \<open>simp_all add: plain_ResourceRequest_def ResourceRequest_ByteSize_def\<close>)
  note number = merge_value [OF laws message_tables_ok(2)]
  note throughput = number [OF wire_lawsD(4) [OF laws] _ _ tags(2), where v = "rr_throughputmb m"]
    and tstart = number [OF wire_lawsD(5) [OF laws] _ _ tags(3), where v = "rr_tstart m"]
    and duration = number [OF wire_lawsD(5) [OF laws] _ _ tags(4), where v = "rr_durationsec m"]
  show ?thesis
    using merge_optional [OF id] merge_optional [OF throughput] merge_optional [OF tstart]
      merge_optional [OF duration]
      merge_strings [OF laws message_tables_ok(2) _ _ tags(5) files, where rest = "[]"]
      merge_loop_at_end [OF wire_lawsD(1) [OF laws] message_tables_ok(2)]
    by (simp add: ResourceRequest_Merge_def ResourceRequest_Serialize_def default_ResourceRequest_def
        fold_rr_files)
qed

lemma ListJobsRequest_written:
  assumes laws: "wire_laws lib" and m: "ascii (lj_regex m)"
    and size: "ListJobsRequest_ByteSize lib m < size_limit"
  shows "ListJobsRequest_Merge lib default_ListJobsRequest (stream (ListJobsRequest_Serialize lib m)) =
    Some (m, Some at_end)"
proof -
  let ?t = "ListJobsRequest_fields lib"
  have tag: "?t (word_of_nat (8 * 1 + 2)) =
      Some (field_string lib lj_regex (\<lambda>s m. m\<lparr>lj_regex := s\<rparr>), [], True)"
    by (simp add: ListJobsRequest_fields_def)
  have regex: "merge_loop lib ?t None x (stream (WriteStringToArray lib 1 (lj_regex m) @ rest)) =
      merge_loop lib ?t None (x\<lparr>lj_regex := lj_regex m\<rparr>) (stream rest)" if "lj_regex m \<noteq> []" for x rest
    by (rule merge_string [OF laws message_tables_ok(3) m _ _ _ tag])
      (use that size in \<open>simp_all add: ListJobsRequest_ByteSize_def\<close>)
  show ?thesis
    using merge_optional [OF regex, where rest = "[]"]
      merge_loop_at_end [OF wire_lawsD(1) [OF laws] message_tables_ok(3)]
    by (simp add: ListJobsRequest_Merge_def ListJobsRequest_Serialize_def default_ListJobsRequest_def)
qed

lemma enumerations_on_the_wire:
  "t \<in> {INVALID, RESERVE, DELETE, LISTJOBS} \<Longrightarrow> request_type_of (request_type_number t) = t"
  "e \<in> {EARGS, EUNKNOWN} \<Longrightarrow> error_type_of (error_type_number e) = e"
  "y \<in> {REQUEST, REPLY} \<Longrightarrow> message_type_of (message_type_number y) = y"
  by (auto simp: request_type_of_def error_type_of_def message_type_of_def)

definition plain_Error :: "Error \<Rightarrow> bool" where
  "plain_Error m \<longleftrightarrow> err_error m \<in> {EARGS, EUNKNOWN} \<and> ascii (err_msg m)"

lemma Error_written:
  assumes laws: "wire_laws lib" and m: "plain_Error m" and size: "Error_ByteSize lib m < size_limit"
  shows "Error_Merge lib default_Error (stream (Error_Serialize lib m)) = Some (m, Some at_end)"
proof -
  let ?t = "Error_fields lib" and ?n = "error_type_number (err_error m)"
  have tags: "?t (word_of_nat (8 * 1)) =
      Some (field_value (ReadEnum lib) (\<lambda>v m. m\<lparr>err_error := error_type_of v\<rparr>), [18], False)"
    "?t (word_of_nat (8 * 2 + 2)) = Some (field_string lib err_msg (\<lambda>s m. m\<lparr>err_msg := s\<rparr>), [], True)"
    by (simp_all add: Error_fields_def)
  have msg: "merge_loop lib ?t None x (stream (WriteStringToArray lib 2 (err_msg m) @ rest)) =
      merge_loop lib ?t None (x\<lparr>err_msg := err_msg m\<rparr>) (stream rest)" if "err_msg m \<noteq> []" for x rest
    by (rule merge_string [OF laws message_tables_ok(5) _ _ _ _ tags(2)])
      (use that m size in \<open>simp_all add: plain_Error_def Error_ByteSize_def\<close>)
  note type = merge_value [OF laws message_tables_ok(5) wire_lawsD(6) [OF laws] _ _ tags(1), where v = ?n]
  let ?x = "if ?n \<noteq> 0 then default_Error\<lparr>err_error := error_type_of ?n\<rparr> else default_Error"
  have "(if err_msg m \<noteq> [] then ?x\<lparr>err_msg := err_msg m\<rparr> else ?x) = m"
    using m by (cases m) (auto simp: plain_Error_def default_Error_def error_type_of_def)
  then show ?thesis
    using merge_optional [OF type, of "?n \<noteq> 0"] merge_optional [OF msg, of "err_msg m \<noteq> []" ?x "[]"]
      merge_loop_at_end [OF wire_lawsD(1) [OF laws] message_tables_ok(5)]
    by (simp add: Error_Merge_def Error_Serialize_def)
qed

interpretation delete_request: wire_message default_DeleteRequest DeleteRequest_Merge
  DeleteRequest_Serialize DeleteRequest_ByteSize plain_DeleteRequest
  by (rule wire_message.intro; (rule leaf_messages_return DeleteRequest_written; assumption)?)
    (simp add: DeleteRequest_ByteSize_def DeleteRequest_Serialize_def written_sizes length_strings
      split: if_splits)

interpretation resource_request: wire_message default_ResourceRequest ResourceRequest_Merge
  ResourceRequest_Serialize ResourceRequest_ByteSize plain_ResourceRequest
  by (rule wire_message.intro; (rule leaf_messages_return ResourceRequest_written; assumption)?)
    (simp add: ResourceRequest_ByteSize_def ResourceRequest_Serialize_def written_sizes length_strings
      split: if_splits)

interpretation listjobs_request: wire_message default_ListJobsRequest ListJobsRequest_Merge
  ListJobsRequest_Serialize ListJobsRequest_ByteSize "\<lambda>m. ascii (lj_regex m)"
  by (rule wire_message.intro; (rule leaf_messages_return ListJobsRequest_written; assumption)?)
    (simp add: ListJobsRequest_ByteSize_def ListJobsRequest_Serialize_def written_sizes split: if_splits)

interpretation error_message: wire_message default_Error Error_Merge Error_Serialize Error_ByteSize
  plain_Error
  by (rule wire_message.intro; (rule leaf_messages_return Error_written; assumption)?)
    (simp add: Error_ByteSize_def Error_Serialize_def written_sizes split: if_splits)


definition plain_Request :: "Request \<Rightarrow> bool" where
  "plain_Request m \<longleftrightarrow> req_type m \<in> {INVALID, RESERVE, DELETE, LISTJOBS} \<and>
     (case req_rt m of
        kResourceRequest x \<Rightarrow> plain_ResourceRequest x
      | kDeleteRequest x \<Rightarrow> plain_DeleteRequest x
      | kListJobsRequest x \<Rightarrow> ascii (lj_regex x)
      | RT_NOT_SET \<Rightarrow> True)"

lemma Request_written:
  assumes laws: "wire_laws lib" and m: "plain_Request m" and size: "Request_ByteSize lib m < size_limit"
  shows "Request_Merge lib default_Request (stream (Request_Serialize lib m)) = Some (m, Some at_end)"
proof -
  let ?t = "Request_fields lib" and ?n = "request_type_number (req_type m)"
  have tags: "?t (word_of_nat (8 * 1)) =
      Some (field_value (ReadEnum lib) (\<lambda>v m. m\<lparr>req_type := request_type_of v\<rparr>), [18], False)"
    "?t (word_of_nat (8 * 2 + 2)) = Some (field_message lib (ResourceRequest_Merge lib) resourcerequest
        (\<lambda>s. mutable_resourcerequest (\<lambda>_. s)), [], True)"
    "?t (word_of_nat (8 * 3 + 2)) = Some (field_message lib (DeleteRequest_Merge lib) deleterequest
        (\<lambda>s. mutable_deleterequest (\<lambda>_. s)), [34], False)"
    "?t (word_of_nat (8 * 4 + 2)) = Some (field_message lib (ListJobsRequest_Merge lib) listjobsrequest
        (\<lambda>s. mutable_listjobsrequest (\<lambda>_. s)), [], True)"
    by (simp_all add: Request_fields_def)
  note parse = merge_loop_at_end [OF wire_lawsD(1) [OF laws] message_tables_ok(4)]
  define x where "x = (if ?n \<noteq> 0 then default_Request\<lparr>req_type := request_type_of ?n\<rparr> else default_Request)"
  have x: "req_type x = req_type m" "req_rt x = RT_NOT_SET"
    using m by (auto simp: x_def default_Request_def plain_Request_def request_type_of_def)
  have type: "merge_loop lib ?t None default_Request
      (stream ((if ?n \<noteq> 0 then WriteEnumToArray lib 1 ?n else []) @ rest)) =
      merge_loop lib ?t None x (stream rest)" for rest
    unfolding x_def
    by (rule merge_optional, rule merge_value [OF laws message_tables_ok(4) wire_lawsD(6) [OF laws] _ _ tags(1)]) simp_all
  have "merge_loop lib ?t None x (stream (case req_rt m of
        kResourceRequest x \<Rightarrow>
          WriteMessageToArray lib 2 (ResourceRequest_ByteSize lib x) (ResourceRequest_Serialize lib x)
      | kDeleteRequest x \<Rightarrow>
          WriteMessageToArray lib 3 (DeleteRequest_ByteSize lib x) (DeleteRequest_Serialize lib x)
      | kListJobsRequest x \<Rightarrow>
          WriteMessageToArray lib 4 (ListJobsRequest_ByteSize lib x) (ListJobsRequest_Serialize lib x)
      | RT_NOT_SET \<Rightarrow> [])) = merge_loop lib ?t None m (stream [])"
  proof (cases "req_rt m")
    case RT_NOT_SET
    with x show ?thesis by (cases m; cases x) simp
  next
    case (kResourceRequest s)
    have "merge_loop lib ?t None x (stream (WriteMessageToArray lib 2 (ResourceRequest_ByteSize lib s)
          (ResourceRequest_Serialize lib s) @ [])) = merge_loop lib ?t None (mutable_resourcerequest (\<lambda>_. s) x) (stream [])"
      by (rule resource_request.merge_message [OF laws message_tables_ok(4) _ _ _ _ _ tags(2)])
        (use m size x kResourceRequest in \<open>simp_all add: plain_Request_def Request_ByteSize_def resourcerequest_def\<close>)
    moreover have "mutable_resourcerequest (\<lambda>_. s) x = m"
      using kResourceRequest x by (cases m; cases x) (simp add: mutable_resourcerequest_def)
    ultimately show ?thesis by (simp add: kResourceRequest)
  next
    case (kDeleteRequest s)
    have "merge_loop lib ?t None x (stream (WriteMessageToArray lib 3 (DeleteRequest_ByteSize lib s)
          (DeleteRequest_Serialize lib s) @ [])) = merge_loop lib ?t None (mutable_deleterequest (\<lambda>_. s) x) (stream [])"
      by (rule delete_request.merge_message [OF laws message_tables_ok(4) _ _ _ _ _ tags(3)])
        (use m size x kDeleteRequest in \<open>simp_all add: plain_Request_def Request_ByteSize_def deleterequest_def\<close>)
    moreover have "mutable_deleterequest (\<lambda>_. s) x = m"
      using kDeleteRequest x by (cases m; cases x) (simp add: mutable_deleterequest_def)
    ultimately show ?thesis by (simp add: kDeleteRequest)
  next
    case (kListJobsRequest s)
    have "merge_loop lib ?t None x (stream (WriteMessageToArray lib 4 (ListJobsRequest_ByteSize lib s)
          (ListJobsRequest_Serialize lib s) @ [])) = merge_loop lib ?t None (mutable_listjobsrequest (\<lambda>_. s) x) (stream [])"
      by (rule listjobs_request.merge_message [OF laws message_tables_ok(4) _ _ _ _ _ tags(4)])
        (use m size x kListJobsRequest in \<open>simp_all add: plain_Request_def Request_ByteSize_def listjobsrequest_def\<close>)
    moreover have "mutable_listjobsrequest (\<lambda>_. s) x = m"
      using kListJobsRequest x by (cases m; cases x) (simp add: mutable_listjobsrequest_def)
    ultimately show ?thesis by (simp add: kListJobsRequest)
  qed
  with type parse show ?thesis by (simp add: Request_Merge_def Request_Serialize_def)
qed


interpretation request_message: wire_message default_Request Request_Merge Request_Serialize
  Request_ByteSize plain_Request
  by (rule wire_message.intro; (rule Request_and_Reply_return Request_written; assumption)?)
    (simp add: Request_ByteSize_def Request_Serialize_def written_sizes
      resource_request.length_message delete_request.length_message listjobs_request.length_message
      split: if_splits RtCase.splits)

definition plain_Reply :: "Reply \<Rightarrow> bool" where
  "plain_Reply m \<longleftrightarrow> pred_option plain_Error (rep_error m) \<and> ascii (rep_return_msg m)"

lemma Reply_written:
  assumes laws: "wire_laws lib" and m: "plain_Reply m" and size: "Reply_ByteSize lib m < size_limit"
  shows "Reply_Merge lib default_Reply (stream (Reply_Serialize lib m)) = Some (m, Some at_end)"
proof -
  let ?t = "Reply_fields lib"
  have tags: "?t (word_of_nat (8 * 1)) = Some (field_value (ReadInt32 lib) (\<lambda>v m. m\<lparr>rep_rc := v\<rparr>), [18], False)"
    "?t (word_of_nat (8 * 2 + 2)) = Some (field_message lib (Error_Merge lib) reply_error
        (\<lambda>e m. m\<lparr>rep_error := Some e\<rparr>), [26], False)"
    "?t (word_of_nat (8 * 3 + 2)) =
      Some (field_string lib rep_return_msg (\<lambda>s m. m\<lparr>rep_return_msg := s\<rparr>), [], True)"
    by (simp_all add: Reply_fields_def)
  have msg: "merge_loop lib ?t None x (stream (WriteStringToArray lib 3 (rep_return_msg m) @ rest)) =
      merge_loop lib ?t None (x\<lparr>rep_return_msg := rep_return_msg m\<rparr>) (stream rest)"
    if "rep_return_msg m \<noteq> []" for x rest
    by (rule merge_string [OF laws message_tables_ok(6) _ _ _ _ tags(3)])
      (use that m size in \<open>simp_all add: plain_Reply_def Reply_ByteSize_def\<close>)
  note rc = merge_value [OF laws message_tables_ok(6) wire_lawsD(4) [OF laws] _ _ tags(1), where v = "rep_rc m"]
  have error: "merge_loop lib ?t None x (stream ((case rep_error m of
        Some e \<Rightarrow> WriteMessageToArray lib 2 (Error_ByteSize lib e) (Error_Serialize lib e)
      | None \<Rightarrow> []) @ rest)) = merge_loop lib ?t None (x\<lparr>rep_error := rep_error m\<rparr>) (stream rest)"
    if "rep_error x = None" for x rest
  proof (cases "rep_error m")
    case None
    with that show ?thesis by (cases x) simp
  next
    case (Some e)
    have "merge_loop lib ?t None x (stream (WriteMessageToArray lib 2 (Error_ByteSize lib e)
          (Error_Serialize lib e) @ rest)) = merge_loop lib ?t None (x\<lparr>rep_error := Some e\<rparr>) (stream rest)"
      by (rule error_message.merge_message [OF laws message_tables_ok(6) _ _ _ _ _ tags(2)])
        (use that m size Some in \<open>simp_all add: plain_Reply_def Reply_ByteSize_def reply_error_def\<close>)
    with Some show ?thesis by simp
  qed
  show ?thesis
    using merge_optional [OF rc] error merge_optional [OF msg, where rest = "[]"]
      merge_loop_at_end [OF wire_lawsD(1) [OF laws] message_tables_ok(6)]
    by (simp add: Reply_Merge_def Reply_Serialize_def default_Reply_def)
qed

interpretation reply_message: wire_message default_Reply Reply_Merge Reply_Serialize
  Reply_ByteSize plain_Reply
  by (rule wire_message.intro; (rule Request_and_Reply_return Reply_written; assumption)?)
    (simp add: Reply_ByteSize_def Reply_Serialize_def written_sizes
      error_message.length_message split: if_splits option.splits)

definition plain_Message :: "Message \<Rightarrow> bool" where
  "plain_Message m \<longleftrightarrow> msg_type m \<in> {REQUEST, REPLY} \<and>
     (case msg_rq m of kRequest x \<Rightarrow> plain_Request x | kReply x \<Rightarrow> plain_Reply x | RQ_NOT_SET \<Rightarrow> True)"

lemma Message_written:
  assumes laws: "wire_laws lib" and m: "plain_Message m" and size: "Message_ByteSize lib m < size_limit"
  shows "Message_Merge lib default_Message (stream (Message_Serialize lib m)) = Some (m, Some at_end)"
proof -
  let ?t = "Message_fields lib" and ?n = "message_type_number (msg_type m)"
  have tags: "?t (word_of_nat (8 * 1)) =
      Some (field_value (ReadEnum lib) (\<lambda>v m. m\<lparr>msg_type := message_type_of v\<rparr>), [18], False)"
    "?t (word_of_nat (8 * 2 + 2)) = Some (field_message lib (Request_Merge lib) request
        (\<lambda>s. mutable_request (\<lambda>_. s)), [], True)"
    "?t (word_of_nat (8 * 3 + 2)) = Some (field_message lib (Reply_Merge lib) reply
        (\<lambda>s. mutable_reply (\<lambda>_. s)), [], True)"
    by (simp_all add: Message_fields_def)
  note parse = merge_loop_at_end [OF wire_lawsD(1) [OF laws] message_tables_ok(7)]
  define x where "x = (if ?n \<noteq> 0 then default_Message\<lparr>msg_type := message_type_of ?n\<rparr> else default_Message)"
  have x: "msg_type x = msg_type m" "msg_rq x = RQ_NOT_SET"
    using m by (auto simp: x_def default_Message_def plain_Message_def message_type_of_def)
  have type: "merge_loop lib ?t None default_Message
      (stream ((if ?n \<noteq> 0 then WriteEnumToArray lib 1 ?n else []) @ rest)) =
      merge_loop lib ?t None x (stream rest)" for rest
    unfolding x_def
    by (rule merge_optional, rule merge_value [OF laws message_tables_ok(7) wire_lawsD(6) [OF laws] _ _ tags(1)]) simp_all
  have "merge_loop lib ?t None x (stream (case msg_rq m of
        kRequest x \<Rightarrow> WriteMessageToArray lib 2 (Request_ByteSize lib x) (Request_Serialize lib x)
      | kReply x \<Rightarrow> WriteMessageToArray lib 3 (Reply_ByteSize lib x) (Reply_Serialize lib x)
      | RQ_NOT_SET \<Rightarrow> [])) = merge_loop lib ?t None m (stream [])"
  proof (cases "msg_rq m")
    case RQ_NOT_SET
    with x show ?thesis by (cases m; cases x) simp
  next
    case (kRequest s)
    have "merge_loop lib ?t None x (stream (WriteMessageToArray lib 2 (Request_ByteSize lib s)
          (Request_Serialize lib s) @ [])) = merge_loop lib ?t None (mutable_request (\<lambda>_. s) x) (stream [])"
      by (rule request_message.merge_message [OF laws message_tables_ok(7) _ _ _ _ _ tags(2)])
        (use m size x kRequest in \<open>simp_all add: plain_Message_def Message_ByteSize_def request_def\<close>)
    moreover have "mutable_request (\<lambda>_. s) x = m"
      using kRequest x by (cases m; cases x) (simp add: mutable_request_def)
    ultimately show ?thesis by (simp add: kRequest)
  next
    case (kReply s)
    have "merge_loop lib ?t None x (stream (WriteMessageToArray lib 3 (Reply_ByteSize lib s)
          (Reply_Serialize lib s) @ [])) = merge_loop lib ?t None (mutable_reply (\<lambda>_. s) x) (stream [])"
      by (rule reply_message.merge_message [OF laws message_tables_ok(7) _ _ _ _ _ tags(3)])
        (use m size x kReply in \<open>simp_all add: plain_Message_def Message_ByteSize_def reply_def\<close>)
    moreover have "mutable_reply (\<lambda>_. s) x = m"
      using kReply x by (cases m; cases x) (simp add: mutable_reply_def)
    ultimately show ?thesis by (simp add: kReply)
  qed
  with type parse show ?thesis by (simp add: Message_Merge_def Message_Serialize_def)
qed

interpretation rpc_message: wire_message default_Message Message_Merge Message_Serialize
  Message_ByteSize plain_Message
  by (rule wire_message.intro; (rule Message_returns Message_written; assumption)?)
    (simp add: Message_ByteSize_def Message_Serialize_def written_sizes
      request_message.length_message reply_message.length_message split: if_splits RqCase.splits)


section \<open>Text that is not UTF-8\<close>

text \<open>
  The serializers check the encoding of a text but only log; the parsers refuse it. A request for
  resources with such an id is written and cannot be read.
\<close>

lemma ResourceRequest_refused:
  assumes laws: "wire_laws lib" and id: "\<not> VerifyUtf8String lib (rr_id m)"
    and size: "ResourceRequest_ByteSize lib m < size_limit"
  shows "\<exists>m'. ResourceRequest_Merge lib default_ResourceRequest
    (stream (ResourceRequest_Serialize lib m)) = Some (m', None)"
proof -
  have tag: "ResourceRequest_fields lib (word_of_nat (8 * 1 + 2)) =
      Some (field_string lib rr_id (\<lambda>s m. m\<lparr>rr_id := s\<rparr>), [16], False)"
    by (simp add: ResourceRequest_fields_def)
  have "rr_id m \<noteq> []"
    using wire_lawsD(8) [OF laws, of "[]"] id by (auto simp: ascii_def)
  moreover from this have "StringSize lib (rr_id m) < size_limit"
    using size by (simp add: ResourceRequest_ByteSize_def)
  ultimately show ?thesis
    using merge_string_refused [OF laws message_tables_ok(2) id _ _ _ tag]
    by (simp add: ResourceRequest_Merge_def ResourceRequest_Serialize_def)
qed

lemma Request_refused:
  assumes laws: "wire_laws lib" and m: "req_rt m = kResourceRequest r"
    and id: "\<not> VerifyUtf8String lib (rr_id r)" and size: "Request_ByteSize lib m < size_limit"
  shows "\<exists>m'. Request_Merge lib default_Request (stream (Request_Serialize lib m)) = Some (m', None)"
proof -
  let ?t = "Request_fields lib" and ?n = "request_type_number (req_type m)"
  let ?x = "if ?n \<noteq> 0 then default_Request\<lparr>req_type := request_type_of ?n\<rparr> else default_Request"
  have tags: "?t (word_of_nat (8 * 1)) =
      Some (field_value (ReadEnum lib) (\<lambda>v m. m\<lparr>req_type := request_type_of v\<rparr>), [18], False)"
    "?t (word_of_nat (8 * 2 + 2)) = Some (field_message lib (ResourceRequest_Merge lib) resourcerequest
        (\<lambda>s. mutable_resourcerequest (\<lambda>_. s)), [], True)"
    by (simp_all add: Request_fields_def)
  have limit: "MessageSizeNoVirtual lib (ResourceRequest_ByteSize lib r) < size_limit"
    using size m by (simp add: Request_ByteSize_def)
  obtain r' where r': "ResourceRequest_Merge lib default_ResourceRequest
      (stream (ResourceRequest_Serialize lib r)) = Some (r', None)"
    using ResourceRequest_refused [OF laws id sizes_bound_length(2) [OF limit]] by blast
  have "resourcerequest ?x = default_ResourceRequest"
    by (simp add: default_Request_def resourcerequest_def)
  from resource_request.merge_message_refused [OF laws message_tables_ok(4) limit r' _ _ this tags(2), of "[]"]
  have refused: "merge_loop lib ?t None ?x (stream (WriteMessageToArray lib 2
      (ResourceRequest_ByteSize lib r) (ResourceRequest_Serialize lib r))) =
      Some (mutable_resourcerequest (\<lambda>_. r') ?x, None)" by simp
  note type = merge_value [OF laws message_tables_ok(4) wire_lawsD(6) [OF laws] _ _ tags(1), where v = ?n]
  have "merge_loop lib ?t None default_Request (stream ((if ?n \<noteq> 0 then WriteEnumToArray lib 1 ?n else []) @
      rest)) = merge_loop lib ?t None ?x (stream rest)" for rest
    by (rule merge_optional, rule type) simp_all
  with refused show ?thesis by (simp add: Request_Merge_def Request_Serialize_def m)
qed

lemma Message_refused:
  assumes laws: "wire_laws lib" and m: "msg_type m = REQUEST" "msg_rq m = kRequest q"
      "req_rt q = kResourceRequest r"
    and id: "\<not> VerifyUtf8String lib (rr_id r)" and size: "Message_ByteSize lib m < size_limit"
  shows "\<exists>m'. parse_from_string (Message_Merge lib) default_Message
    (serialize_as_string (Message_ByteSize lib m) (Message_Serialize lib m)) = Some (False, m')"
proof -
  have tag: "Message_fields lib (word_of_nat (8 * 2 + 2)) = Some (field_message lib (Request_Merge lib) request
        (\<lambda>s. mutable_request (\<lambda>_. s)), [], True)"
    by (simp add: Message_fields_def)
  have limit: "MessageSizeNoVirtual lib (Request_ByteSize lib q) < size_limit"
    using size m by (simp add: Message_ByteSize_def)
  obtain q' where q': "Request_Merge lib default_Request (stream (Request_Serialize lib q)) = Some (q', None)"
    using Request_refused [OF laws m(3) id sizes_bound_length(2) [OF limit]] by blast
  have "request default_Message = default_Request" by (simp add: default_Message_def request_def)
  from request_message.merge_message_refused [OF laws message_tables_ok(7) limit q' _ _ this tag, of "[]"] m size
  show ?thesis
    by (simp add: parse_from_string_def serialize_as_string_def Message_Merge_def Message_Serialize_def)
qed

end
