(* ===== verification/MessageCopy.thy ===== *)
theory MessageCopy
  imports MessageCodec
begin

text \<open>
  How the generated classes copy (\<open>src/src/common/rpc/proto/message.pb.cc\<close>): \<open>UnsafeMergeFrom\<close>
  takes over what differs from the default value, and \<open>CopyFrom\<close> is \<open>Clear\<close> and that. Client and
  planner copy the request and the reply they built into the message they send; the lemmas at
  the end say that such a copy is the original, which is how the models of the two write it.
\<close>

definition DeleteRequest_UnsafeMergeFrom ::
  "Request_DeleteRequest \<Rightarrow> Request_DeleteRequest \<Rightarrow> Request_DeleteRequest" where
  "DeleteRequest_UnsafeMergeFrom from_msg m =
     (let m1 = m\<lparr>dr_id := dr_id m @ dr_id from_msg\<rparr>
      in if dr_all from_msg then m1\<lparr>dr_all := dr_all from_msg\<rparr> else m1)"

definition ResourceRequest_UnsafeMergeFrom ::
  "Request_ResourceRequest \<Rightarrow> Request_ResourceRequest \<Rightarrow> Request_ResourceRequest" where
  "ResourceRequest_UnsafeMergeFrom from_msg m =
     (let m1 = m\<lparr>rr_files := rr_files m @ rr_files from_msg\<rparr>;
          m2 = (if rr_id from_msg \<noteq> [] then m1\<lparr>rr_id := rr_id from_msg\<rparr> else m1);
          m3 = (if rr_throughputmb from_msg \<noteq> 0
            then m2\<lparr>rr_throughputmb := rr_throughputmb from_msg\<rparr> else m2);
          m4 = (if rr_tstart from_msg \<noteq> 0 then m3\<lparr>rr_tstart := rr_tstart from_msg\<rparr> else m3)
      in if rr_durationsec from_msg \<noteq> 0
         then m4\<lparr>rr_durationsec := rr_durationsec from_msg\<rparr> else m4)"

definition ListJobsRequest_UnsafeMergeFrom ::
  "Request_ListJobsRequest \<Rightarrow> Request_ListJobsRequest \<Rightarrow> Request_ListJobsRequest" where
  "ListJobsRequest_UnsafeMergeFrom from_msg m =
     (if lj_regex from_msg \<noteq> [] then m\<lparr>lj_regex := lj_regex from_msg\<rparr> else m)"

definition Request_UnsafeMergeFrom :: "Request \<Rightarrow> Request \<Rightarrow> Request" where
  "Request_UnsafeMergeFrom from_msg m =
     (let m1 = (case req_rt from_msg of
            kResourceRequest x \<Rightarrow> mutable_resourcerequest (ResourceRequest_UnsafeMergeFrom x) m
          | kDeleteRequest x \<Rightarrow> mutable_deleterequest (DeleteRequest_UnsafeMergeFrom x) m
          | kListJobsRequest x \<Rightarrow> mutable_listjobsrequest (ListJobsRequest_UnsafeMergeFrom x) m
          | RT_NOT_SET \<Rightarrow> m)
      in if request_type_number (req_type from_msg) \<noteq> 0 then m1\<lparr>req_type := req_type from_msg\<rparr> else m1)"

definition Request_CopyFrom :: "Request \<Rightarrow> Request \<Rightarrow> Request" where
  "Request_CopyFrom from_msg m = Request_UnsafeMergeFrom from_msg default_Request"

definition Error_UnsafeMergeFrom :: "Error \<Rightarrow> Error \<Rightarrow> Error" where
  "Error_UnsafeMergeFrom from_msg m =
     (let m1 = (if error_type_number (err_error from_msg) \<noteq> 0
            then m\<lparr>err_error := err_error from_msg\<rparr> else m)
      in if err_msg from_msg \<noteq> [] then m1\<lparr>err_msg := err_msg from_msg\<rparr> else m1)"

definition Reply_UnsafeMergeFrom :: "Reply \<Rightarrow> Reply \<Rightarrow> Reply" where
  "Reply_UnsafeMergeFrom from_msg m =
     (let m1 = (if rep_rc from_msg \<noteq> 0 then m\<lparr>rep_rc := rep_rc from_msg\<rparr> else m);
          m2 = (case rep_error from_msg of
            Some e \<Rightarrow> m1\<lparr>rep_error := Some (Error_UnsafeMergeFrom e (reply_error m1))\<rparr>
          | None \<Rightarrow> m1)
      in if rep_return_msg from_msg \<noteq> [] then m2\<lparr>rep_return_msg := rep_return_msg from_msg\<rparr> else m2)"

definition Reply_CopyFrom :: "Reply \<Rightarrow> Reply \<Rightarrow> Reply" where
  "Reply_CopyFrom from_msg m = Reply_UnsafeMergeFrom from_msg default_Reply"

section \<open>Lemmas\<close>

lemma merge_into_default:
  "DeleteRequest_UnsafeMergeFrom d default_DeleteRequest = d"
  "ResourceRequest_UnsafeMergeFrom r default_ResourceRequest = r"
  "ListJobsRequest_UnsafeMergeFrom l default_ListJobsRequest = l"
  by (simp_all add: DeleteRequest_UnsafeMergeFrom_def ResourceRequest_UnsafeMergeFrom_def
      ListJobsRequest_UnsafeMergeFrom_def default_DeleteRequest_def default_ResourceRequest_def
      default_ListJobsRequest_def Let_def)

text \<open>A number without a name that is zero would come back as the name of zero.\<close>

lemma Request_CopyFrom_is_assignment:
  assumes "req_type from_msg \<noteq> OtherRequestType 0"
  shows "Request_CopyFrom from_msg m = from_msg"
proof -
  have "request_type_number (req_type from_msg) = 0 \<Longrightarrow> req_type from_msg = INVALID"
    using assms by (cases "req_type from_msg") auto
  then show ?thesis
    by (cases from_msg)
      (auto simp: Request_CopyFrom_def Request_UnsafeMergeFrom_def default_Request_def accessor_defs
        mutable_resourcerequest_def mutable_deleterequest_def mutable_listjobsrequest_def
        merge_into_default Let_def split: RtCase.splits)
qed

lemma Error_merge_into_default:
  assumes "err_error e \<noteq> OtherErrorType 0"
  shows "Error_UnsafeMergeFrom e default_Error = e"
proof -
  have "error_type_number (err_error e) = 0 \<Longrightarrow> err_error e = EARGS"
    using assms by (cases "err_error e") auto
  then show ?thesis
    by (cases e) (auto simp: Error_UnsafeMergeFrom_def default_Error_def Let_def)
qed

lemma Reply_CopyFrom_is_assignment:
  assumes "\<forall>e. rep_error from_msg = Some e \<longrightarrow> err_error e \<noteq> OtherErrorType 0"
  shows "Reply_CopyFrom from_msg m = from_msg"
  using assms by (cases from_msg; cases "rep_error from_msg")
    (auto simp: Reply_CopyFrom_def Reply_UnsafeMergeFrom_def default_Reply_def reply_error_def
      Error_merge_into_default Let_def)

end
