(* ===== verification/MessageObjects.thy ===== *)
theory MessageObjects
  imports MessageCopy
begin

text \<open>
  The generated messages as objects (\<open>src/src/common/rpc/proto/message.pb.h\<close>,
  \<open>message.pb.cc\<close>): a \<open>oneof\<close> is a case and a pointer, an embedded message is an object the
  outer one allocates, deletes, releases or takes over. The objects live in stores, one per
  class, over addresses that are never used twice; the read or the deletion of a deleted
  object, and the read of an object of another class, is \<open>None\<close>. The three members of the
  \<open>oneof rt\<close> have the same methods, which are one function of the member here. Arenas are not
  used by the program: \<open>GetArenaNoVirtual\<close> is null. The lemmas say that the methods do to the
  objects what the functions of \<open>Messages\<close> do to values, and what they allocate and free.
\<close>

datatype RtTag = ResourceTag | DeleteTag | ListTag

datatype RqTag = RequestTag | ReplyTag

datatype MemberObj = ResourceObj Request_ResourceRequest | DeleteObj Request_DeleteRequest
  | ListObj Request_ListJobsRequest

record RequestObj =
  ro_type :: Request_Type
  ro_rt :: "(RtTag \<times> nat) option"

record ReplyObj =
  po_rc :: "32 word"
  po_error :: "nat option"
  po_return_msg :: string

record MessageObj =
  mo_type :: Message_Type
  mo_rq :: "(RqTag \<times> nat) option"

record MsgStore =
  st_members :: "nat \<rightharpoonup> MemberObj"
  st_requests :: "nat \<rightharpoonup> RequestObj"
  st_errors :: "nat \<rightharpoonup> Error"
  st_replies :: "nat \<rightharpoonup> ReplyObj"
  st_next :: nat

section \<open>The members of a request\<close>

fun default_member :: "RtTag \<Rightarrow> MemberObj" where
  "default_member ResourceTag = ResourceObj default_ResourceRequest"
| "default_member DeleteTag = DeleteObj default_DeleteRequest"
| "default_member ListTag = ListObj default_ListJobsRequest"

definition new_member :: "MemberObj \<Rightarrow> MsgStore \<Rightarrow> nat \<times> MsgStore" where
  "new_member x s =
     (st_next s, s\<lparr>st_members := (st_members s)(st_next s \<mapsto> x), st_next := Suc (st_next s)\<rparr>)"

definition delete_member :: "nat \<Rightarrow> MsgStore \<Rightarrow> MsgStore option" where
  "delete_member b s =
     (if st_members s b = None then None else Some (s\<lparr>st_members := (st_members s)(b := None)\<rparr>))"

text \<open>\<open>set_has_rt\<close> and the assignment of the pointer, or \<open>clear_has_rt\<close>.\<close>

definition set_rt :: "nat \<Rightarrow> (RtTag \<times> nat) option \<Rightarrow> MsgStore \<Rightarrow> MsgStore option" where
  "set_rt a rt s =
     map_option (\<lambda>r. s\<lparr>st_requests := (st_requests s)(a \<mapsto> r\<lparr>ro_rt := rt\<rparr>)\<rparr>) (st_requests s a)"

definition rt_case :: "nat \<Rightarrow> MsgStore \<Rightarrow> (RtTag \<times> nat) option option" where
  "rt_case a s = map_option ro_rt (st_requests s a)"

definition clear_rt :: "nat \<Rightarrow> MsgStore \<Rightarrow> MsgStore option" where
  "clear_rt a s =
     do { rt \<leftarrow> rt_case a s;
          s1 \<leftarrow> (case rt of None \<Rightarrow> Some s | Some (tag, b) \<Rightarrow> delete_member b s);
          set_rt a None s1 }"

definition has_member :: "RtTag \<Rightarrow> nat \<Rightarrow> MsgStore \<Rightarrow> bool option" where
  "has_member tag a s =
     map_option (\<lambda>rt. case rt of None \<Rightarrow> False | Some (t, b) \<Rightarrow> t = tag) (rt_case a s)"

definition ptr_mutable_member :: "RtTag \<Rightarrow> nat \<Rightarrow> MsgStore \<Rightarrow> (nat \<times> MsgStore) option" where
  "ptr_mutable_member tag a s =
     do { has \<leftarrow> has_member tag a s;
          s1 \<leftarrow> (if \<not> has then
                  do { s1 \<leftarrow> clear_rt a s;
                       let (b, s2) = new_member (default_member tag) s1;
                       set_rt a (Some (tag, b)) s2 }
                else Some s);
          rt \<leftarrow> rt_case a s1;
          map_option (\<lambda>(t, b). (b, s1)) rt }"

definition ptr_release_member :: "RtTag \<Rightarrow> nat \<Rightarrow> MsgStore \<Rightarrow> (nat option \<times> MsgStore) option" where
  "ptr_release_member tag a s =
     do { has \<leftarrow> has_member tag a s;
          if has then do { rt \<leftarrow> rt_case a s; s1 \<leftarrow> set_rt a None s; Some (map_option snd rt, s1) }
          else Some (None, s) }"

definition ptr_set_allocated_member ::
  "RtTag \<Rightarrow> nat option \<Rightarrow> nat \<Rightarrow> MsgStore \<Rightarrow> MsgStore option" where
  "ptr_set_allocated_member tag p a s =
     do { s1 \<leftarrow> clear_rt a s;
          case p of None \<Rightarrow> Some s1 | Some b \<Rightarrow> set_rt a (Some (tag, b)) s1 }"

definition ptr_clear_member :: "RtTag \<Rightarrow> nat \<Rightarrow> MsgStore \<Rightarrow> MsgStore option" where
  "ptr_clear_member tag a s =
     do { has \<leftarrow> has_member tag a s;
          if has then clear_rt a s else Some s }"

text \<open>A write through the pointer \<open>mutable_\<close> returned, and a read through a reference.\<close>

definition write_member :: "nat \<Rightarrow> (MemberObj \<Rightarrow> MemberObj) \<Rightarrow> MsgStore \<Rightarrow> MsgStore option" where
  "write_member b f s =
     map_option (\<lambda>x. s\<lparr>st_members := (st_members s)(b \<mapsto> f x)\<rparr>) (st_members s b)"

fun member_value :: "RtTag \<Rightarrow> MemberObj \<Rightarrow> RtCase option" where
  "member_value ResourceTag (ResourceObj x) = Some (kResourceRequest x)"
| "member_value DeleteTag (DeleteObj x) = Some (kDeleteRequest x)"
| "member_value ListTag (ListObj x) = Some (kListJobsRequest x)"
| "member_value ResourceTag (DeleteObj y) = None"
| "member_value ResourceTag (ListObj z) = None"
| "member_value DeleteTag (ResourceObj x) = None"
| "member_value DeleteTag (ListObj z) = None"
| "member_value ListTag (ResourceObj x) = None"
| "member_value ListTag (DeleteObj y) = None"

fun default_case :: "RtTag \<Rightarrow> RtCase" where
  "default_case ResourceTag = kResourceRequest default_ResourceRequest"
| "default_case DeleteTag = kDeleteRequest default_DeleteRequest"
| "default_case ListTag = kListJobsRequest default_ListJobsRequest"

definition ptr_member :: "RtTag \<Rightarrow> nat \<Rightarrow> MsgStore \<Rightarrow> RtCase option" where
  "ptr_member tag a s =
     do { rt \<leftarrow> rt_case a s;
          case rt of None \<Rightarrow> Some (default_case tag)
          | Some (t, b) \<Rightarrow>
              if t = tag then do { x \<leftarrow> st_members s b; member_value tag x } else Some (default_case tag) }"

section \<open>Requests and replies\<close>

definition new_Request :: "MsgStore \<Rightarrow> nat \<times> MsgStore" where
  "new_Request s =
     (st_next s, s\<lparr>st_requests := (st_requests s)(st_next s \<mapsto> \<lparr>ro_type = INVALID, ro_rt = None\<rparr>),
                   st_next := Suc (st_next s)\<rparr>)"

text \<open>\<open>delete\<close> runs the destructor, which clears the \<open>oneof\<close>.\<close>

definition delete_Request :: "nat \<Rightarrow> MsgStore \<Rightarrow> MsgStore option" where
  "delete_Request a s =
     map_option (\<lambda>s1. s1\<lparr>st_requests := (st_requests s1)(a := None)\<rparr>) (clear_rt a s)"

definition new_Reply :: "MsgStore \<Rightarrow> nat \<times> MsgStore" where
  "new_Reply s =
     (st_next s,
      s\<lparr>st_replies := (st_replies s)(st_next s \<mapsto> \<lparr>po_rc = 0, po_error = None, po_return_msg = []\<rparr>),
        st_next := Suc (st_next s)\<rparr>)"

definition delete_Error :: "nat option \<Rightarrow> MsgStore \<Rightarrow> MsgStore option" where
  "delete_Error p s =
     (case p of None \<Rightarrow> Some s
      | Some e \<Rightarrow> if st_errors s e = None then None
          else Some (s\<lparr>st_errors := (st_errors s)(e := None)\<rparr>))"

definition delete_Reply :: "nat \<Rightarrow> MsgStore \<Rightarrow> MsgStore option" where
  "delete_Reply a s =
     do { r \<leftarrow> st_replies s a;
          s1 \<leftarrow> delete_Error (po_error r) s;
          Some (s1\<lparr>st_replies := (st_replies s1)(a := None)\<rparr>) }"

definition write_Reply :: "nat \<Rightarrow> (ReplyObj \<Rightarrow> ReplyObj) \<Rightarrow> MsgStore \<Rightarrow> MsgStore option" where
  "write_Reply a f s =
     map_option (\<lambda>r. s\<lparr>st_replies := (st_replies s)(a \<mapsto> f r)\<rparr>) (st_replies s a)"

definition ptr_mutable_error :: "nat \<Rightarrow> MsgStore \<Rightarrow> (nat \<times> MsgStore) option" where
  "ptr_mutable_error a s =
     do { r \<leftarrow> st_replies s a;
          case po_error r of
            None \<Rightarrow>
              let e = st_next s;
                  s1 = s\<lparr>st_errors := (st_errors s)(e \<mapsto> default_Error), st_next := Suc e\<rparr>
              in map_option (Pair e) (write_Reply a (\<lambda>r. r\<lparr>po_error := Some e\<rparr>) s1)
          | Some e \<Rightarrow> Some (e, s) }"

definition ptr_release_error :: "nat \<Rightarrow> MsgStore \<Rightarrow> (nat option \<times> MsgStore) option" where
  "ptr_release_error a s =
     do { r \<leftarrow> st_replies s a;
          map_option (Pair (po_error r)) (write_Reply a (\<lambda>r. r\<lparr>po_error := None\<rparr>) s) }"

definition ptr_set_allocated_error :: "nat option \<Rightarrow> nat \<Rightarrow> MsgStore \<Rightarrow> MsgStore option" where
  "ptr_set_allocated_error p a s =
     do { r \<leftarrow> st_replies s a;
          s1 \<leftarrow> delete_Error (po_error r) s;
          write_Reply a (\<lambda>r. r\<lparr>po_error := p\<rparr>) s1 }"

definition ptr_clear_error :: "nat \<Rightarrow> MsgStore \<Rightarrow> MsgStore option" where
  "ptr_clear_error a s = ptr_set_allocated_error None a s"

definition write_Error :: "nat \<Rightarrow> (Error \<Rightarrow> Error) \<Rightarrow> MsgStore \<Rightarrow> MsgStore option" where
  "write_Error e f s =
     map_option (\<lambda>x. s\<lparr>st_errors := (st_errors s)(e \<mapsto> f x)\<rparr>) (st_errors s e)"

definition Reply_Clear :: "nat \<Rightarrow> MsgStore \<Rightarrow> MsgStore option" where
  "Reply_Clear a s =
     do { s1 \<leftarrow> ptr_clear_error a s;
          write_Reply a (\<lambda>r. r\<lparr>po_rc := 0, po_return_msg := []\<rparr>) s1 }"

text \<open>The source of a merge is read only: its value is the first argument.\<close>

definition ptr_Reply_UnsafeMergeFrom :: "Reply \<Rightarrow> nat \<Rightarrow> MsgStore \<Rightarrow> MsgStore option" where
  "ptr_Reply_UnsafeMergeFrom from_msg a s =
     do { s1 \<leftarrow> (if rep_rc from_msg \<noteq> 0 then write_Reply a (\<lambda>r. r\<lparr>po_rc := rep_rc from_msg\<rparr>) s
               else Some s);
          s2 \<leftarrow> (case rep_error from_msg of
                Some x \<Rightarrow>
                  do { (e, s') \<leftarrow> ptr_mutable_error a s1; write_Error e (Error_UnsafeMergeFrom x) s' }
              | None \<Rightarrow> Some s1);
          if rep_return_msg from_msg \<noteq> []
          then write_Reply a (\<lambda>r. r\<lparr>po_return_msg := rep_return_msg from_msg\<rparr>) s2 else Some s2 }"

definition ptr_Reply_CopyFrom :: "Reply \<Rightarrow> nat \<Rightarrow> MsgStore \<Rightarrow> MsgStore option" where
  "ptr_Reply_CopyFrom from_msg a s =
     do { s1 \<leftarrow> Reply_Clear a s; ptr_Reply_UnsafeMergeFrom from_msg a s1 }"

definition Request_Clear :: "nat \<Rightarrow> MsgStore \<Rightarrow> MsgStore option" where
  "Request_Clear a s =
     do { s1 \<leftarrow> clear_rt a s;
          map_option (\<lambda>r. s1\<lparr>st_requests := (st_requests s1)(a \<mapsto> r\<lparr>ro_type := INVALID\<rparr>)\<rparr>)
            (st_requests s1 a) }"

section \<open>Messages\<close>

definition new_Message :: MessageObj where
  "new_Message = \<lparr>mo_type = REQUEST, mo_rq = None\<rparr>"

definition rq_is :: "RqTag \<Rightarrow> MessageObj \<Rightarrow> bool" where
  "rq_is tag m = (case mo_rq m of None \<Rightarrow> False | Some (t, a) \<Rightarrow> t = tag)"

definition delete_rq :: "MessageObj \<Rightarrow> MsgStore \<Rightarrow> MsgStore option" where
  "delete_rq m s =
     (case mo_rq m of None \<Rightarrow> Some s
      | Some (RequestTag, a) \<Rightarrow> delete_Request a s
      | Some (ReplyTag, a) \<Rightarrow> delete_Reply a s)"

definition clear_rq :: "MessageObj \<Rightarrow> MsgStore \<Rightarrow> (MessageObj \<times> MsgStore) option" where
  "clear_rq m s = map_option (Pair (m\<lparr>mo_rq := None\<rparr>)) (delete_rq m s)"

text \<open>The destructor, for the message on the stack.\<close>

definition delete_Message :: "MessageObj \<Rightarrow> MsgStore \<Rightarrow> MsgStore option" where
  "delete_Message m s = map_option snd (clear_rq m s)"

definition Message_Clear :: "MessageObj \<Rightarrow> MsgStore \<Rightarrow> (MessageObj \<times> MsgStore) option" where
  "Message_Clear m s = clear_rq (m\<lparr>mo_type := REQUEST\<rparr>) s"

definition ptr_mutable_rq ::
  "RqTag \<Rightarrow> (MsgStore \<Rightarrow> nat \<times> MsgStore) \<Rightarrow> MessageObj \<Rightarrow> MsgStore
    \<Rightarrow> (nat \<times> MessageObj \<times> MsgStore) option" where
  "ptr_mutable_rq tag new_object m s =
     do { (m1, s1) \<leftarrow> (if \<not> rq_is tag m then
            do { (m1, s1) \<leftarrow> clear_rq m s;
                 let (a, s2) = new_object s1;
                 Some (m1\<lparr>mo_rq := Some (tag, a)\<rparr>, s2) }
          else Some (m, s));
          map_option (\<lambda>(t, a). (a, m1, s1)) (mo_rq m1) }"

definition ptr_mutable_request :: "MessageObj \<Rightarrow> MsgStore \<Rightarrow> (nat \<times> MessageObj \<times> MsgStore) option" where
  "ptr_mutable_request m s = ptr_mutable_rq RequestTag new_Request m s"

definition ptr_mutable_reply :: "MessageObj \<Rightarrow> MsgStore \<Rightarrow> (nat \<times> MessageObj \<times> MsgStore) option" where
  "ptr_mutable_reply m s = ptr_mutable_rq ReplyTag new_Reply m s"

text \<open>\<open>release_request\<close> and \<open>release_reply\<close>: the caller owns the object it gets.\<close>

definition ptr_release_rq :: "RqTag \<Rightarrow> MessageObj \<Rightarrow> nat option \<times> MessageObj" where
  "ptr_release_rq tag m =
     (if rq_is tag m then (map_option snd (mo_rq m), m\<lparr>mo_rq := None\<rparr>) else (None, m))"

definition ptr_set_allocated_rq ::
  "RqTag \<Rightarrow> nat option \<Rightarrow> MessageObj \<Rightarrow> MsgStore \<Rightarrow> (MessageObj \<times> MsgStore) option" where
  "ptr_set_allocated_rq tag p m s =
     do { (m1, s1) \<leftarrow> clear_rq m s;
          case p of None \<Rightarrow> Some (m1, s1) | Some a \<Rightarrow> Some (m1\<lparr>mo_rq := Some (tag, a)\<rparr>, s1) }"

definition ptr_clear_rq :: "RqTag \<Rightarrow> MessageObj \<Rightarrow> MsgStore \<Rightarrow> (MessageObj \<times> MsgStore) option" where
  "ptr_clear_rq tag m s = (if rq_is tag m then clear_rq m s else Some (m, s))"

text \<open>\<open>Swap\<close> exchanges the fields; a message swapped with itself stays as it is.\<close>

definition Message_InternalSwap :: "MessageObj \<Rightarrow> MessageObj \<Rightarrow> MessageObj \<times> MessageObj" where
  "Message_InternalSwap m other =
     (m\<lparr>mo_type := mo_type other, mo_rq := mo_rq other\<rparr>,
      other\<lparr>mo_type := mo_type m, mo_rq := mo_rq m\<rparr>)"

definition Request_InternalSwap :: "nat \<Rightarrow> nat \<Rightarrow> MsgStore \<Rightarrow> MsgStore option" where
  "Request_InternalSwap a other s =
     do { r \<leftarrow> st_requests s a; r' \<leftarrow> st_requests s other;
          Some (s\<lparr>st_requests := (st_requests s)
            (a \<mapsto> r\<lparr>ro_type := ro_type r', ro_rt := ro_rt r'\<rparr>,
             other \<mapsto> r'\<lparr>ro_type := ro_type r, ro_rt := ro_rt r\<rparr>)\<rparr>) }"

definition Reply_InternalSwap :: "nat \<Rightarrow> nat \<Rightarrow> MsgStore \<Rightarrow> MsgStore option" where
  "Reply_InternalSwap a other s =
     do { r \<leftarrow> st_replies s a; r' \<leftarrow> st_replies s other;
          Some (s\<lparr>st_replies := (st_replies s)
            (a \<mapsto> r\<lparr>po_rc := po_rc r', po_error := po_error r', po_return_msg := po_return_msg r'\<rparr>,
             other \<mapsto> r'\<lparr>po_rc := po_rc r, po_error := po_error r, po_return_msg := po_return_msg r\<rparr>)\<rparr>) }"

section \<open>What the objects stand for\<close>

text \<open>
  \<open>rep_message s0 s m M\<close>: the store \<open>s\<close> is \<open>s0\<close> with the objects of the message \<open>m\<close>, no more and
  no less, and \<open>m\<close> with them has the value \<open>M\<close>. \<open>fresh_store\<close>: the next address is new in every store.
\<close>

definition fresh_store :: "MsgStore \<Rightarrow> bool" where
  "fresh_store s \<longleftrightarrow> (\<forall>a. st_next s \<le> a \<longrightarrow>
     st_members s a = None \<and> st_requests s a = None \<and> st_errors s a = None \<and> st_replies s a = None)"

definition rep_rt :: "(nat \<rightharpoonup> MemberObj) \<Rightarrow> (nat \<rightharpoonup> MemberObj) \<Rightarrow> (RtTag \<times> nat) option \<Rightarrow> RtCase \<Rightarrow> bool" where
  "rep_rt mems0 mems rt R =
     (case rt of None \<Rightarrow> R = RT_NOT_SET \<and> mems = mems0
      | Some (tag, b) \<Rightarrow> mems0 b = None \<and>
          (\<exists>x. member_value tag x = Some R \<and> mems = mems0(b \<mapsto> x)))"

definition rep_request :: "MsgStore \<Rightarrow> MsgStore \<Rightarrow> nat \<Rightarrow> Request \<Rightarrow> bool" where
  "rep_request s0 s a R \<longleftrightarrow> st_requests s0 a = None \<and>
     (\<exists>r. st_requests s = (st_requests s0)(a \<mapsto> r) \<and> ro_type r = req_type R \<and>
       rep_rt (st_members s0) (st_members s) (ro_rt r) (req_rt R)) \<and>
     st_errors s = st_errors s0 \<and> st_replies s = st_replies s0"

definition rep_error_obj ::
  "(nat \<rightharpoonup> Error) \<Rightarrow> (nat \<rightharpoonup> Error) \<Rightarrow> nat option \<Rightarrow> Error option \<Rightarrow> bool" where
  "rep_error_obj errs0 errs p E =
     (case p of None \<Rightarrow> E = None \<and> errs = errs0
      | Some e \<Rightarrow> errs0 e = None \<and> (\<exists>x. E = Some x \<and> errs = errs0(e \<mapsto> x)))"

definition rep_reply :: "MsgStore \<Rightarrow> MsgStore \<Rightarrow> nat \<Rightarrow> Reply \<Rightarrow> bool" where
  "rep_reply s0 s a R \<longleftrightarrow> st_replies s0 a = None \<and>
     (\<exists>r. st_replies s = (st_replies s0)(a \<mapsto> r) \<and> po_rc r = rep_rc R \<and>
       po_return_msg r = rep_return_msg R \<and>
       rep_error_obj (st_errors s0) (st_errors s) (po_error r) (rep_error R)) \<and>
     st_requests s = st_requests s0 \<and> st_members s = st_members s0"

definition same_objects :: "MsgStore \<Rightarrow> MsgStore \<Rightarrow> bool" where
  "same_objects s0 s \<longleftrightarrow> st_members s = st_members s0 \<and> st_requests s = st_requests s0 \<and>
     st_errors s = st_errors s0 \<and> st_replies s = st_replies s0"

definition rep_message :: "MsgStore \<Rightarrow> MsgStore \<Rightarrow> MessageObj \<Rightarrow> Message \<Rightarrow> bool" where
  "rep_message s0 s m M \<longleftrightarrow> fresh_store s \<and> mo_type m = msg_type M \<and>
     (case mo_rq m of None \<Rightarrow> msg_rq M = RQ_NOT_SET \<and> same_objects s0 s
      | Some (RequestTag, a) \<Rightarrow> (\<exists>R. msg_rq M = kRequest R \<and> rep_request s0 s a R)
      | Some (ReplyTag, a) \<Rightarrow> (\<exists>R. msg_rq M = kReply R \<and> rep_reply s0 s a R))"

lemmas st_defs = set_rt_def rt_case_def delete_member_def delete_Error_def write_Reply_def write_member_def

lemma fresh_next:
  "fresh_store s \<Longrightarrow> st_members s (st_next s) = None" "fresh_store s \<Longrightarrow> st_requests s (st_next s) = None"
  "fresh_store s \<Longrightarrow> st_errors s (st_next s) = None" "fresh_store s \<Longrightarrow> st_replies s (st_next s) = None"
  by (simp_all add: fresh_store_def)

lemma rep_rt_update [simp]:
  "rep_rt mems (mems(b \<mapsto> x)) (Some (tag, b)) R \<longleftrightarrow> mems b = None \<and> member_value tag x = Some R"
  "rep_rt mems mems None R \<longleftrightarrow> R = RT_NOT_SET"
  by (auto simp: rep_rt_def dest: map_upd_eqD1)

subsection \<open>Deleting\<close>

text \<open>Writing through a pointer to a live object keeps the next address new.\<close>

lemma fresh_write:
  "fresh_store s \<Longrightarrow> st_members s a \<noteq> None \<Longrightarrow> fresh_store (s\<lparr>st_members := (st_members s)(a \<mapsto> x)\<rparr>)"
  "fresh_store s \<Longrightarrow> st_requests s a \<noteq> None \<Longrightarrow> fresh_store (s\<lparr>st_requests := (st_requests s)(a \<mapsto> q)\<rparr>)"
  "fresh_store s \<Longrightarrow> st_errors s a \<noteq> None \<Longrightarrow> fresh_store (s\<lparr>st_errors := (st_errors s)(a \<mapsto> e)\<rparr>)"
  "fresh_store s \<Longrightarrow> st_replies s a \<noteq> None \<Longrightarrow> fresh_store (s\<lparr>st_replies := (st_replies s)(a \<mapsto> r)\<rparr>)"
  unfolding fresh_store_def by auto

lemma fresh_delete:
  "fresh_store s \<Longrightarrow> fresh_store (s\<lparr>st_members := (st_members s)(a := None)\<rparr>)"
  "fresh_store s \<Longrightarrow> fresh_store (s\<lparr>st_requests := (st_requests s)(a := None)\<rparr>)"
  "fresh_store s \<Longrightarrow> fresh_store (s\<lparr>st_errors := (st_errors s)(a := None)\<rparr>)"
  "fresh_store s \<Longrightarrow> fresh_store (s\<lparr>st_replies := (st_replies s)(a := None)\<rparr>)"
  unfolding fresh_store_def by auto

lemma rep_requestE:
  assumes "rep_request s0 s a R"
  obtains r where "st_requests s0 a = None" "st_requests s = (st_requests s0)(a \<mapsto> r)"
    "ro_type r = req_type R" "rep_rt (st_members s0) (st_members s) (ro_rt r) (req_rt R)"
    "st_errors s = st_errors s0" "st_replies s = st_replies s0"
  using assms by (auto simp: rep_request_def)

lemma clear_rt_rep:
  assumes rep: "rep_request s0 s a R" and fresh_store: "fresh_store s"
  shows "\<exists>s'. clear_rt a s = Some s' \<and> rep_request s0 s' a (R\<lparr>req_rt := RT_NOT_SET\<rparr>) \<and> fresh_store s' \<and>
    st_members s' = st_members s0 \<and> rt_case a s' = Some None"
proof -
  obtain r where r: "st_requests s0 a = None" "st_requests s = (st_requests s0)(a \<mapsto> r)"
    "ro_type r = req_type R" "rep_rt (st_members s0) (st_members s) (ro_rt r) (req_rt R)"
    "st_errors s = st_errors s0" "st_replies s = st_replies s0"
    using rep by (rule rep_requestE)
  obtain s1 where s1: "(case ro_rt r of None \<Rightarrow> Some s | Some (tag, b) \<Rightarrow> delete_member b s) = Some s1"
    "st_members s1 = st_members s0" "st_requests s1 = st_requests s" "st_errors s1 = st_errors s"
    "st_replies s1 = st_replies s" "fresh_store s1"
  proof (cases "ro_rt r")
    case None
    with r(4) fresh_store that show ?thesis by (simp add: rep_rt_def)
  next
    case (Some p)
    with r(4) obtain t b x where "p = (t, b)" "st_members s0 b = None" "st_members s = (st_members s0)(b \<mapsto> x)"
      by (cases p) (auto simp: rep_rt_def)
    with Some that [of "s\<lparr>st_members := (st_members s)(b := None)\<rparr>"] fresh_delete(1) [OF fresh_store, of b]
    show ?thesis by (simp add: delete_member_def fun_upd_idem)
  qed
  let ?s = "s1\<lparr>st_requests := (st_requests s1)(a \<mapsto> r\<lparr>ro_rt := None\<rparr>)\<rparr>"
  have "clear_rt a s = Some ?s" using s1(1,3) r(2) by (simp add: clear_rt_def rt_case_def set_rt_def)
  moreover have "fresh_store ?s" using s1(3,6) r(2) by (intro fresh_write(2)) simp_all
  moreover have "rep_request s0 ?s a (R\<lparr>req_rt := RT_NOT_SET\<rparr>)"
    unfolding rep_request_def using r s1 by (intro conjI exI [of _ "r\<lparr>ro_rt := None\<rparr>"]) (simp_all add: rep_rt_def)
  ultimately show ?thesis using s1(2) by (simp add: rt_case_def)
qed

lemma delete_Request_rep:
  assumes "rep_request s0 s a R" and "fresh_store s"
  shows "\<exists>s'. delete_Request a s = Some s' \<and> same_objects s0 s' \<and> fresh_store s'"
proof -
  obtain s1 where s1: "clear_rt a s = Some s1" "rep_request s0 s1 a (R\<lparr>req_rt := RT_NOT_SET\<rparr>)" "fresh_store s1"
    "st_members s1 = st_members s0"
    using clear_rt_rep [OF assms] by blast
  obtain r where "st_requests s0 a = None" "st_requests s1 = (st_requests s0)(a \<mapsto> r)"
    "st_errors s1 = st_errors s0" "st_replies s1 = st_replies s0"
    using s1(2) by (rule rep_requestE)
  with s1(1,4) fresh_delete(2) [OF s1(3), of a] show ?thesis
    by (simp add: delete_Request_def same_objects_def fun_upd_idem)
qed

lemma delete_Error_rep:
  assumes "rep_error_obj (st_errors s0) (st_errors s) p E" and "fresh_store s"
  shows "\<exists>s'. delete_Error p s = Some s' \<and> st_errors s' = st_errors s0 \<and> fresh_store s' \<and>
    st_members s' = st_members s \<and> st_requests s' = st_requests s \<and> st_replies s' = st_replies s"
proof (cases p)
  case None
  with assms show ?thesis by (simp add: delete_Error_def rep_error_obj_def)
next
  case (Some e)
  with assms fresh_delete(3) [OF assms(2), of e] show ?thesis
    by (auto simp: delete_Error_def rep_error_obj_def fun_upd_idem)
qed

lemma delete_Reply_rep:
  assumes "rep_reply s0 s a R" and "fresh_store s"
  shows "\<exists>s'. delete_Reply a s = Some s' \<and> same_objects s0 s' \<and> fresh_store s'"
proof -
  obtain r where r: "st_replies s0 a = None" "st_replies s = (st_replies s0)(a \<mapsto> r)"
    "rep_error_obj (st_errors s0) (st_errors s) (po_error r) (rep_error R)"
    "st_requests s = st_requests s0" "st_members s = st_members s0"
    using assms(1) by (auto simp: rep_reply_def)
  obtain s1 where s1: "delete_Error (po_error r) s = Some s1" "st_errors s1 = st_errors s0" "fresh_store s1"
    "st_members s1 = st_members s" "st_requests s1 = st_requests s" "st_replies s1 = st_replies s"
    using delete_Error_rep [OF r(3) assms(2)] by blast
  with r fresh_delete(4) [OF s1(3), of a] show ?thesis
    by (simp add: delete_Reply_def same_objects_def fun_upd_idem)
qed

lemma rep_message_cases:
  assumes "rep_message s0 s m M"
  obtains (none) "mo_rq m = None" "msg_rq M = RQ_NOT_SET" "same_objects s0 s"
  | (req) a R where "mo_rq m = Some (RequestTag, a)" "msg_rq M = kRequest R" "rep_request s0 s a R"
  | (rep) a R where "mo_rq m = Some (ReplyTag, a)" "msg_rq M = kReply R" "rep_reply s0 s a R"
proof (cases "mo_rq m")
  case None
  with assms none show ?thesis by (simp add: rep_message_def)
next
  case (Some p)
  obtain t a where p: "p = (t, a)" by (cases p)
  show ?thesis
    using assms Some p req rep by (cases t) (auto simp: rep_message_def)
qed

lemma rep_message_fresh: "rep_message s0 s m M \<Longrightarrow> fresh_store s"
  by (simp add: rep_message_def)

lemma clear_rq_rep:
  assumes "rep_message s0 s m M"
  shows "\<exists>s'. clear_rq m s = Some (m\<lparr>mo_rq := None\<rparr>, s') \<and> fresh_store s' \<and> same_objects s0 s' \<and>
    rep_message s0 s' (m\<lparr>mo_rq := None\<rparr>) (M\<lparr>msg_rq := RQ_NOT_SET\<rparr>)"
proof -
  obtain s' where "delete_rq m s = Some s'" "same_objects s0 s'" "fresh_store s'"
    using assms
  proof (cases rule: rep_message_cases)
    case none
    with that rep_message_fresh [OF assms] show ?thesis by (simp add: delete_rq_def)
  next
    case (req a R)
    with that delete_Request_rep rep_message_fresh [OF assms] show ?thesis by (fastforce simp: delete_rq_def)
  next
    case (rep a R)
    with that delete_Reply_rep rep_message_fresh [OF assms] show ?thesis by (fastforce simp: delete_rq_def)
  qed
  with assms show ?thesis by (auto simp: clear_rq_def rep_message_def)
qed

text \<open>The destructor frees exactly the objects of the message.\<close>

lemma delete_Message_rep:
  "rep_message s0 s m M \<Longrightarrow> \<exists>s'. delete_Message m s = Some s' \<and> same_objects s0 s' \<and> fresh_store s'"
  using clear_rq_rep [of s0 s m M] by (auto simp: delete_Message_def)

subsection \<open>Access\<close>

lemma rq_is_iff:
  assumes "rep_message s0 s m M"
  shows "rq_is RequestTag m \<longleftrightarrow> has_request M" and "rq_is ReplyTag m \<longleftrightarrow> has_reply M"
  by (cases rule: rep_message_cases [OF assms]; simp add: rq_is_def has_request_def has_reply_def)+

lemma ptr_mutable_request_rep:
  assumes "rep_message s0 s m M"
  shows "\<exists>a m' s'. ptr_mutable_request m s = Some (a, m', s') \<and> mo_rq m' = Some (RequestTag, a) \<and>
    rep_message s0 s' m' (mutable_request (\<lambda>r. r) M)"
proof (cases "rq_is RequestTag m")
  case True
  then obtain a where "mo_rq m = Some (RequestTag, a)" by (auto simp: rq_is_def split: option.splits)
  with assms True show ?thesis
    by (auto simp: ptr_mutable_request_def ptr_mutable_rq_def rep_message_def mutable_request_def request_def)
next
  case False
  then have no: "request M = default_Request"
    using rq_is_iff(1) [OF assms] by (simp add: has_request_def request_def split: RqCase.splits)
  obtain s1 where s1: "clear_rq m s = Some (m\<lparr>mo_rq := None\<rparr>, s1)" "fresh_store s1" "same_objects s0 s1"
    using clear_rq_rep [OF assms] by blast
  show ?thesis
    using False s1 no assms fresh_next [OF s1(2)]
    by (auto simp: ptr_mutable_request_def ptr_mutable_rq_def new_Request_def rep_message_def
        mutable_request_def rep_request_def same_objects_def rep_rt_def default_Request_def fresh_store_def)
qed

lemma ptr_mutable_reply_rep:
  assumes "rep_message s0 s m M"
  shows "\<exists>a m' s'. ptr_mutable_reply m s = Some (a, m', s') \<and> mo_rq m' = Some (ReplyTag, a) \<and>
    rep_message s0 s' m' (mutable_reply (\<lambda>r. r) M)"
proof (cases "rq_is ReplyTag m")
  case True
  then obtain a where "mo_rq m = Some (ReplyTag, a)" by (auto simp: rq_is_def split: option.splits)
  with assms True show ?thesis
    by (auto simp: ptr_mutable_reply_def ptr_mutable_rq_def rep_message_def mutable_reply_def reply_def)
next
  case False
  then have no: "reply M = default_Reply"
    using rq_is_iff(2) [OF assms] by (simp add: has_reply_def reply_def split: RqCase.splits)
  obtain s1 where s1: "clear_rq m s = Some (m\<lparr>mo_rq := None\<rparr>, s1)" "fresh_store s1" "same_objects s0 s1"
    using clear_rq_rep [OF assms] by blast
  show ?thesis
    using False s1 no assms fresh_next [OF s1(2)]
    by (auto simp: ptr_mutable_reply_def ptr_mutable_rq_def new_Reply_def rep_message_def
        mutable_reply_def rep_reply_def same_objects_def rep_error_obj_def default_Reply_def fresh_store_def)
qed

lemma rep_replyE:
  assumes "rep_reply s0 s a R"
  obtains r where "st_replies s0 a = None" "st_replies s = (st_replies s0)(a \<mapsto> r)"
    "po_rc r = rep_rc R" "po_return_msg r = rep_return_msg R"
    "rep_error_obj (st_errors s0) (st_errors s) (po_error r) (rep_error R)"
    "st_requests s = st_requests s0" "st_members s = st_members s0"
  using assms by (auto simp: rep_reply_def)

lemma write_Reply_rep:
  assumes rep: "rep_reply s0 s a R" and fresh_store: "fresh_store s"
    and F: "\<And>r. po_rc r = rep_rc R \<Longrightarrow> po_return_msg r = rep_return_msg R \<Longrightarrow>
      po_rc (F r) = rep_rc R' \<and> po_return_msg (F r) = rep_return_msg R' \<and> po_error (F r) = po_error r"
    and "rep_error R' = rep_error R"
  shows "\<exists>s'. write_Reply a F s = Some s' \<and> rep_reply s0 s' a R' \<and> fresh_store s'"
proof -
  obtain r where r: "st_replies s0 a = None" "st_replies s = (st_replies s0)(a \<mapsto> r)"
    "po_rc r = rep_rc R" "po_return_msg r = rep_return_msg R"
    "rep_error_obj (st_errors s0) (st_errors s) (po_error r) (rep_error R)"
    "st_requests s = st_requests s0" "st_members s = st_members s0"
    using rep by (rule rep_replyE)
  let ?s = "s\<lparr>st_replies := (st_replies s)(a \<mapsto> F r)\<rparr>"
  have "write_Reply a F s = Some ?s" using r(2) by (simp add: write_Reply_def)
  moreover have "rep_reply s0 ?s a R'"
    unfolding rep_reply_def using r F [OF r(3,4)] assms(4) by (intro conjI exI [of _ "F r"]) simp_all
  moreover have "fresh_store ?s" using fresh_store r(2) by (intro fresh_write(4)) simp_all
  ultimately show ?thesis by blast
qed

lemma ptr_set_allocated_error_None_rep:
  assumes rep: "rep_reply s0 s a R" and fresh_store: "fresh_store s"
  shows "\<exists>s'. ptr_clear_error a s = Some s' \<and> rep_reply s0 s' a (R\<lparr>rep_error := None\<rparr>) \<and> fresh_store s'"
proof -
  obtain r where r: "st_replies s0 a = None" "st_replies s = (st_replies s0)(a \<mapsto> r)"
    "po_rc r = rep_rc R" "po_return_msg r = rep_return_msg R"
    "rep_error_obj (st_errors s0) (st_errors s) (po_error r) (rep_error R)"
    "st_requests s = st_requests s0" "st_members s = st_members s0"
    using rep by (rule rep_replyE)
  obtain s1 where s1: "delete_Error (po_error r) s = Some s1" "st_errors s1 = st_errors s0" "fresh_store s1"
    "st_members s1 = st_members s" "st_requests s1 = st_requests s" "st_replies s1 = st_replies s"
    using delete_Error_rep [OF r(5) fresh_store] by blast
  let ?s = "s1\<lparr>st_replies := (st_replies s1)(a \<mapsto> r\<lparr>po_error := None\<rparr>)\<rparr>"
  have "ptr_clear_error a s = Some ?s"
    using r(2) s1 by (simp add: ptr_clear_error_def ptr_set_allocated_error_def write_Reply_def)
  moreover have "rep_reply s0 ?s a (R\<lparr>rep_error := None\<rparr>)"
    unfolding rep_reply_def using r s1
    by (intro conjI exI [of _ "r\<lparr>po_error := None\<rparr>"]) (simp_all add: rep_error_obj_def)
  moreover have "fresh_store ?s" using s1(3,6) r(2) by (intro fresh_write(4)) simp_all
  ultimately show ?thesis by blast
qed

lemma ptr_mutable_error_rep:
  assumes rep: "rep_reply s0 s a R" and fresh_store: "fresh_store s"
  shows "\<exists>e s'. ptr_mutable_error a s = Some (e, s') \<and> fresh_store s' \<and>
    rep_reply s0 s' a (R\<lparr>rep_error := Some (reply_error R)\<rparr>) \<and>
    (\<forall>f. \<exists>s2. write_Error e f s' = Some s2 \<and> fresh_store s2 \<and>
      rep_reply s0 s2 a (R\<lparr>rep_error := Some (f (reply_error R))\<rparr>))"
proof -
  obtain r where r: "st_replies s0 a = None" "st_replies s = (st_replies s0)(a \<mapsto> r)"
    "po_rc r = rep_rc R" "po_return_msg r = rep_return_msg R"
    "rep_error_obj (st_errors s0) (st_errors s) (po_error r) (rep_error R)"
    "st_requests s = st_requests s0" "st_members s = st_members s0"
    using rep by (rule rep_replyE)
  obtain e s' r' where e: "ptr_mutable_error a s = Some (e, s')" "fresh_store s'" "st_errors s0 e = None"
    "st_errors s' = (st_errors s0)(e \<mapsto> reply_error R)" "st_replies s' = (st_replies s0)(a \<mapsto> r')"
    "po_error r' = Some e" "po_rc r' = rep_rc R" "po_return_msg r' = rep_return_msg R"
    "st_requests s' = st_requests s0" "st_members s' = st_members s0"
  proof (cases "po_error r")
    case None
    let ?e = "st_next s"
    let ?s1 = "s\<lparr>st_errors := (st_errors s)(?e \<mapsto> default_Error), st_next := Suc ?e\<rparr>"
    let ?s2 = "?s1\<lparr>st_replies := (st_replies s)(a \<mapsto> r\<lparr>po_error := Some ?e\<rparr>)\<rparr>"
    from None r(5) have n: "rep_error R = None" "st_errors s = st_errors s0" by (simp_all add: rep_error_obj_def)
    have "ptr_mutable_error a s = Some (?e, ?s2)"
      using r(2) None by (simp add: ptr_mutable_error_def write_Reply_def Let_def)
    moreover have "fresh_store ?s1" using fresh_store by (simp add: fresh_store_def)
    then have "fresh_store ?s2" using r(2) fresh_write(4) [of ?s1 a] by simp
    ultimately show ?thesis
      using that [of ?e ?s2 "r\<lparr>po_error := Some ?e\<rparr>"] r n fresh_next(3) [OF fresh_store]
      by (simp add: reply_error_def)
  next
    case (Some e)
    with r(5) obtain x where "rep_error R = Some x" "st_errors s0 e = None" "st_errors s = (st_errors s0)(e \<mapsto> x)"
      by (auto simp: rep_error_obj_def)
    with that [of e s r] r Some fresh_store show ?thesis by (simp add: ptr_mutable_error_def reply_error_def)
  qed
  have "rep_reply s0 s' a (R\<lparr>rep_error := Some (reply_error R)\<rparr>)"
    unfolding rep_reply_def using r(1) e by (intro conjI exI [of _ r']) (auto simp: rep_error_obj_def)
  moreover have "\<exists>s2. write_Error e f s' = Some s2 \<and> fresh_store s2 \<and>
      rep_reply s0 s2 a (R\<lparr>rep_error := Some (f (reply_error R))\<rparr>)" for f
  proof -
    let ?s2 = "s'\<lparr>st_errors := (st_errors s')(e \<mapsto> f (reply_error R))\<rparr>"
    have "write_Error e f s' = Some ?s2" using e(4) by (simp add: write_Error_def)
    moreover have "fresh_store ?s2" using e(2,4) by (intro fresh_write(3)) simp_all
    moreover have "rep_reply s0 ?s2 a (R\<lparr>rep_error := Some (f (reply_error R))\<rparr>)"
      unfolding rep_reply_def using r(1) e by (intro conjI exI [of _ r']) (auto simp: rep_error_obj_def)
    ultimately show ?thesis by blast
  qed
  ultimately show ?thesis using e(1,2) by blast
qed

lemma Reply_Clear_rep:
  assumes "rep_reply s0 s a R" and "fresh_store s"
  shows "\<exists>s'. Reply_Clear a s = Some s' \<and> rep_reply s0 s' a default_Reply \<and> fresh_store s'"
proof -
  obtain s1 where s1: "ptr_clear_error a s = Some s1" "rep_reply s0 s1 a (R\<lparr>rep_error := None\<rparr>)" "fresh_store s1"
    using ptr_set_allocated_error_None_rep [OF assms] by blast
  obtain s2 where "write_Reply a (\<lambda>r. r\<lparr>po_rc := 0, po_return_msg := []\<rparr>) s1 = Some s2"
    "rep_reply s0 s2 a default_Reply" "fresh_store s2"
    using write_Reply_rep [OF s1(2,3), of "\<lambda>r. r\<lparr>po_rc := 0, po_return_msg := []\<rparr>" default_Reply]
    by (auto simp: default_Reply_def)
  with s1(1) show ?thesis by (simp add: Reply_Clear_def)
qed

text \<open>\<open>CopyFrom\<close> on objects is \<open>CopyFrom\<close> on values.\<close>

lemma ptr_Reply_CopyFrom_rep:
  assumes "rep_reply s0 s a R" and "fresh_store s"
  shows "\<exists>s'. ptr_Reply_CopyFrom X a s = Some s' \<and> rep_reply s0 s' a (Reply_CopyFrom X R) \<and> fresh_store s'"
proof -
  let ?R1 = "if rep_rc X \<noteq> 0 then default_Reply\<lparr>rep_rc := rep_rc X\<rparr> else default_Reply"
  let ?R2 = "case rep_error X of Some e \<Rightarrow> ?R1\<lparr>rep_error := Some (Error_UnsafeMergeFrom e (reply_error ?R1))\<rparr>
    | None \<Rightarrow> ?R1"
  let ?R3 = "if rep_return_msg X \<noteq> [] then ?R2\<lparr>rep_return_msg := rep_return_msg X\<rparr> else ?R2"
  obtain s1 where s1: "Reply_Clear a s = Some s1" "rep_reply s0 s1 a default_Reply" "fresh_store s1"
    using Reply_Clear_rep [OF assms] by blast
  obtain s2 where s2: "(if rep_rc X \<noteq> 0 then write_Reply a (\<lambda>r. r\<lparr>po_rc := rep_rc X\<rparr>) s1 else Some s1) = Some s2"
    "rep_reply s0 s2 a ?R1" "fresh_store s2"
    using s1(2,3) write_Reply_rep [OF s1(2,3), of "\<lambda>r. r\<lparr>po_rc := rep_rc X\<rparr>" "default_Reply\<lparr>rep_rc := rep_rc X\<rparr>"]
    by (cases "rep_rc X = 0") auto
  obtain s3 where s3: "(case rep_error X of
        Some x \<Rightarrow> do { (e, s') \<leftarrow> ptr_mutable_error a s2; write_Error e (Error_UnsafeMergeFrom x) s' }
      | None \<Rightarrow> Some s2) = Some s3" "rep_reply s0 s3 a ?R2" "fresh_store s3"
    using s2(2,3) ptr_mutable_error_rep [OF s2(2,3)] by (cases "rep_error X") fastforce+
  obtain s4 where "(if rep_return_msg X \<noteq> []
      then write_Reply a (\<lambda>r. r\<lparr>po_return_msg := rep_return_msg X\<rparr>) s3 else Some s3) = Some s4"
    "rep_reply s0 s4 a ?R3" "fresh_store s4"
    using s3(2,3) write_Reply_rep [OF s3(2,3), of "\<lambda>r. r\<lparr>po_return_msg := rep_return_msg X\<rparr>"
      "?R2\<lparr>rep_return_msg := rep_return_msg X\<rparr>"]
    by (cases "rep_return_msg X = []") auto
  moreover have "Reply_CopyFrom X R = ?R3"
    by (simp add: Reply_CopyFrom_def Reply_UnsafeMergeFrom_def Let_def)
  ultimately show ?thesis
    using s1(1) s2(1) s3(1) by (simp add: ptr_Reply_CopyFrom_def ptr_Reply_UnsafeMergeFrom_def)
qed

lemma rep_message_reply:
  assumes "rep_message s0 s m M" and "mo_rq m = Some (ReplyTag, a)"
  shows "rep_reply s0 s a (reply M)" and "fresh_store s"
    and "rep_reply s0 s' a R \<Longrightarrow> fresh_store s' \<Longrightarrow> rep_message s0 s' m (mutable_reply (\<lambda>r. R) M)"
  using assms by (auto simp: rep_message_def reply_def mutable_reply_def)

subsection \<open>Reading\<close>

text \<open>A reference to a member: \<open>request().deleterequest()\<close> and the like.\<close>

definition ptr_request_member :: "RtTag \<Rightarrow> MessageObj \<Rightarrow> MsgStore \<Rightarrow> RtCase option" where
  "ptr_request_member tag m s =
     (case mo_rq m of
        Some (RequestTag, a) \<Rightarrow> ptr_member tag a s
      | _ \<Rightarrow> Some (default_case tag))"

definition ptr_request_type :: "MessageObj \<Rightarrow> MsgStore \<Rightarrow> Request_Type option" where
  "ptr_request_type m s =
     (case mo_rq m of
        Some (RequestTag, a) \<Rightarrow> map_option ro_type (st_requests s a)
      | _ \<Rightarrow> Some INVALID)"

fun member_case :: "RtTag \<Rightarrow> Request \<Rightarrow> RtCase" where
  "member_case ResourceTag r = kResourceRequest (resourcerequest r)"
| "member_case DeleteTag r = kDeleteRequest (deleterequest r)"
| "member_case ListTag r = kListJobsRequest (listjobsrequest r)"

lemma default_case_member: "default_case tag = member_case tag default_Request"
  by (cases tag) (simp_all add: accessor_defs default_Request_def)

lemma member_value_tag:
  "member_value tag x = Some R \<Longrightarrow> tag' \<noteq> tag \<Longrightarrow> req_rt r = R \<Longrightarrow> default_case tag' = member_case tag' r"
  "member_value tag x = Some R \<Longrightarrow> req_rt r = R \<Longrightarrow> member_case tag r = R"
  by (cases tag; cases x; cases tag'; auto simp: accessor_defs)
     (cases tag; cases x; auto simp: accessor_defs)

lemma ptr_member_rep:
  assumes "rep_request s0 s a R"
  shows "ptr_member tag a s = Some (member_case tag R)"
proof -
  obtain r where r: "st_requests s a = Some r"
    "rep_rt (st_members s0) (st_members s) (ro_rt r) (req_rt R)"
    using assms by (auto simp: rep_request_def)
  show ?thesis
  proof (cases "ro_rt r")
    case None
    with r have "req_rt R = RT_NOT_SET" by (simp add: rep_rt_def)
    then have "default_case tag = member_case tag R" by (cases tag) (simp_all add: accessor_defs)
    with None r show ?thesis by (simp add: ptr_member_def rt_case_def)
  next
    case (Some p)
    obtain t b where p: "p = (t, b)" by (cases p)
    with Some r obtain x where x: "member_value t x = Some (req_rt R)" "st_members s b = Some x"
      by (auto simp: rep_rt_def)
    show ?thesis
      using Some p r x member_value_tag(1) [OF x(1), of tag R] member_value_tag(2) [OF x(1), of R]
      by (auto simp: ptr_member_def rt_case_def)
  qed
qed

lemma ptr_request_member_rep:
  assumes "rep_message s0 s m M"
  shows "ptr_request_member tag m s = Some (member_case tag (request M))"
  by (cases rule: rep_message_cases [OF assms])
    (simp_all add: ptr_request_member_def request_def default_case_member ptr_member_rep)

lemma ptr_request_type_rep:
  assumes "rep_message s0 s m M"
  shows "ptr_request_type m s = Some (req_type (request M))"
  by (cases rule: rep_message_cases [OF assms])
    (auto simp: ptr_request_type_def request_def default_Request_def rep_request_def)

subsection \<open>Writing to a member\<close>

lemma rep_rt_case:
  assumes "rep_request s0 s a R"
  shows "\<exists>rt. rt_case a s = Some rt \<and> rep_rt (st_members s0) (st_members s) rt (req_rt R)"
  using assms by (auto simp: rep_request_def rt_case_def)

lemma ptr_mutable_member_rep:
  assumes rep: "rep_request s0 s a R" and fresh_store: "fresh_store s"
  shows "\<exists>b s'. ptr_mutable_member tag a s = Some (b, s') \<and> rt_case a s' = Some (Some (tag, b)) \<and>
    rep_request s0 s' a (R\<lparr>req_rt := member_case tag R\<rparr>) \<and> fresh_store s'"
proof -
  obtain rt where rt: "rt_case a s = Some rt" "rep_rt (st_members s0) (st_members s) rt (req_rt R)"
    using rep_rt_case [OF rep] by blast
  show ?thesis
  proof (cases "\<exists>b. rt = Some (tag, b)")
    case True
    then obtain b x where b: "rt = Some (tag, b)" "member_value tag x = Some (req_rt R)"
      using rt(2) by (auto simp: rep_rt_def)
    then have "R\<lparr>req_rt := member_case tag R\<rparr> = R"
      using member_value_tag(2) [OF b(2), of R] by simp
    with rt(1) b rep fresh_store show ?thesis by (simp add: ptr_mutable_member_def has_member_def)
  next
    case False
    obtain s1 where s1: "clear_rt a s = Some s1" "rep_request s0 s1 a (R\<lparr>req_rt := RT_NOT_SET\<rparr>)" "fresh_store s1"
      "st_members s1 = st_members s0" using clear_rt_rep [OF rep fresh_store] by blast
    obtain r where r: "st_requests s0 a = None" "st_requests s1 = (st_requests s0)(a \<mapsto> r)"
      "ro_type r = req_type R" "st_errors s1 = st_errors s0" "st_replies s1 = st_replies s0"
      using s1(2) by (elim rep_requestE) simp
    let ?b = "st_next s1"
    let ?s2 = "s1\<lparr>st_members := (st_members s1)(?b \<mapsto> default_member tag), st_next := Suc ?b\<rparr>"
    let ?s3 = "?s2\<lparr>st_requests := (st_requests s1)(a \<mapsto> r\<lparr>ro_rt := Some (tag, ?b)\<rparr>)\<rparr>"
    have "default_case tag = member_case tag R"
    proof (cases rt)
      case None
      with rt(2) have "req_rt R = RT_NOT_SET" by (simp add: rep_rt_def)
      then show ?thesis by (cases tag) (simp_all add: accessor_defs)
    next
      case (Some p)
      with rt(2) False member_value_tag(1) [of "fst p" _ "req_rt R" tag R] show ?thesis
        by (cases p) (auto simp: rep_rt_def)
    qed
    then have val: "member_value tag (default_member tag) = Some (member_case tag R)"
      by (cases tag) simp_all
    have "has_member tag a s = Some False"
      using False rt(1) by (auto simp: has_member_def split: option.splits)
    moreover have "new_member (default_member tag) s1 = (?b, ?s2)" by (simp add: new_member_def)
    moreover have "set_rt a (Some (tag, ?b)) ?s2 = Some ?s3" using r(2) by (simp add: set_rt_def)
    moreover have "rt_case a ?s3 = Some (Some (tag, ?b))" by (simp add: rt_case_def)
    ultimately have "ptr_mutable_member tag a s = Some (?b, ?s3)"
      using s1(1) by (simp add: ptr_mutable_member_def)
    moreover have "fresh_store ?s2" using s1(3) by (simp add: fresh_store_def)
    then have "fresh_store ?s3" using r(2) fresh_write(2) [of ?s2 a] by simp
    moreover have "rep_request s0 ?s3 a (R\<lparr>req_rt := member_case tag R\<rparr>)"
      unfolding rep_request_def using r s1(4) val fresh_next(1) [OF s1(3)]
      by (intro conjI exI [of _ "r\<lparr>ro_rt := Some (tag, ?b)\<rparr>"]) (auto simp: rep_rt_def)
    ultimately show ?thesis using r(2) by (auto simp: rt_case_def)
  qed
qed

lemma write_member_rep:
  assumes rep: "rep_request s0 s a R" and fresh_store: "fresh_store s" and at: "rt_case a s = Some (Some (tag, b))"
    and f: "\<And>x c. member_value tag x = Some c \<Longrightarrow> member_value tag (f x) = Some (g c)"
  shows "\<exists>s'. write_member b f s = Some s' \<and> rep_request s0 s' a (R\<lparr>req_rt := g (req_rt R)\<rparr>) \<and> fresh_store s'"
proof -
  obtain r where r: "st_requests s0 a = None" "st_requests s = (st_requests s0)(a \<mapsto> r)"
    "ro_type r = req_type R" "rep_rt (st_members s0) (st_members s) (ro_rt r) (req_rt R)"
    "st_errors s = st_errors s0" "st_replies s = st_replies s0"
    using rep by (rule rep_requestE)
  with at obtain x where x: "ro_rt r = Some (tag, b)" "st_members s0 b = None"
    "member_value tag x = Some (req_rt R)" "st_members s = (st_members s0)(b \<mapsto> x)"
    by (auto simp: rt_case_def rep_rt_def)
  let ?s = "s\<lparr>st_members := (st_members s)(b \<mapsto> f x)\<rparr>"
  have "write_member b f s = Some ?s" using x(4) by (simp add: write_member_def)
  moreover have "fresh_store ?s" using fresh_store x(4) by (intro fresh_write(1)) simp_all
  moreover have "rep_request s0 ?s a (R\<lparr>req_rt := g (req_rt R)\<rparr>)"
    unfolding rep_request_def using r x f [OF x(3)]
    by (intro conjI exI [of _ r]) (auto simp: rep_rt_def)
  ultimately show ?thesis by blast
qed

lemma rep_message_request:
  assumes "rep_message s0 s m M" and "mo_rq m = Some (RequestTag, a)"
  shows "rep_request s0 s a (request M)" and "fresh_store s" and "msg_rq M = kRequest (request M)"
    and "rep_request s0 s' a R \<Longrightarrow> fresh_store s' \<Longrightarrow> rep_message s0 s' m (mutable_request (\<lambda>r. R) M)"
  using assms by (auto simp: rep_message_def request_def mutable_request_def)

subsection \<open>Releasing\<close>

text \<open>
  After \<open>release_\<close> the object is still there, and the message does not own it any more: it
  belongs to what the message leaves alone.
\<close>

lemma ptr_release_rq_rep:
  assumes "rep_message s0 s m M" and "rq_is tag m"
  shows "\<exists>a m'. ptr_release_rq tag m = (Some a, m') \<and> mo_rq m = Some (tag, a) \<and>
    rep_message s s m' (M\<lparr>msg_rq := RQ_NOT_SET\<rparr>)"
  using assms by (auto simp: ptr_release_rq_def rq_is_def rep_message_def same_objects_def split: option.splits)

lemma ptr_release_rq_other: "\<not> rq_is tag m \<Longrightarrow> ptr_release_rq tag m = (None, m)"
  by (simp add: ptr_release_rq_def)

subsection \<open>Counting\<close>

definition object_count :: "MsgStore \<Rightarrow> nat" where
  "object_count s = card (dom (st_members s)) + card (dom (st_requests s)) + card (dom (st_errors s)) +
     card (dom (st_replies s))"

definition objects_of :: "Message \<Rightarrow> nat" where
  "objects_of M =
     (case msg_rq M of RQ_NOT_SET \<Rightarrow> 0
      | kRequest R \<Rightarrow> (if req_rt R = RT_NOT_SET then 1 else 2)
      | kReply R \<Rightarrow> (if rep_error R = None then 1 else 2))"

lemma same_objects_count: "same_objects s0 s \<Longrightarrow> object_count s = object_count s0"
  by (simp add: same_objects_def object_count_def)

lemma fresh_finite:
  assumes "fresh_store s"
  shows "finite (dom (st_members s))" "finite (dom (st_requests s))" "finite (dom (st_errors s))"
    "finite (dom (st_replies s))"
proof -
  have "dom (st_members s) \<subseteq> {..<st_next s}" "dom (st_requests s) \<subseteq> {..<st_next s}"
    "dom (st_errors s) \<subseteq> {..<st_next s}" "dom (st_replies s) \<subseteq> {..<st_next s}"
    using assms by (auto simp: fresh_store_def) (metis leI option.distinct(1))+
  then show "finite (dom (st_members s))" "finite (dom (st_requests s))" "finite (dom (st_errors s))"
    "finite (dom (st_replies s))" by (simp_all add: finite_subset)
qed

lemma card_dom_new: "finite (dom f) \<Longrightarrow> g = f(a \<mapsto> x) \<Longrightarrow> f a = None \<Longrightarrow> card (dom g) = Suc (card (dom f))"
  by (simp add: card_insert_if domIff)

lemma rep_message_count:
  assumes "rep_message s0 s m M"
  shows "object_count s = object_count s0 + objects_of M"
proof -
  note fin = fresh_finite [OF rep_message_fresh [OF assms]]
  show ?thesis
    using assms
  proof (cases rule: rep_message_cases)
    case none
    then show ?thesis by (simp add: same_objects_count objects_of_def)
  next
    case (req a R)
    obtain r where r: "st_requests s0 a = None" "st_requests s = (st_requests s0)(a \<mapsto> r)"
      "rep_rt (st_members s0) (st_members s) (ro_rt r) (req_rt R)"
      "st_errors s = st_errors s0" "st_replies s = st_replies s0"
      using req(3) by (rule rep_requestE)
    have "finite (dom (st_requests s0))" using fin(2) r(2) by simp
    from card_dom_new [OF this r(2,1)] have q: "card (dom (st_requests s)) = Suc (card (dom (st_requests s0)))" .
    have "card (dom (st_members s)) = card (dom (st_members s0)) + (if req_rt R = RT_NOT_SET then 0 else 1)"
    proof (cases "ro_rt r")
      case None
      with r(3) show ?thesis by (simp add: rep_rt_def)
    next
      case (Some p)
      with r(3) obtain t b x where x: "st_members s0 b = None" "st_members s = (st_members s0)(b \<mapsto> x)"
        "member_value t x = Some (req_rt R)" by (cases p) (auto simp: rep_rt_def)
      moreover have "req_rt R \<noteq> RT_NOT_SET" using x(3) by (cases t; cases x) auto
      moreover have "finite (dom (st_members s0))" using fin(1) x(2) by simp
      ultimately show ?thesis using card_dom_new by fastforce
    qed
    with q req(2) r(4,5) show ?thesis by (simp add: object_count_def objects_of_def)
  next
    case (rep a R)
    then obtain r where r: "st_replies s0 a = None" "st_replies s = (st_replies s0)(a \<mapsto> r)"
      "rep_error_obj (st_errors s0) (st_errors s) (po_error r) (rep_error R)"
      "st_requests s = st_requests s0" "st_members s = st_members s0"
      by (auto simp: rep_reply_def)
    have "finite (dom (st_replies s0))" using fin(4) r(2) by simp
    from card_dom_new [OF this r(2,1)] have q: "card (dom (st_replies s)) = Suc (card (dom (st_replies s0)))" .
    have "card (dom (st_errors s)) = card (dom (st_errors s0)) + (if rep_error R = None then 0 else 1)"
    proof (cases "po_error r")
      case None
      with r(3) show ?thesis by (simp add: rep_error_obj_def)
    next
      case (Some e)
      with r(3) obtain x where x: "st_errors s0 e = None" "rep_error R = Some x"
        "st_errors s = (st_errors s0)(e \<mapsto> x)" by (auto simp: rep_error_obj_def)
      moreover have "finite (dom (st_errors s0))" using fin(3) x(3) by simp
      ultimately show ?thesis using card_dom_new by fastforce
    qed
    with q rep(2) r(4,5) show ?thesis by (simp add: object_count_def objects_of_def)
  qed
qed

end
