(* ===== verification/ServerObjects.thy ===== *)
theory ServerObjects
  imports Server MessageObjects
begin

text \<open>
  A turn of the server (\<open>src/src/server/Server.cpp\<close>, \<open>common/Planner.cpp\<close>) on the message object
  of the turn, which is constructed at its start and destroyed at its end. The handlers hold a
  reference into the request object while they work, and \<open>mutable_reply\<close> deletes that object.
  The lemmas say that the turn is the one of \<open>Server\<close> on values, that it reads no deleted
  object, and which objects it leaves behind.
\<close>

type_synonym message_state = "MessageObj \<times> MsgStore"

fun set_regex :: "string \<Rightarrow> MemberObj \<Rightarrow> MemberObj" where
  "set_regex e (ListObj l) = ListObj (l\<lparr>lj_regex := e\<rparr>)"
| "set_regex e x = x"

definition ptr_set_rc :: "32 word \<Rightarrow> message_state \<Rightarrow> message_state option" where
  "ptr_set_rc rc = (\<lambda>(m, s).
     do { (a, m1, s1) \<leftarrow> ptr_mutable_reply m s;
          s2 \<leftarrow> write_Reply a (\<lambda>r. r\<lparr>po_rc := rc\<rparr>) s1;
          Some (m1, s2) })"

definition ptr_copy_reply :: "Reply \<Rightarrow> message_state \<Rightarrow> message_state option" where
  "ptr_copy_reply reply_msg = (\<lambda>(m, s).
     do { (a, m1, s1) \<leftarrow> ptr_mutable_reply m s;
          s2 \<leftarrow> ptr_Reply_CopyFrom reply_msg a s1;
          Some (m1, s2) })"

text \<open>The three references a handler takes.\<close>

definition ptr_resourcerequest :: "message_state \<Rightarrow> Request_ResourceRequest option" where
  "ptr_resourcerequest = (\<lambda>(m, s).
     case ptr_request_member ResourceTag m s of Some (kResourceRequest x) \<Rightarrow> Some x | _ \<Rightarrow> None)"

definition ptr_deleterequest :: "message_state \<Rightarrow> Request_DeleteRequest option" where
  "ptr_deleterequest = (\<lambda>(m, s).
     case ptr_request_member DeleteTag m s of Some (kDeleteRequest x) \<Rightarrow> Some x | _ \<Rightarrow> None)"

definition ptr_listjobsrequest :: "message_state \<Rightarrow> Request_ListJobsRequest option" where
  "ptr_listjobsrequest = (\<lambda>(m, s).
     case ptr_request_member ListTag m s of Some (kListJobsRequest x) \<Rightarrow> Some x | _ \<Rightarrow> None)"

section \<open>The handlers\<close>

definition ptr_ServeJobSubmission ::
  "'w Env \<Rightarrow> (nat \<Rightarrow> u32) \<Rightarrow> (string set \<Rightarrow> string list) \<Rightarrow> time_point \<Rightarrow> 'w Planner \<Rightarrow> message_state
    \<Rightarrow> serve_failure + bool \<times> message_state \<times> 'w Planner" where
  "ptr_ServeJobSubmission env uninit iterate now p ms =
     (case ptr_resourcerequest ms of None \<Rightarrow> Inl Undefined
      | Some req \<Rightarrow>
        let m = pl_monitor p in
        if length (rr_files req) = 0 then Inr (True, ms, p)
        else
          (case tryComputeOstSetOfRequest (env_lustre env) (mon_world m) (rr_files req) {} of
             (ok, osts_set, w1) \<Rightarrow>
               let m1 = m\<lparr>mon_world := w1\<rparr> in
               if \<not> ok then Inr (False, ms, p\<lparr>pl_monitor := m1\<rparr>)
               else
                 (case (if 0 < sint (rr_durationsec req)
                        then add_seconds now (sint (rr_durationsec req)) else Some time_point_max) of
                    None \<Rightarrow> Inl Undefined
                  | Some tend \<Rightarrow>
                      (case Static_ScheduleJob (pl_limits p) uninit m1
                              (BuildJob req now tend (iterate osts_set)) of
                         None \<Rightarrow> Inl Undefined
                       | Some (success, job, m2) \<Rightarrow>
                           (case ptr_set_rc (if success then 0 else - 1) ms of
                              None \<Rightarrow> Inl Undefined
                            | Some ms1 \<Rightarrow> Inr (success, ms1, p\<lparr>pl_monitor := m2\<rparr>))))))"

definition ptr_ServeJobRemove ::
  "'w Env \<Rightarrow> 'w Planner \<Rightarrow> message_state \<Rightarrow> serve_failure + bool \<times> message_state \<times> 'w Planner" where
  "ptr_ServeJobRemove env p ms =
     (case ptr_deleterequest ms of None \<Rightarrow> Inl Undefined
      | Some req \<Rightarrow>
        (case remove_ids env (pl_monitor p) (dr_id req) of
           None \<Rightarrow> Inl Undefined
         | Some m1 \<Rightarrow>
             let success = True in
             (case ptr_set_rc (if success then 0 else 1) ms of
                None \<Rightarrow> Inl Undefined
              | Some ms1 \<Rightarrow> Inr (success, ms1, p\<lparr>pl_monitor := m1\<rparr>))))"

definition ptr_AddDefaultRegexIfEmpty :: "message_state \<Rightarrow> message_state option" where
  "ptr_AddDefaultRegexIfEmpty ms =
     do { l \<leftarrow> ptr_listjobsrequest ms;
          if lj_regex l = [] then
            (case ms of (m, s) \<Rightarrow>
               do { (a, m1, s1) \<leftarrow> ptr_mutable_request m s;
                    (b, s2) \<leftarrow> ptr_mutable_member ListTag a s1;
                    s3 \<leftarrow> write_member b (set_regex ''.*'') s2;
                    Some (m1, s3) })
          else Some ms }"

definition ptr_ListJobs ::
  "(string \<Rightarrow> (string \<Rightarrow> bool) option) \<Rightarrow> (int \<Rightarrow> string) \<Rightarrow> 'w Planner \<Rightarrow> message_state
    \<Rightarrow> serve_failure + bool \<times> message_state \<times> 'w Planner" where
  "ptr_ListJobs compile put_time p ms0 =
     (case ptr_AddDefaultRegexIfEmpty ms0 of None \<Rightarrow> Inl Undefined
      | Some ms \<Rightarrow>
      (case ptr_listjobsrequest ms of None \<Rightarrow> Inl Undefined
       | Some req \<Rightarrow>
       (case GetAllJobs (mon_schedule (pl_monitor p)) of
          None \<Rightarrow> Inl Undefined
        | Some jobs \<Rightarrow>
            (case FilterJobs compile req jobs of
               None \<Rightarrow> Inl RegexError
             | Some job_list \<Rightarrow>
                 (case ptr_copy_reply
                     ((AddJobsToReply put_time default_Reply jobs job_list)\<lparr>rep_rc := 0\<rparr>) ms of
                    None \<Rightarrow> Inl Undefined
                  | Some ms1 \<Rightarrow> Inr (True, ms1, p))))))"

definition ptr_ProcessMessage ::
  "'w Surroundings \<Rightarrow> 'w Planner \<Rightarrow> message_state \<Rightarrow> serve_failure + bool \<times> message_state \<times> 'w Planner" where
  "ptr_ProcessMessage sur p ms =
     (case ptr_request_type (fst ms) (snd ms) of None \<Rightarrow> Inl Undefined
      | Some RESERVE \<Rightarrow>
          ptr_ServeJobSubmission (sur_env sur) (sur_uninit sur) (sur_iterate sur) (sur_now sur) p ms
      | Some DELETE \<Rightarrow> ptr_ServeJobRemove (sur_env sur) p ms
      | Some LISTJOBS \<Rightarrow> ptr_ListJobs (sur_compile sur) (sur_put_time sur) p ms
      | Some INVALID \<Rightarrow> Inr (False, ms, p)
      | Some (OtherRequestType n) \<Rightarrow> Inr (False, ms, p))"

section \<open>The turn\<close>

text \<open>What the serializer reads: the message with the objects it owns.\<close>

definition message_value :: "message_state \<Rightarrow> Message option" where
  "message_value = (\<lambda>(m, s).
     map_option (\<lambda>rq. \<lparr>msg_type = mo_type m, msg_rq = rq\<rparr>)
       (case mo_rq m of
          None \<Rightarrow> Some RQ_NOT_SET
        | Some (RequestTag, a) \<Rightarrow>
            do { r \<leftarrow> st_requests s a;
                 rt \<leftarrow> (case ro_rt r of None \<Rightarrow> Some RT_NOT_SET
                   | Some (tag, b) \<Rightarrow> do { x \<leftarrow> st_members s b; member_value tag x });
                 Some (kRequest \<lparr>req_type = ro_type r, req_rt = rt\<rparr>) }
        | Some (ReplyTag, a) \<Rightarrow>
            do { r \<leftarrow> st_replies s a;
                 e \<leftarrow> (case po_error r of None \<Rightarrow> Some None
                   | Some e \<Rightarrow> map_option Some (st_errors s e));
                 Some (kReply \<lparr>rep_rc = po_rc r, rep_error = e, rep_return_msg = po_return_msg r\<rparr>) }))"

text \<open>
  The objects the parser leaves: it makes them by \<open>mutable_request\<close> and the like, one for every
  embedded message.
\<close>

fun member_object :: "RtCase \<Rightarrow> (RtTag \<times> MemberObj) option" where
  "member_object RT_NOT_SET = None"
| "member_object (kResourceRequest x) = Some (ResourceTag, ResourceObj x)"
| "member_object (kDeleteRequest x) = Some (DeleteTag, DeleteObj x)"
| "member_object (kListJobsRequest x) = Some (ListTag, ListObj x)"

definition load_request :: "Request \<Rightarrow> MsgStore \<Rightarrow> nat \<times> MsgStore" where
  "load_request R s =
     (let (a, s1) = new_Request s;
          (rt, s2) = (case member_object (req_rt R) of
              None \<Rightarrow> (None, s1)
            | Some (tag, x) \<Rightarrow> (case new_member x s1 of (b, s2) \<Rightarrow> (Some (tag, b), s2)))
      in (a, s2\<lparr>st_requests := (st_requests s2)(a \<mapsto> \<lparr>ro_type = req_type R, ro_rt = rt\<rparr>)\<rparr>))"

definition load_reply :: "Reply \<Rightarrow> MsgStore \<Rightarrow> nat \<times> MsgStore" where
  "load_reply R s =
     (let (a, s1) = new_Reply s;
          (e, s2) = (case rep_error R of
              None \<Rightarrow> (None, s1)
            | Some x \<Rightarrow> (Some (st_next s1),
                s1\<lparr>st_errors := (st_errors s1)(st_next s1 \<mapsto> x), st_next := Suc (st_next s1)\<rparr>))
      in (a, s2\<lparr>st_replies := (st_replies s2)
            (a \<mapsto> \<lparr>po_rc = rep_rc R, po_error = e, po_return_msg = rep_return_msg R\<rparr>)\<rparr>))"

definition load_message :: "Message \<Rightarrow> MsgStore \<Rightarrow> message_state" where
  "load_message M s =
     (case msg_rq M of
        RQ_NOT_SET \<Rightarrow> (\<lparr>mo_type = msg_type M, mo_rq = None\<rparr>, s)
      | kRequest R \<Rightarrow>
          (case load_request R s of
             (a, s1) \<Rightarrow> (\<lparr>mo_type = msg_type M, mo_rq = Some (RequestTag, a)\<rparr>, s1))
      | kReply R \<Rightarrow>
          (case load_reply R s of
             (a, s1) \<Rightarrow> (\<lparr>mo_type = msg_type M, mo_rq = Some (ReplyTag, a)\<rparr>, s1)))"

text \<open>
  \<open>release_request\<close>, whose result \<open>Serve\<close> drops, and \<open>set_type\<close>; the pointer is returned here.
\<close>

definition ptr_finish_reply :: "MessageObj \<Rightarrow> nat option \<times> MessageObj" where
  "ptr_finish_reply m =
     (case ptr_release_rq RequestTag m of (released, m1) \<Rightarrow> (released, m1\<lparr>mo_type := REPLY\<rparr>))"

text \<open>\<open>s_send\<close> of the serialized message, and the end of the scope of \<open>msg\<close>.\<close>

definition send_and_delete ::
  "'z Wire \<Rightarrow> 'w Planner \<Rightarrow> 'z \<Rightarrow> message_state \<Rightarrow> server_failure + 'w Planner \<times> 'z \<times> MsgStore" where
  "send_and_delete wire p z ms =
     (case message_value ms of None \<Rightarrow> Inl (ServeFailed Undefined)
      | Some sent \<Rightarrow>
          (case wire_send wire z (SerializeAsString wire sent) of
             None \<Rightarrow> Inl SocketError
           | Some z2 \<Rightarrow>
               (case delete_Message (fst ms) (snd ms) of
                  None \<Rightarrow> Inl (ServeFailed Undefined) | Some s2 \<Rightarrow> Inr (p, z2, s2))))"

text \<open>The turn, from the message made out of the bytes to its destruction.\<close>

definition ptr_Serve_turn ::
  "'w Surroundings \<Rightarrow> 'z Wire \<Rightarrow> 'w Planner \<times> 'z \<times> MsgStore
    \<Rightarrow> server_failure + 'w Planner \<times> 'z \<times> MsgStore" where
  "ptr_Serve_turn sur wire st =
     (case st of (p, z, s) \<Rightarrow>
        (case wire_recv wire z of
           None \<Rightarrow> Inl SocketError
         | Some (raw, z1) \<Rightarrow>
             (case ParseFromString wire raw of
                (parsed, msg) \<Rightarrow>
                  (case load_message msg s of (m, s0) \<Rightarrow>
                    if \<not> parsed then
                      (case ptr_set_rc 1 (m\<lparr>mo_type := REPLY\<rparr>, s0) of
                         None \<Rightarrow> Inl (ServeFailed Undefined)
                       | Some ms \<Rightarrow> send_and_delete wire p z1 ms)
                    else if mo_type m = REPLY then
                      (case delete_Message m s0 of
                         None \<Rightarrow> Inl (ServeFailed Undefined) | Some s2 \<Rightarrow> Inr (p, z1, s2))
                    else
                      (case ptr_ProcessMessage sur p (m, s0) of
                         Inl f \<Rightarrow> Inl (ServeFailed f)
                       | Inr (ok, (m1, s1), p1) \<Rightarrow>
                           send_and_delete wire p1 z1 (snd (ptr_finish_reply m1), s1))))))"

section \<open>Objects and values\<close>

lemma load_request_rep:
  assumes "fresh_store s"
  shows "rep_request s (snd (load_request R s)) (fst (load_request R s)) R \<and> fresh_store (snd (load_request R s))"
  using assms fresh_next [OF assms]
  by (cases "req_rt R")
    (auto simp: load_request_def new_Request_def new_member_def rep_request_def fresh_store_def)

lemma load_reply_rep:
  assumes "fresh_store s"
  shows "rep_reply s (snd (load_reply R s)) (fst (load_reply R s)) R \<and> fresh_store (snd (load_reply R s))"
  using assms fresh_next [OF assms]
  by (cases "rep_error R")
    (auto simp: load_reply_def new_Reply_def rep_reply_def rep_error_obj_def fresh_store_def)

lemma load_message_rep:
  assumes "fresh_store s" and "load_message M s = (m, s')"
  shows "rep_message s s' m M"
proof (cases "msg_rq M")
  case RQ_NOT_SET
  with assms show ?thesis by (auto simp: load_message_def rep_message_def same_objects_def)
next
  case (kRequest R)
  with assms load_request_rep [OF assms(1), of R] show ?thesis
    by (auto simp: load_message_def rep_message_def split: prod.splits)
next
  case (kReply R)
  with assms load_reply_rep [OF assms(1), of R] show ?thesis
    by (auto simp: load_message_def rep_message_def split: prod.splits)
qed

lemma message_value_rep:
  assumes "rep_message s0 s m M"
  shows "message_value (m, s) = Some M"
  using assms
proof (cases rule: rep_message_cases)
  case none
  with assms show ?thesis by (simp add: message_value_def rep_message_def)
next
  case (req a R)
  obtain r where r: "st_requests s = (st_requests s0)(a \<mapsto> r)" "ro_type r = req_type R"
    "rep_rt (st_members s0) (st_members s) (ro_rt r) (req_rt R)"
    using req(3) by (rule rep_requestE)
  have "mo_type m = msg_type M" using assms by (simp add: rep_message_def)
  with req r show ?thesis
    by (cases "ro_rt r") (auto simp: message_value_def rep_rt_def)
next
  case (rep a R)
  obtain r where r: "st_replies s = (st_replies s0)(a \<mapsto> r)" "po_rc r = rep_rc R"
    "po_return_msg r = rep_return_msg R" "rep_error_obj (st_errors s0) (st_errors s) (po_error r) (rep_error R)"
    using rep(3) by (rule rep_replyE)
  have "mo_type m = msg_type M" using assms by (simp add: rep_message_def)
  with rep r show ?thesis
    by (cases "po_error r") (auto simp: message_value_def rep_error_obj_def)
qed

lemma set_type_rep:
  assumes "rep_message s0 s m M"
  shows "rep_message s0 s (m\<lparr>mo_type := t\<rparr>) (M\<lparr>msg_type := t\<rparr>)"
proof -
  note fresh_store = rep_message_fresh [OF assms]
  show ?thesis
    by (cases rule: rep_message_cases [OF assms]) (simp_all add: rep_message_def fresh_store)
qed

lemma ptr_set_rc_rep:
  assumes "rep_message s0 s m M"
  shows "\<exists>m' s'. ptr_set_rc rc (m, s) = Some (m', s') \<and>
    rep_message s0 s' m' (mutable_reply (\<lambda>r. r\<lparr>rep_rc := rc\<rparr>) M)"
proof -
  obtain a m1 s1 where 1: "ptr_mutable_reply m s = Some (a, m1, s1)" "mo_rq m1 = Some (ReplyTag, a)"
    "rep_message s0 s1 m1 (mutable_reply (\<lambda>r. r) M)"
    using ptr_mutable_reply_rep [OF assms] by blast
  note rep = rep_message_reply [OF 1(3,2)]
  obtain s2 where "write_Reply a (\<lambda>r. r\<lparr>po_rc := rc\<rparr>) s1 = Some s2" "fresh_store s2"
    "rep_reply s0 s2 a (reply M\<lparr>rep_rc := rc\<rparr>)"
    using write_Reply_rep [OF rep(1,2), of "\<lambda>r. r\<lparr>po_rc := rc\<rparr>" "reply M\<lparr>rep_rc := rc\<rparr>"] by auto
  with 1(1) rep(3) [of s2 "reply M\<lparr>rep_rc := rc\<rparr>"] show ?thesis
    by (simp add: ptr_set_rc_def mutable_reply_def)
qed

lemma ptr_copy_reply_rep:
  assumes "rep_message s0 s m M" and "rep_error R = None"
  shows "\<exists>m' s'. ptr_copy_reply R (m, s) = Some (m', s') \<and>
    rep_message s0 s' m' (mutable_reply (\<lambda>r. R) M)"
proof -
  obtain a m1 s1 where 1: "ptr_mutable_reply m s = Some (a, m1, s1)" "mo_rq m1 = Some (ReplyTag, a)"
    "rep_message s0 s1 m1 (mutable_reply (\<lambda>r. r) M)"
    using ptr_mutable_reply_rep [OF assms(1)] by blast
  note rep = rep_message_reply [OF 1(3,2)]
  have copy: "Reply_CopyFrom R (reply M) = R"
    using assms(2) by (intro Reply_CopyFrom_is_assignment) simp
  obtain s2 where "ptr_Reply_CopyFrom R a s1 = Some s2" "fresh_store s2" "rep_reply s0 s2 a R"
    using ptr_Reply_CopyFrom_rep [OF rep(1,2), of R] copy by auto
  with 1(1) rep(3) [of s2 R] show ?thesis
    by (simp add: ptr_copy_reply_def mutable_reply_def)
qed

lemma ptr_references:
  assumes "rep_message s0 s m M"
  shows "ptr_resourcerequest (m, s) = Some (resourcerequest (request M))"
    and "ptr_deleterequest (m, s) = Some (deleterequest (request M))"
    and "ptr_listjobsrequest (m, s) = Some (listjobsrequest (request M))"
  using ptr_request_member_rep [OF assms]
  by (simp_all add: ptr_resourcerequest_def ptr_deleterequest_def ptr_listjobsrequest_def)

section \<open>The handlers are those on values\<close>

definition answers_as ::
  "MsgStore \<Rightarrow> (serve_failure + bool \<times> Message \<times> 'w Planner)
    \<Rightarrow> (serve_failure + bool \<times> message_state \<times> 'w Planner) \<Rightarrow> bool" where
  "answers_as s0 v c \<longleftrightarrow>
     (case v of Inl f \<Rightarrow> c = Inl f
      | Inr (ok, M', p') \<Rightarrow> \<exists>m' s'. c = Inr (ok, (m', s'), p') \<and> rep_message s0 s' m' M')"

lemma answers_as_simps [simp]:
  "answers_as s0 (Inl f) c \<longleftrightarrow> c = Inl f"
  "answers_as s0 (Inr (ok, M', p')) c \<longleftrightarrow> (\<exists>m' s'. c = Inr (ok, (m', s'), p') \<and> rep_message s0 s' m' M')"
  by (simp_all add: answers_as_def)

lemma ptr_ServeJobSubmission_rep:
  assumes rep: "rep_message s0 s m M"
  shows "answers_as s0 (ServeJobSubmission env uninit iterate now p M)
    (ptr_ServeJobSubmission env uninit iterate now p (m, s))"
proof -
  let ?req = "resourcerequest (request M)"
  obtain ok osts w1 where t: "tryComputeOstSetOfRequest (env_lustre env) (mon_world (pl_monitor p))
      (rr_files ?req) {} = (ok, osts, w1)" by (metis prod_cases3)
  let ?fin = "if 0 < sint (rr_durationsec ?req)
      then add_seconds now (sint (rr_durationsec ?req)) else Some time_point_max"
  let ?m1 = "(pl_monitor p)\<lparr>mon_world := w1\<rparr>"
  let ?sched = "\<lambda>tend. Static_ScheduleJob (pl_limits p) uninit ?m1 (BuildJob ?req now tend (iterate osts))"
  show ?thesis
  proof (cases "rr_files ?req = [] \<or> \<not> ok")
    case True
    with rep t show ?thesis
      by (auto simp: ServeJobSubmission_def ptr_ServeJobSubmission_def ptr_references [OF rep] Let_def)
  next
    case False
    show ?thesis
    proof (cases ?fin)
      case None
      with False t show ?thesis
        by (simp add: ServeJobSubmission_def ptr_ServeJobSubmission_def ptr_references [OF rep] Let_def)
    next
      case (Some tend)
      show ?thesis
      proof (cases "?sched tend")
        case None
        with False t Some show ?thesis
          by (simp add: ServeJobSubmission_def ptr_ServeJobSubmission_def ptr_references [OF rep] Let_def)
      next
        case (Some r)
        obtain success j m2 where r: "r = (success, j, m2)" by (cases r)
        obtain m' s' where "ptr_set_rc (if success then 0 else - 1) (m, s) = Some (m', s')"
          "rep_message s0 s' m' (mutable_reply (\<lambda>r. r\<lparr>rep_rc := if success then 0 else - 1\<rparr>) M)"
          using ptr_set_rc_rep [OF rep] by blast
        with False t \<open>?fin = Some tend\<close> Some r show ?thesis
          by (simp add: ServeJobSubmission_def ptr_ServeJobSubmission_def ptr_references [OF rep] Let_def)
      qed
    qed
  qed
qed

lemma ptr_ServeJobRemove_rep:
  assumes rep: "rep_message s0 s m M"
  shows "answers_as s0 (ServeJobRemove env p M) (ptr_ServeJobRemove env p (m, s))"
proof -
  obtain m' s' where "ptr_set_rc 0 (m, s) = Some (m', s')"
    "rep_message s0 s' m' (mutable_reply (\<lambda>r. r\<lparr>rep_rc := 0\<rparr>) M)"
    using ptr_set_rc_rep [OF rep] by blast
  then show ?thesis
    by (cases "remove_ids env (pl_monitor p) (dr_id (deleterequest (request M)))")
      (simp_all add: ServeJobRemove_def ptr_ServeJobRemove_def ptr_references [OF rep])
qed

fun case_regex :: "string \<Rightarrow> RtCase \<Rightarrow> RtCase" where
  "case_regex e (kListJobsRequest l) = kListJobsRequest (l\<lparr>lj_regex := e\<rparr>)"
| "case_regex e c = c"

lemma ptr_AddDefaultRegexIfEmpty_rep:
  assumes rep: "rep_message s0 s m M"
  shows "\<exists>m' s'. ptr_AddDefaultRegexIfEmpty (m, s) = Some (m', s') \<and>
    rep_message s0 s' m' (AddDefaultRegexIfEmpty M)"
proof (cases "lj_regex (listjobsrequest (request M)) = []")
  case False
  with rep show ?thesis
    by (simp add: ptr_AddDefaultRegexIfEmpty_def AddDefaultRegexIfEmpty_def ptr_references [OF rep])
next
  case True
  obtain a m1 s1 where 1: "ptr_mutable_request m s = Some (a, m1, s1)" "mo_rq m1 = Some (RequestTag, a)"
    "rep_message s0 s1 m1 (mutable_request (\<lambda>r. r) M)"
    using ptr_mutable_request_rep [OF rep] by blast
  note req = rep_message_request [OF 1(3,2)]
  obtain b s2 where 2: "ptr_mutable_member ListTag a s1 = Some (b, s2)" "rt_case a s2 = Some (Some (ListTag, b))"
    "rep_request s0 s2 a ((request M)\<lparr>req_rt := kListJobsRequest (listjobsrequest (request M))\<rparr>)" "fresh_store s2"
    using ptr_mutable_member_rep [OF req(1,2), of ListTag] by auto
  have set: "member_value ListTag (set_regex e x) = Some (case_regex e c)"
    if "member_value ListTag x = Some c" for e x c using that by (cases x) auto
  obtain s3 where 3: "write_member b (set_regex ''.*'') s2 = Some s3" "fresh_store s3"
    "rep_request s0 s3 a (mutable_listjobsrequest (\<lambda>l. l\<lparr>lj_regex := ''.*''\<rparr>) (request M))"
    using write_member_rep [OF 2(3,4,2), of "set_regex ''.*''" "case_regex ''.*''"] set
    by (auto simp: mutable_listjobsrequest_def)
  have "rep_message s0 s3 m1 (mutable_request (\<lambda>r. mutable_listjobsrequest (\<lambda>l. l\<lparr>lj_regex := ''.*''\<rparr>) (request M)) M)"
    using req(4) [OF 3(3,2)] by (simp add: mutable_request_def)
  with True 1(1) 2(1) 3(1) show ?thesis
    by (simp add: ptr_AddDefaultRegexIfEmpty_def AddDefaultRegexIfEmpty_def ptr_references [OF rep]
        mutable_request_def)
qed

lemma ptr_ListJobs_rep:
  assumes "rep_message s0 s m M"
  shows "answers_as s0 (ServeListJobs compile put_time p M) (ptr_ListJobs compile put_time p (m, s))"
proof -
  obtain m1 s1 where 1: "ptr_AddDefaultRegexIfEmpty (m, s) = Some (m1, s1)"
    "rep_message s0 s1 m1 (AddDefaultRegexIfEmpty M)"
    using ptr_AddDefaultRegexIfEmpty_rep [OF assms] by blast
  show ?thesis
  proof (cases "GetAllJobs (mon_schedule (pl_monitor p))")
    case None
    with 1 show ?thesis by (simp add: ServeListJobs_def ptr_ListJobs_def ptr_references [OF 1(2)] Let_def)
  next
    case (Some jobs)
    show ?thesis
    proof (cases "FilterJobs compile (listjobsrequest (request (AddDefaultRegexIfEmpty M))) jobs")
      case None
      with 1 Some show ?thesis
        by (simp add: ServeListJobs_def ptr_ListJobs_def ptr_references [OF 1(2)] Let_def)
    next
      case (Some job_list)
      let ?R = "(AddJobsToReply put_time default_Reply jobs job_list)\<lparr>rep_rc := 0\<rparr>"
      have "rep_error ?R = None" by (simp add: AddJobsToReply_def default_Reply_def)
      from ptr_copy_reply_rep [OF 1(2) this] obtain m2 s2 where
        "ptr_copy_reply ?R (m1, s1) = Some (m2, s2)"
        "rep_message s0 s2 m2 (mutable_reply (\<lambda>r. ?R) (AddDefaultRegexIfEmpty M))" by blast
      with 1 Some \<open>GetAllJobs _ = Some jobs\<close> show ?thesis
        by (simp add: ServeListJobs_def ptr_ListJobs_def ptr_references [OF 1(2)] Let_def)
    qed
  qed
qed

lemma ptr_ProcessMessage_rep:
  assumes rep: "rep_message s0 s m M"
  shows "answers_as s0 (ProcessMessage sur p M) (ptr_ProcessMessage sur p (m, s))"
  using rep ptr_request_type_rep [OF rep] ptr_ServeJobSubmission_rep [OF rep]
    ptr_ServeJobRemove_rep [OF rep] ptr_ListJobs_rep [OF rep]
  by (cases "req_type (request M)") (auto simp: ProcessMessage_def ptr_ProcessMessage_def)

section \<open>What a turn leaves behind\<close>

text \<open>
  The objects of the request a message still has when \<open>release_request\<close> is called: nobody has a
  pointer to them afterwards.
\<close>

definition left_behind :: "Message \<Rightarrow> nat" where
  "left_behind M = (if has_request M then objects_of M else 0)"

definition turn_leak :: "'w Surroundings \<Rightarrow> 'z Wire \<Rightarrow> 'w Planner \<times> 'z \<Rightarrow> nat" where
  "turn_leak sur wire st =
     (case st of (p, z) \<Rightarrow>
       (case wire_recv wire z of None \<Rightarrow> 0
        | Some (raw, z1) \<Rightarrow>
            (case ParseFromString wire raw of
               (parsed, msg) \<Rightarrow>
                 if \<not> parsed \<or> msg_type msg = REPLY then 0
                 else (case ProcessMessage sur p msg of Inl f \<Rightarrow> 0
                       | Inr (ok, msg1, p1) \<Rightarrow> left_behind msg1))))"

lemma ptr_finish_reply_rep:
  assumes "rep_message s0 s m M"
  shows "\<exists>s0'. rep_message s0' s (snd (ptr_finish_reply m)) (finish_reply M) \<and>
    object_count s0' = object_count s0 + left_behind M"
proof (cases "has_request M")
  case True
  then have "rq_is RequestTag m" using rq_is_iff(1) [OF assms] by simp
  from ptr_release_rq_rep [OF assms this] obtain a m' where r: "ptr_release_rq RequestTag m = (Some a, m')"
    "rep_message s s m' (M\<lparr>msg_rq := RQ_NOT_SET\<rparr>)" by blast
  have "rep_message s s (snd (ptr_finish_reply m)) (finish_reply M)"
    using set_type_rep [OF r(2), of REPLY] r(1) True
    by (simp add: ptr_finish_reply_def finish_reply_def release_request_def)
  moreover have "object_count s = object_count s0 + left_behind M"
    using rep_message_count [OF assms] True by (simp add: left_behind_def)
  ultimately show ?thesis by blast
next
  case False
  then have "ptr_release_rq RequestTag m = (None, m)"
    using rq_is_iff(1) [OF assms] ptr_release_rq_other by auto
  then show ?thesis
    using set_type_rep [OF assms, of REPLY] False
    by (intro exI [of _ s0]) (simp add: ptr_finish_reply_def finish_reply_def release_request_def left_behind_def)
qed

lemma send_and_delete_rep:
  assumes "rep_message s0 s m M"
  shows "case wire_send wire z (SerializeAsString wire M) of
      None \<Rightarrow> send_and_delete wire p z (m, s) = Inl SocketError
    | Some z2 \<Rightarrow> \<exists>s2. send_and_delete wire p z (m, s) = Inr (p, z2, s2) \<and> fresh_store s2 \<and>
        object_count s2 = object_count s0"
  using message_value_rep [OF assms] delete_Message_rep [OF assms] same_objects_count
  by (fastforce simp: send_and_delete_def split: option.split)

text \<open>
  On objects the turn is the turn on values, with no deleted object read or deleted again; the
  request it released is all it leaves.
\<close>

lemma ptr_Serve_turn_rep:
  assumes fresh: "fresh_store s"
  shows "case Serve_turn sur wire (p, z) of
      Inl f \<Rightarrow> ptr_Serve_turn sur wire (p, z, s) = Inl f
    | Inr (p', z') \<Rightarrow> \<exists>s'. ptr_Serve_turn sur wire (p, z, s) = Inr (p', z', s') \<and> fresh_store s' \<and>
        object_count s' = object_count s + turn_leak sur wire (p, z)"
proof (cases "wire_recv wire z")
  case None
  then show ?thesis by (simp add: Serve_turn_def ptr_Serve_turn_def)
next
  case (Some rz)
  obtain raw z1 where recv: "wire_recv wire z = Some (raw, z1)" using Some by (cases rz) simp
  obtain parsed msg where parse: "ParseFromString wire raw = (parsed, msg)" by (cases "ParseFromString wire raw")
  obtain m s0 where load: "load_message msg s = (m, s0)" by (cases "load_message msg s")
  have rep: "rep_message s s0 m msg" using load_message_rep [OF fresh load] .
  have type: "mo_type m = msg_type msg" using rep by (simp add: rep_message_def)
  note simps = Serve_turn_def ptr_Serve_turn_def turn_leak_def recv parse load type
  show ?thesis
  proof (cases "parsed \<and> msg_type msg \<noteq> REPLY")
    case False
    show ?thesis
    proof (cases parsed)
      case True
      obtain s2 where s2: "delete_Message m s0 = Some s2" "same_objects s s2" "fresh_store s2"
        using delete_Message_rep [OF rep] by blast
      with False True same_objects_count [OF s2(2)] show ?thesis by (simp add: simps)
    next
      case unparsed: False
      obtain m1 s1 where 1: "ptr_set_rc 1 (m\<lparr>mo_type := REPLY\<rparr>, s0) = Some (m1, s1)"
        "rep_message s s1 m1 (ProcessUnparsableMsg msg)"
        using ptr_set_rc_rep [OF set_type_rep [OF rep, of REPLY], of 1]
        by (auto simp: ProcessUnparsableMsg_def)
      show ?thesis
        using send_and_delete_rep [OF 1(2), where wire = wire and z = z1 and p = p] unparsed 1(1)
        by (auto simp: simps split: option.splits)
    qed
  next
    case True
    show ?thesis
    proof (cases "ProcessMessage sur p msg")
      case (Inl f)
      with ptr_ProcessMessage_rep [OF rep, of sur p] True show ?thesis by (simp add: simps)
    next
      case (Inr r)
      obtain ok msg1 p1 where r: "r = (ok, msg1, p1)" by (cases r)
      with ptr_ProcessMessage_rep [OF rep, of sur p] Inr obtain m1 s1 where
        1: "ptr_ProcessMessage sur p (m, s0) = Inr (ok, (m1, s1), p1)" "rep_message s s1 m1 msg1"
        by auto
      obtain s0' where 2: "rep_message s0' s1 (snd (ptr_finish_reply m1)) (finish_reply msg1)"
        "object_count s0' = object_count s + left_behind msg1"
        using ptr_finish_reply_rep [OF 1(2)] by blast
      show ?thesis
        using send_and_delete_rep [OF 2(1), where wire = wire and z = z1 and p = p1] True Inr r 1(1) 2(2)
        by (auto simp: simps split: option.splits)
    qed
  qed
qed

section \<open>The loop\<close>

definition no_objects :: MsgStore where
  "no_objects = \<lparr>st_members = Map.empty, st_requests = Map.empty, st_errors = Map.empty,
     st_replies = Map.empty, st_next = 0\<rparr>"

fun ptr_Serve ::
  "'z Wire \<Rightarrow> 'w Surroundings list \<Rightarrow> 'w Planner \<times> 'z \<times> MsgStore
    \<Rightarrow> server_failure + 'w Planner \<times> 'z \<times> MsgStore" where
  "ptr_Serve wire [] st = Inr st"
| "ptr_Serve wire (sur # surs) st =
     (case ptr_Serve_turn sur wire st of Inl f \<Rightarrow> Inl f | Inr st1 \<Rightarrow> ptr_Serve wire surs st1)"

fun serve_leak :: "'z Wire \<Rightarrow> 'w Surroundings list \<Rightarrow> 'w Planner \<times> 'z \<Rightarrow> nat" where
  "serve_leak wire [] st = 0"
| "serve_leak wire (sur # surs) st =
     turn_leak sur wire st +
     (case Serve_turn sur wire st of Inl f \<Rightarrow> 0 | Inr st1 \<Rightarrow> serve_leak wire surs st1)"

lemma ptr_Serve_rep:
  "fresh_store s \<Longrightarrow> Serve wire surs (p, z) = Inr (p', z') \<Longrightarrow>
   \<exists>s'. ptr_Serve wire surs (p, z, s) = Inr (p', z', s') \<and> fresh_store s' \<and>
     object_count s' = object_count s + serve_leak wire surs (p, z)"
proof (induction surs arbitrary: p z s)
  case Nil
  then show ?case by auto
next
  case (Cons sur surs)
  from Cons.prems(2) obtain p1 z1 where 1: "Serve_turn sur wire (p, z) = Inr (p1, z1)"
    "Serve wire surs (p1, z1) = Inr (p', z')" by (auto split: sum.splits)
  from ptr_Serve_turn_rep [OF Cons.prems(1), of sur wire p z] 1(1) obtain s1 where
    s1: "ptr_Serve_turn sur wire (p, z, s) = Inr (p1, z1, s1)" "fresh_store s1"
    "object_count s1 = object_count s + turn_leak sur wire (p, z)" by auto
  from Cons.IH [OF s1(2) 1(2)] s1 1(1) show ?case by auto
qed

lemma no_objects_simps [simp]: "fresh_store no_objects" "object_count no_objects = 0"
  by (simp_all add: no_objects_def fresh_store_def object_count_def)

text \<open>Which requests are left behind: those that get no reply of their own.\<close>

lemma left_behind_reply [simp]: "left_behind (mutable_reply f M) = 0"
  by (simp add: left_behind_def)

lemma ProcessMessage_left_behind:
  assumes "ProcessMessage sur p M = Inr (ok, M', p')"
  shows "M' = M \<or> left_behind M' = 0"
  using assms
  by (auto simp: ProcessMessage_def ServeJobSubmission_def ServeJobRemove_def ServeListJobs_def Let_def
      split: Request_Type.splits if_splits option.splits prod.splits)

end
