(* ===== verification/ZmqMessage.thy ===== *)
theory ZmqMessage
  imports ZeroMQ
begin

text \<open>
  The class \<open>message_t\<close> of \<open>src/src/common/communication/zmq.hpp\<close> as it is: an object is one
  \<open>zmq_msg_t\<close>, a structure \<open>'m\<close> that the C functions fill, move and close and whose content
  is memory behind the pointer \<open>zmq_msg_data\<close>. The program sends and receives messages through
  \<open>ZeroMQ\<close>, where a message is its bytes; here are the members that make, rebuild, move and
  copy them, and what becomes of an object when a member throws.

  A member works on the object and the world, and an exception leaves both as they are at that
  point. The memory functions read and write bytes at an address.
\<close>

record ('w, 'm) libzmq_msg = "'w libzmq" +
  msg_init :: "'m \<times> 'w \<Rightarrow> int \<times> 'm \<times> 'w"
  msg_init_size :: "nat \<Rightarrow> 'm \<times> 'w \<Rightarrow> int \<times> 'm \<times> 'w"
  msg_init_data :: "ptr \<Rightarrow> nat \<Rightarrow> ptr \<Rightarrow> ptr \<Rightarrow> 'm \<times> 'w \<Rightarrow> int \<times> 'm \<times> 'w"
  msg_close :: "'m \<times> 'w \<Rightarrow> int \<times> 'm \<times> 'w"
  msg_move :: "'m \<times> 'm \<times> 'w \<Rightarrow> int \<times> 'm \<times> 'm \<times> 'w"
  msg_copy :: "'m \<times> 'm \<times> 'w \<Rightarrow> int \<times> 'm \<times> 'm \<times> 'w"
  msg_more :: "'m \<Rightarrow> int"
  msg_data :: "'m \<Rightarrow> ptr"
  msg_size :: "'m \<Rightarrow> nat"
  read_memory :: "ptr \<Rightarrow> nat \<Rightarrow> 'w \<Rightarrow> string"
  write_memory :: "ptr \<Rightarrow> string \<Rightarrow> 'w \<Rightarrow> 'w"

type_synonym ('s, 'a) member = "'s \<Rightarrow> (zmq_failure + 'a) \<times> 's"

text \<open>\<open>int rc = f (...); if (rc != 0) throw error_t ();\<close> and the same with an assertion.\<close>

definition check_rc :: "('w, 'm) libzmq_msg \<Rightarrow> ('m \<times> 'w \<Rightarrow> int \<times> 'm \<times> 'w) \<Rightarrow> ('m \<times> 'w, unit) member" where
  "check_rc lib f s =
     (case f s of (rc, s') \<Rightarrow>
        (if rc \<noteq> 0 then Inl (Error_t (zmq_errno lib (snd s'))) else Inr (), s'))"

definition assert_rc :: "('s \<Rightarrow> int \<times> 's) \<Rightarrow> ('s, unit) member" where
  "assert_rc f s = (case f s of (rc, s') \<Rightarrow> (if rc \<noteq> 0 then Inl Assertion_failed else Inr (), s'))"

definition and_then :: "('s, unit) member \<Rightarrow> ('s, 'a) member \<Rightarrow> ('s, 'a) member" where
  "and_then f g s = (case f s of (Inl e, s') \<Rightarrow> (Inl e, s') | (Inr u, s') \<Rightarrow> g s')"

definition memcpy_to_message :: "('w, 'm) libzmq_msg \<Rightarrow> ptr \<Rightarrow> nat \<Rightarrow> ('m \<times> 'w, unit) member" where
  "memcpy_to_message lib source n = (\<lambda>(m, w).
     (Inr (), m, write_memory lib (msg_data lib m) (read_memory lib source n w) w))"

section \<open>Constructors and the destructor\<close>

text \<open>A constructor starts from a structure with any content.\<close>

definition message_new :: "('w, 'm) libzmq_msg \<Rightarrow> ('m \<times> 'w, unit) member" where
  "message_new lib = check_rc lib (msg_init lib)"

definition message_new_size :: "('w, 'm) libzmq_msg \<Rightarrow> nat \<Rightarrow> ('m \<times> 'w, unit) member" where
  "message_new_size lib n = check_rc lib (msg_init_size lib n)"

definition message_new_copy :: "('w, 'm) libzmq_msg \<Rightarrow> ptr \<Rightarrow> nat \<Rightarrow> ('m \<times> 'w, unit) member" where
  "message_new_copy lib source n =
     and_then (check_rc lib (msg_init_size lib n)) (memcpy_to_message lib source n)"

definition message_new_data ::
  "('w, 'm) libzmq_msg \<Rightarrow> ptr \<Rightarrow> nat \<Rightarrow> ptr \<Rightarrow> ptr \<Rightarrow> ('m \<times> 'w, unit) member" where
  "message_new_data lib source n ffn hint = check_rc lib (msg_init_data lib source n ffn hint)"

text \<open>
  The constructor from a range: the values of the range are byte strings of length \<open>sizeof\<close>,
  assigned one after the other.
\<close>

primrec copy_values :: "('w, 'm) libzmq_msg \<Rightarrow> nat \<Rightarrow> ptr \<Rightarrow> string list \<Rightarrow> 'w \<Rightarrow> 'w" where
  "copy_values lib sizeof dest [] w = w"
| "copy_values lib sizeof dest (v # vs) w =
     copy_values lib sizeof (dest + sizeof) vs (write_memory lib dest v w)"

definition message_new_range :: "('w, 'm) libzmq_msg \<Rightarrow> nat \<Rightarrow> string list \<Rightarrow> ('m \<times> 'w, unit) member" where
  "message_new_range lib sizeof vs =
     and_then (check_rc lib (msg_init_size lib (length vs * sizeof)))
       (\<lambda>(m, w). (Inr (), m, copy_values lib sizeof (msg_data lib m) vs w))"

text \<open>
  The move constructor copies the structure and initialises the one of \<open>rhs\<close>; here the object
  worked on is \<open>rhs\<close> and the result the new one. The move assignment swaps the structures.
\<close>

definition message_new_move :: "('w, 'm) libzmq_msg \<Rightarrow> ('m \<times> 'w, 'm) member" where
  "message_new_move lib = (\<lambda>(rhs, w).
     and_then (check_rc lib (msg_init lib)) (\<lambda>s. (Inr rhs, s)) (rhs, w))"

definition message_assign :: "'m \<times> 'm \<Rightarrow> 'm \<times> 'm" where
  "message_assign = (\<lambda>(msg, rhs). (rhs, msg))"

definition message_delete :: "('w, 'm) libzmq_msg \<Rightarrow> ('m \<times> 'w, unit) member" where
  "message_delete lib = assert_rc (msg_close lib)"

section \<open>Rebuilding, moving and copying\<close>

definition rebuild :: "('w, 'm) libzmq_msg \<Rightarrow> ('m \<times> 'w, unit) member" where
  "rebuild lib = and_then (check_rc lib (msg_close lib)) (check_rc lib (msg_init lib))"

definition rebuild_size :: "('w, 'm) libzmq_msg \<Rightarrow> nat \<Rightarrow> ('m \<times> 'w, unit) member" where
  "rebuild_size lib n = and_then (check_rc lib (msg_close lib)) (check_rc lib (msg_init_size lib n))"

definition rebuild_copy :: "('w, 'm) libzmq_msg \<Rightarrow> ptr \<Rightarrow> nat \<Rightarrow> ('m \<times> 'w, unit) member" where
  "rebuild_copy lib source n =
     and_then (check_rc lib (msg_close lib))
       (and_then (check_rc lib (msg_init_size lib n)) (memcpy_to_message lib source n))"

definition rebuild_data ::
  "('w, 'm) libzmq_msg \<Rightarrow> ptr \<Rightarrow> nat \<Rightarrow> ptr \<Rightarrow> ptr \<Rightarrow> ('m \<times> 'w, unit) member" where
  "rebuild_data lib source n ffn hint =
     and_then (check_rc lib (msg_close lib)) (check_rc lib (msg_init_data lib source n ffn hint))"

text \<open>\<open>move\<close> and \<open>copy\<close> work on the object and on the one they are given.\<close>

definition check_rc2 ::
  "('w, 'm) libzmq_msg \<Rightarrow> ('m \<times> 'm \<times> 'w \<Rightarrow> int \<times> 'm \<times> 'm \<times> 'w) \<Rightarrow> ('m \<times> 'm \<times> 'w, unit) member" where
  "check_rc2 lib f s =
     (case f s of (rc, s') \<Rightarrow>
        (if rc \<noteq> 0 then Inl (Error_t (zmq_errno lib (snd (snd s')))) else Inr (), s'))"

definition message_move :: "('w, 'm) libzmq_msg \<Rightarrow> ('m \<times> 'm \<times> 'w, unit) member" where
  "message_move lib = check_rc2 lib (msg_move lib)"

definition message_copy :: "('w, 'm) libzmq_msg \<Rightarrow> ('m \<times> 'm \<times> 'w, unit) member" where
  "message_copy lib = check_rc2 lib (msg_copy lib)"

definition more :: "('w, 'm) libzmq_msg \<Rightarrow> 'm \<Rightarrow> bool" where
  "more lib m \<longleftrightarrow> msg_more lib m \<noteq> 0"

text \<open>What is in the message: \<open>size\<close> bytes at \<open>data\<close>.\<close>

definition message_content :: "('w, 'm) libzmq_msg \<Rightarrow> 'm \<Rightarrow> 'w \<Rightarrow> string" where
  "message_content lib m w = read_memory lib (msg_data lib m) (msg_size lib m) w"

section \<open>What the library documents\<close>

text \<open>
  \<open>valid\<close> structures are those that were initialised and not closed since; only they can be
  closed, with \<open>EFAULT\<close> for others. \<open>zmq_msg_init\<close> has no error; \<open>zmq_msg_init_size\<close> has
  \<open>ENOMEM\<close>, and then there is no message. \<open>own\<close> is memory of the program, which the library
  does not change. Writing is to memory.
\<close>

definition message_laws :: "('w, 'm) libzmq_msg \<Rightarrow> ('m \<Rightarrow> bool) \<Rightarrow> (ptr \<Rightarrow> nat \<Rightarrow> bool) \<Rightarrow> bool" where
  "message_laws lib valid own \<longleftrightarrow>
     (\<forall>m w. \<exists>m' w'. msg_init lib (m, w) = (0, m', w') \<and> valid m' \<and> msg_size lib m' = 0) \<and>
     (\<forall>n m w rc m' w'. msg_init_size lib n (m, w) = (rc, m', w') \<longrightarrow>
        (if rc = 0 then valid m' \<and> msg_size lib m' = n else \<not> valid m') \<and>
        (\<forall>p k. own p k \<longrightarrow> read_memory lib p k w' = read_memory lib p k w)) \<and>
     (\<forall>m w rc m' w'. msg_close lib (m, w) = (rc, m', w') \<longrightarrow>
        (rc = 0 \<longleftrightarrow> valid m) \<and> \<not> valid m' \<and>
        (\<forall>p k. own p k \<longrightarrow> read_memory lib p k w' = read_memory lib p k w)) \<and>
     (\<forall>p k w. length (read_memory lib p k w) = k) \<and>
     (\<forall>p s w. read_memory lib p (length s) (write_memory lib p s w) = s) \<and>
     (\<forall>p s t w. write_memory lib (p + length s) t (write_memory lib p s w) = write_memory lib p (s @ t) w) \<and>
     (\<forall>p w. write_memory lib p [] w = w)"

lemmas member_defs = check_rc_def assert_rc_def and_then_def

lemma message_lawsD:
  assumes "message_laws lib valid own"
  shows "\<exists>m' w'. msg_init lib (m, w) = (0, m', w') \<and> valid m' \<and> msg_size lib m' = 0"
    and "msg_init_size lib n (m, w) = (rc, m', w') \<Longrightarrow>
      (if rc = 0 then valid m' \<and> msg_size lib m' = n else \<not> valid m')"
    and "msg_init_size lib n (m, w) = (rc, m', w') \<Longrightarrow> own p k \<Longrightarrow>
      read_memory lib p k w' = read_memory lib p k w"
    and "msg_close lib (m, w) = (rc, m', w') \<Longrightarrow> (rc = 0 \<longleftrightarrow> valid m) \<and> \<not> valid m'"
    and "msg_close lib (m, w) = (rc, m', w') \<Longrightarrow> own p k \<Longrightarrow>
      read_memory lib p k w' = read_memory lib p k w"
    and "length (read_memory lib p k w) = k"
    and "read_memory lib p (length s) (write_memory lib p s w) = s"
    and "write_memory lib (p + length s) t (write_memory lib p s w) = write_memory lib p (s @ t) w"
    and "write_memory lib p [] w = w"
  using assms unfolding message_laws_def by (elim conjE, (blast | metis))+

lemma message_delete_iff:
  assumes "message_laws lib valid own"
  shows "fst (message_delete lib (m, w)) = (if valid m then Inr () else Inl Assertion_failed)"
proof -
  obtain rc m' w' where c: "msg_close lib (m, w) = (rc, m', w')" by (cases "msg_close lib (m, w)") auto
  from message_lawsD(4) [OF assms c] c show ?thesis by (simp add: message_delete_def assert_rc_def)
qed

lemma memcpy_to_message_content:
  assumes "message_laws lib valid own"
  shows "memcpy_to_message lib p n (m, w) = (Inr (), m, write_memory lib (msg_data lib m) (read_memory lib p n w) w)"
    and "msg_size lib m = length s \<Longrightarrow>
      message_content lib m (write_memory lib (msg_data lib m) s w) = s"
  using message_lawsD(7) [OF assms, of "msg_data lib m" s w] by (simp_all add: memcpy_to_message_def message_content_def)

text \<open>
  A message made from memory has these bytes and can be destroyed; when there is no memory the
  constructor throws.
\<close>

lemma message_new_copy_outcome:
  assumes laws: "message_laws lib valid own" and "own p n"
  obtains m' w' where "message_new_copy lib p n (m, w) = (Inr (), m', w')" "valid m'"
      "message_content lib m' w' = read_memory lib p n w"
  | e m' w' where "message_new_copy lib p n (m, w) = (Inl (Error_t e), m', w')" "\<not> valid m'"
proof -
  obtain rc m1 w1 where i: "msg_init_size lib n (m, w) = (rc, m1, w1)"
    by (cases "msg_init_size lib n (m, w)") auto
  note size = message_lawsD(2) [OF laws i] and kept = message_lawsD(3) [OF laws i \<open>own p n\<close>]
  show thesis
  proof (cases "rc = 0")
    case True
    show thesis
      by (rule that(1) [of m1 "write_memory lib (msg_data lib m1) (read_memory lib p n w1) w1"])
        (use i True size kept memcpy_to_message_content [OF laws] message_lawsD(6) [OF laws] in
          \<open>simp_all add: message_new_copy_def member_defs\<close>)
  next
    case False
    show thesis
      by (rule that(2) [of "zmq_errno lib w1" m1 w1])
        (use i False size in \<open>simp_all add: message_new_copy_def member_defs\<close>)
  qed
qed

text \<open>
  Rebuilding closes the message first. With memory for the new one the object has the bytes
  asked for; without, \<open>rebuild\<close> throws and leaves an object that its destructor, which runs
  when the exception leaves its scope, cannot close: the program is aborted.
\<close>

theorem rebuild_copy_outcome:
  assumes laws: "message_laws lib valid own" and "valid m" and "own p n"
  obtains m' w' where "rebuild_copy lib p n (m, w) = (Inr (), m', w')" "valid m'"
      "message_content lib m' w' = read_memory lib p n w" "fst (message_delete lib (m', w')) = Inr ()"
  | e m' w' where "rebuild_copy lib p n (m, w) = (Inl (Error_t e), m', w')"
      "fst (message_delete lib (m', w')) = Inl Assertion_failed"
proof -
  obtain rc m1 w1 where c: "msg_close lib (m, w) = (rc, m1, w1)" by (cases "msg_close lib (m, w)") auto
  from message_lawsD(4) [OF laws c] \<open>valid m\<close> have "rc = 0" by simp
  with c have r: "rebuild_copy lib p n (m, w) = message_new_copy lib p n (m1, w1)"
    by (simp add: rebuild_copy_def message_new_copy_def member_defs)
  note kept = message_lawsD(5) [OF laws c \<open>own p n\<close>]
  show thesis
  proof (cases rule: message_new_copy_outcome [OF laws \<open>own p n\<close>, of m1 w1])
    case (1 m' w')
    then show thesis
      by (intro that(1) [of m' w']) (simp_all add: r kept message_delete_iff [OF laws])
  next
    case (2 e m' w')
    then show thesis
      by (intro that(2) [of e m' w']) (simp_all add: r message_delete_iff [OF laws])
  qed
qed

text \<open>Copying a range value by value writes what \<open>memcpy\<close> writes.\<close>

lemma copy_values_write:
  assumes "message_laws lib valid own"
  shows "\<forall>v\<in>set vs. length v = k \<Longrightarrow> copy_values lib k p vs w = write_memory lib p (concat vs) w"
proof (induction vs arbitrary: p w)
  case Nil
  then show ?case by (simp add: message_lawsD(9) [OF assms])
next
  case (Cons v vs)
  have "copy_values lib k p (v # vs) w = write_memory lib (p + length v) (concat vs) (write_memory lib p v w)"
    using Cons by simp
  then show ?case by (simp add: message_lawsD(8) [OF assms])
qed

lemma length_concat_values: "\<forall>v\<in>set vs. length v = k \<Longrightarrow> length (concat vs) = length vs * k"
  by (induction vs) auto

theorem range_message_content:
  assumes laws: "message_laws lib valid own" and "\<forall>v\<in>set vs. length v = k"
    and run: "message_new_range lib k vs (m, w) = (Inr (), m', w')"
  shows "valid m' \<and> message_content lib m' w' = concat vs"
proof -
  obtain rc m1 w1 where i: "msg_init_size lib (length vs * k) (m, w) = (rc, m1, w1)"
    by (cases "msg_init_size lib (length vs * k) (m, w)") auto
  from run i have "rc = 0" and m': "m' = m1" "w' = copy_values lib k (msg_data lib m1) vs w1"
    by (auto simp: message_new_range_def member_defs split: if_splits)
  with message_lawsD(2) [OF laws i] have "valid m'" "msg_size lib m' = length (concat vs)"
    by (simp_all add: length_concat_values [OF assms(2)])
  then show ?thesis
    using m' copy_values_write [OF laws assms(2)] message_lawsD(7) [OF laws] by (simp add: message_content_def)
qed

text \<open>
  The move constructor gives the structure to the new object and leaves an empty message, so
  that both can be destroyed.
\<close>

lemma message_new_move_outcome:
  assumes "message_laws lib valid own" and "valid m"
  shows "\<exists>m' w'. message_new_move lib (m, w) = (Inr m, m', w') \<and> valid m' \<and> msg_size lib m' = 0"
  using message_lawsD(1) [OF assms(1), of m w] by (auto simp: message_new_move_def member_defs)

section \<open>A library\<close>

text \<open>
  Messages in a memory of bytes, with a limit on their size: a structure is its address, its
  size and whether it is valid; the world has the memory and the next free address.
\<close>

type_synonym demo_struct = "ptr \<times> nat \<times> bool"
type_synonym demo_memory = "(ptr \<Rightarrow> char) \<times> ptr"

definition demo_write :: "ptr \<Rightarrow> string \<Rightarrow> demo_memory \<Rightarrow> demo_memory" where
  "demo_write p s w =
     (\<lambda>a. if p \<le> a \<and> a < p + length s then s ! (a - p) else fst w a, snd w)"

definition demo_messages :: "(demo_memory, demo_struct) libzmq_msg" where
  "demo_messages =
     \<lparr>zmq_errno = \<lambda>w. Errno 12, zmq_ctx_new = \<lambda>w. (1, w), zmq_ctx_set = \<lambda>w c opt v. (0, w),
      zmq_ctx_destroy = \<lambda>w c. Some (0, w), zmq_socket = \<lambda>w c t. (1, w), zmq_close = \<lambda>w p. (0, w),
      zmq_setsockopt = \<lambda>w p opt v. (0, w), zmq_bind = \<lambda>w p a. (0, w), zmq_connect = \<lambda>w p a. (0, w),
      zmq_msg_init = \<lambda>w. (0, w), zmq_msg_init_size = \<lambda>w n. (0, replicate n CHR 0x00, w),
      zmq_msg_close = \<lambda>w m. (0, w), zmq_msg_send = \<lambda>w m p flags. (0, w),
      zmq_msg_recv = \<lambda>w p flags. (0, [], w), zmq_poll = \<lambda>w p t. (0, False, w),
      zmq_max_sockets_default = 1023,
      msg_init = \<lambda>(m, w). (0, (0, 0, True), w),
      msg_init_size = \<lambda>n (m, w). if n \<le> 4 then (0, (snd w, n, True), (fst w, snd w + n))
        else (- 1, (0, 0, False), w),
      msg_init_data = \<lambda>p n ffn hint (m, w). (0, (p, n, True), w),
      msg_close = \<lambda>((p, n, ok), w). (if ok then 0 else - 1, (0, 0, False), w),
      msg_move = \<lambda>(m1, m2, w). (0, m2, (0, 0, True), w),
      msg_copy = \<lambda>(m1, m2, w). (0, m2, m2, w),
      msg_more = \<lambda>m. 0, msg_data = fst, msg_size = fst \<circ> snd,
      read_memory = \<lambda>p n w. map (fst w) [p..<p + n], write_memory = demo_write\<rparr>"

lemma demo_write_append: "demo_write (p + length s) t (demo_write p s w) = demo_write p (s @ t) w"
  by (auto simp: demo_write_def fun_eq_iff nth_append)

lemma demo_write_read: "map (fst (demo_write p s w)) [p..<p + length s] = s"
  by (rule nth_equalityI) (simp_all add: demo_write_def)

lemma demo_messages_laws: "message_laws demo_messages (snd \<circ> snd) (\<lambda>p k. True)"
proof -
  have "demo_write p [] w = w" for p w by (cases w) (auto simp: demo_write_def fun_eq_iff)
  then show ?thesis
    by (simp add: message_laws_def demo_messages_def demo_write_append demo_write_read)
qed

end
