(* ===== verification/ZmqSocket.thy ===== *)
theory ZmqSocket
  imports ZeroMQ
begin

text \<open>
  The rest of \<open>src/src/common/communication/zmq.hpp\<close> but for messages and monitors: the values of
  \<open>error_t\<close>, polling on several items, proxies, the version, and the members of \<open>context_t\<close> and
  \<open>socket_t\<close> that \<open>ZeroMQ\<close> leaves out because the program does not call them. The header is read
  as for a compiler with C++11 and a library of version 4.1 or later.
\<close>

record poll_item =
  item_socket :: ptr
  item_fd :: int
  item_events :: "16 word"
  item_revents :: "16 word"

record 'w libzmq_more = "'w libzmq" +
  zmq_strerror :: "zmq_errno \<Rightarrow> string"
  zmq_poll_items :: "poll_item list \<Rightarrow> 32 word \<Rightarrow> int \<Rightarrow> 'w \<Rightarrow> int \<times> poll_item list \<times> 'w"
  zmq_proxy :: "ptr \<Rightarrow> ptr \<Rightarrow> ptr \<Rightarrow> 'w \<Rightarrow> (int \<times> 'w) option"
  zmq_proxy_steerable :: "ptr \<Rightarrow> ptr \<Rightarrow> ptr \<Rightarrow> ptr \<Rightarrow> 'w \<Rightarrow> (int \<times> 'w) option"
  zmq_version :: "int \<times> int \<times> int"
  zmq_setsockopt_bytes :: "'w \<Rightarrow> ptr \<Rightarrow> socket_option \<Rightarrow> string \<Rightarrow> int \<times> 'w"
  zmq_getsockopt :: "'w \<Rightarrow> ptr \<Rightarrow> socket_option \<Rightarrow> string \<Rightarrow> nat \<Rightarrow> int \<times> string \<times> nat \<times> 'w"
  zmq_unbind :: "'w \<Rightarrow> ptr \<Rightarrow> string \<Rightarrow> int \<times> 'w"
  zmq_disconnect :: "'w \<Rightarrow> ptr \<Rightarrow> string \<Rightarrow> int \<times> 'w"
  zmq_send :: "'w \<Rightarrow> ptr \<Rightarrow> string \<Rightarrow> int \<Rightarrow> int \<times> 'w"
  zmq_recv :: "'w \<Rightarrow> ptr \<Rightarrow> nat \<Rightarrow> int \<Rightarrow> int \<times> string \<times> 'w"
  zmq_socket_monitor :: "'w \<Rightarrow> ptr \<Rightarrow> string option \<Rightarrow> int \<Rightarrow> int \<times> 'w"

abbreviation core :: "'w libzmq_more \<Rightarrow> 'w libzmq" where
  "core lib \<equiv> libzmq.truncate lib"

section \<open>Functions\<close>

text \<open>\<open>error_t\<close> keeps the error number; \<open>what\<close> is its text.\<close>

definition error_num :: "zmq_errno \<Rightarrow> zmq_errno" where
  "error_num errnum = errnum"

definition error_what :: "'w libzmq_more \<Rightarrow> zmq_errno \<Rightarrow> string" where
  "error_what lib errnum = zmq_strerror lib errnum"

text \<open>
  \<open>poll\<close> on an array: the number of items is cast to \<open>int\<close>, and the results come back in the
  items, although they are passed as constants.
\<close>

definition poll_items ::
  "'w libzmq_more \<Rightarrow> poll_item list \<Rightarrow> 64 word \<Rightarrow> int \<Rightarrow> ('w, int \<times> poll_item list) zmq_call" where
  "poll_items lib items nitems timeout w =
     (case zmq_poll_items lib items (ucast nitems) timeout w of
        (rc, items', w') \<Rightarrow> if rc < 0 then throw_error_t (core lib) w' else zreturn (rc, items') w')"

definition poll_forever ::
  "'w libzmq_more \<Rightarrow> poll_item list \<Rightarrow> 64 word \<Rightarrow> ('w, int \<times> poll_item list) zmq_call" where
  "poll_forever lib items nitems = poll_items lib items nitems (- 1)"

text \<open>A vector is polled whole.\<close>

definition poll_vector ::
  "'w libzmq_more \<Rightarrow> poll_item list \<Rightarrow> int \<Rightarrow> ('w, int \<times> poll_item list) zmq_call" where
  "poll_vector lib items timeout = poll_items lib items (of_nat (length items)) timeout"

text \<open>\<open>proxy\<close> returns only with an error; \<open>None\<close> is a proxy that runs for ever.\<close>

definition throw_or_block ::
  "'w libzmq_more \<Rightarrow> ('w \<Rightarrow> (int \<times> 'w) option) \<Rightarrow> ('w, unit) zmq_call" where
  "throw_or_block lib f w =
     (case f w of
        None \<Rightarrow> Inl Blocks
      | Some (rc, w') \<Rightarrow> if rc \<noteq> 0 then throw_error_t (core lib) w' else zreturn () w')"

definition proxy :: "'w libzmq_more \<Rightarrow> ptr \<Rightarrow> ptr \<Rightarrow> ptr \<Rightarrow> ('w, unit) zmq_call" where
  "proxy lib frontend backend capture = throw_or_block lib (zmq_proxy lib frontend backend capture)"

definition proxy_steerable :: "'w libzmq_more \<Rightarrow> ptr \<Rightarrow> ptr \<Rightarrow> ptr \<Rightarrow> ptr \<Rightarrow> ('w, unit) zmq_call" where
  "proxy_steerable lib frontend backend capture control =
     throw_or_block lib (zmq_proxy_steerable lib frontend backend capture control)"

definition version :: "'w libzmq_more \<Rightarrow> int \<times> int \<times> int" where
  "version lib = zmq_version lib"

section \<open>Contexts\<close>

definition context_default :: "'w libzmq_more \<Rightarrow> ('w, ptr) zmq_call" where
  "context_default lib w =
     (case zmq_ctx_new lib w of (p, w') \<Rightarrow> if p = 0 then throw_error_t (core lib) w' else zreturn p w')"

text \<open>Moving: the pointer of the new object, and what is left in the old one.\<close>

definition context_move :: "ptr \<Rightarrow> ptr \<times> ptr" where
  "context_move rhs = (rhs, 0)"

definition context_assign :: "ptr \<times> ptr \<Rightarrow> ptr \<times> ptr" where
  "context_assign = (\<lambda>(p, rhs). (rhs, p))"

definition context_delete :: "'w libzmq_more \<Rightarrow> ptr \<Rightarrow> ('w, unit) zmq_call" where
  "context_delete lib p w =
     (case zmq_ctx_destroy lib w p of
        None \<Rightarrow> Inl Blocks
      | Some (rc, w') \<Rightarrow> if rc \<noteq> 0 then Inl Assertion_failed else zreturn () w')"

section \<open>Sockets\<close>

record socket_t =
  sock_ptr :: ptr
  sock_ctx :: ptr

definition socket_t_new :: "'w libzmq_more \<Rightarrow> ptr \<Rightarrow> socket_type \<Rightarrow> ('w, socket_t) zmq_call" where
  "socket_t_new lib ctx type =
     zbind (socket_new (core lib) ctx type) (\<lambda>p. zreturn \<lparr>sock_ptr = p, sock_ctx = ctx\<rparr>)"

text \<open>
  The move constructor does not initialise \<open>ctxptr\<close>, whose value \<open>garbage\<close> is arbitrary, and the
  move assignment swaps the sockets and not the contexts.
\<close>

definition socket_move :: "ptr \<Rightarrow> socket_t \<Rightarrow> socket_t \<times> socket_t" where
  "socket_move garbage rhs = (\<lparr>sock_ptr = sock_ptr rhs, sock_ctx = garbage\<rparr>, rhs\<lparr>sock_ptr := 0\<rparr>)"

definition socket_assign :: "socket_t \<times> socket_t \<Rightarrow> socket_t \<times> socket_t" where
  "socket_assign = (\<lambda>(s, rhs). (s\<lparr>sock_ptr := sock_ptr rhs\<rparr>, rhs\<lparr>sock_ptr := sock_ptr s\<rparr>))"

definition socket_t_close :: "'w libzmq_more \<Rightarrow> socket_t \<Rightarrow> ('w, socket_t) zmq_call" where
  "socket_t_close lib s =
     zbind (socket_close (core lib) (sock_ptr s)) (\<lambda>u. zreturn (s\<lparr>sock_ptr := 0\<rparr>))"

definition socket_delete :: "'w libzmq_more \<Rightarrow> socket_t \<Rightarrow> ('w, socket_t) zmq_call" where
  "socket_delete lib s = socket_t_close lib s"

definition connected :: "socket_t \<Rightarrow> bool" where
  "connected s \<longleftrightarrow> sock_ptr s \<noteq> 0"

definition setsockopt_bytes ::
  "'w libzmq_more \<Rightarrow> socket_t \<Rightarrow> socket_option \<Rightarrow> string \<Rightarrow> ('w, unit) zmq_call" where
  "setsockopt_bytes lib s opt value =
     throw_unless_zero (core lib) (\<lambda>w. zmq_setsockopt_bytes lib w (sock_ptr s) opt value)"

text \<open>
  \<open>getsockopt\<close> writes at most \<open>optvallen\<close> bytes of the buffer and the length of the value. The
  template has a buffer \<open>raw\<close> of the size of its type, which is not initialised.
\<close>

definition socket_getsockopt ::
  "'w libzmq_more \<Rightarrow> socket_t \<Rightarrow> socket_option \<Rightarrow> string \<Rightarrow> nat \<Rightarrow> ('w, string \<times> nat) zmq_call" where
  "socket_getsockopt lib s opt buffer optvallen w =
     (case zmq_getsockopt lib w (sock_ptr s) opt buffer optvallen of
        (rc, buffer', len', w') \<Rightarrow>
          if rc \<noteq> 0 then throw_error_t (core lib) w' else zreturn (buffer', len') w')"

definition getsockopt_value ::
  "'w libzmq_more \<Rightarrow> socket_t \<Rightarrow> socket_option \<Rightarrow> string \<Rightarrow> ('w, string) zmq_call" where
  "getsockopt_value lib s opt raw =
     zbind (socket_getsockopt lib s opt raw (length raw)) (\<lambda>(value', len). zreturn value')"

definition socket_unbind :: "'w libzmq_more \<Rightarrow> socket_t \<Rightarrow> string \<Rightarrow> ('w, unit) zmq_call" where
  "socket_unbind lib s addr =
     throw_unless_zero (core lib) (\<lambda>w. zmq_unbind lib w (sock_ptr s) (c_str addr))"

definition socket_disconnect :: "'w libzmq_more \<Rightarrow> socket_t \<Rightarrow> string \<Rightarrow> ('w, unit) zmq_call" where
  "socket_disconnect lib s addr =
     throw_unless_zero (core lib) (\<lambda>w. zmq_disconnect lib w (sock_ptr s) (c_str addr))"

text \<open>Sending and receiving a buffer: the number of bytes, and 0 when the call would block.\<close>

definition send_buffer :: "'w libzmq_more \<Rightarrow> socket_t \<Rightarrow> string \<Rightarrow> int \<Rightarrow> ('w, nat) zmq_call" where
  "send_buffer lib s buf flags w =
     (case zmq_send lib w (sock_ptr s) buf flags of
        (nbytes, w') \<Rightarrow>
          if 0 \<le> nbytes then zreturn (nat nbytes) w'
          else if zmq_errno lib w' = EAGAIN then zreturn 0 w'
          else throw_error_t (core lib) w')"

definition recv_buffer :: "'w libzmq_more \<Rightarrow> socket_t \<Rightarrow> nat \<Rightarrow> int \<Rightarrow> ('w, nat \<times> string) zmq_call" where
  "recv_buffer lib s len flags w =
     (case zmq_recv lib w (sock_ptr s) len flags of
        (nbytes, content, w') \<Rightarrow>
          if 0 \<le> nbytes then zreturn (nat nbytes, content) w'
          else if zmq_errno lib w' = EAGAIN then zreturn (0, []) w'
          else throw_error_t (core lib) w')"

text \<open>The range is copied into a message, which is sent and destroyed.\<close>

definition send_range :: "'w libzmq_more \<Rightarrow> socket_t \<Rightarrow> string \<Rightarrow> int \<Rightarrow> ('w, bool) zmq_call" where
  "send_range lib s values flags =
     zbind (message_size (core lib) (length values)) (\<lambda>buffer.
     let msg = memcpy buffer values (length values) in
     zbind (socket_send (core lib) (sock_ptr s) msg flags) (\<lambda>rc.
     zbind (message_destroy (core lib) (if rc then [] else msg)) (\<lambda>u.
     zreturn rc)))"

section \<open>Objects that were moved from\<close>

text \<open>A socket that was moved from is not connected, and destroying it does nothing.\<close>

lemma moved_socket:
  assumes "socket_move garbage s = (s1, s0)"
  shows "sock_ptr s1 = sock_ptr s" "\<not> connected s0" "socket_delete lib s0 w = Inr (s0, w)"
  using assms
  by (auto simp: socket_move_def connected_def socket_delete_def socket_t_close_def socket_close_def
      zmq_call_defs)

text \<open>
  A context that was moved from holds a null pointer, for which the library documents \<open>EFAULT\<close>:
  its destructor fails its assertion.
\<close>

lemma moved_context:
  assumes "context_move p = (p1, p0)"
    and "zmq_ctx_destroy lib w 0 = Some (rc, w')" and "rc \<noteq> 0"
  shows "p1 = p" "context_delete lib p0 w = Inl Assertion_failed"
  using assms by (auto simp: context_move_def context_delete_def)

text \<open>
  The result 0 of \<open>send\<close> does not tell a message without content that was sent from one that was
  not sent because the call would block.
\<close>

lemma send_buffer_zero:
  "send_buffer lib s buf flags w = Inr (0, w') \<longleftrightarrow>
     zmq_send lib w (sock_ptr s) buf flags = (0, w') \<or>
     (\<exists>n. n < 0 \<and> zmq_send lib w (sock_ptr s) buf flags = (n, w') \<and> zmq_errno lib w' = EAGAIN)"
  by (auto simp: send_buffer_def zmq_call_defs split: prod.splits)

text \<open>Sending a range is \<open>s_send\<close> with flags.\<close>

lemma send_range_s_send: "send_range lib s values 0 = s_send (core lib) (sock_ptr s) values"
  by (simp add: send_range_def s_send_def)

end
