(* ===== verification/ZmqMonitor.thy ===== *)
theory ZmqMonitor
  imports ZmqSocket
begin

text \<open>
  The class \<open>monitor_t\<close> of \<open>src/src/common/communication/zmq.hpp\<close>: it connects a pair socket to
  the events of a socket, reads two frames per event until the monitoring or the context ends,
  and calls the virtual method of the event. The methods are functions on the world; those of
  the class itself do nothing. The numbers of the events are constants of the library.
\<close>

datatype event_kind =
    CONNECTED | CONNECT_DELAYED | CONNECT_RETRIED | LISTENING | BIND_FAILED | ACCEPTED
  | ACCEPT_FAILED | CLOSED | CLOSE_FAILED | DISCONNECTED | MONITOR_STOPPED

record zmq_event_t =
  event_id :: "16 word"
  event_value :: "32 word"

text \<open>\<open>on_event None\<close> is \<open>on_event_unknown\<close>, \<open>on_event (Some CONNECTED)\<close> \<open>on_event_connected\<close>.\<close>

record 'w monitor_t =
  socketPtr :: ptr
  on_monitor_started :: "'w \<Rightarrow> 'w"
  on_event :: "event_kind option \<Rightarrow> zmq_event_t \<Rightarrow> string \<Rightarrow> 'w \<Rightarrow> 'w"

definition monitor_new :: "'w monitor_t" where
  "monitor_new = \<lparr>socketPtr = 0, on_monitor_started = (\<lambda>w. w), on_event = (\<lambda>k e a w. w)\<rparr>"

record 'w libzmq_events = "'w libzmq_more" +
  event_number :: "event_kind \<Rightarrow> int"

abbreviation more_of :: "'w libzmq_events \<Rightarrow> 'w libzmq_more" where
  "more_of lib \<equiv> libzmq_more.truncate lib"

text \<open>The event is copied out of the frame byte by byte, the low byte first.\<close>

fun le_value :: "string \<Rightarrow> nat" where
  "le_value [] = 0"
| "le_value (c # cs) = of_char c + 256 * le_value cs"

definition decode_event :: "string \<Rightarrow> zmq_event_t option" where
  "decode_event frame =
     (if length frame < 6 then None
      else Some \<lparr>event_id = of_nat (le_value (take 2 frame)),
                 event_value = of_nat (le_value (take 4 (drop 2 frame)))\<rparr>)"

text \<open>The \<open>switch\<close>.\<close>

definition event_case :: "(event_kind \<Rightarrow> int) \<Rightarrow> 16 word \<Rightarrow> event_kind option" where
  "event_case number e =
     (let i = uint e in
      if i = number CONNECTED then Some CONNECTED
      else if i = number CONNECT_DELAYED then Some CONNECT_DELAYED
      else if i = number CONNECT_RETRIED then Some CONNECT_RETRIED
      else if i = number LISTENING then Some LISTENING
      else if i = number BIND_FAILED then Some BIND_FAILED
      else if i = number ACCEPTED then Some ACCEPTED
      else if i = number ACCEPT_FAILED then Some ACCEPT_FAILED
      else if i = number CLOSED then Some CLOSED
      else if i = number CLOSE_FAILED then Some CLOSE_FAILED
      else if i = number DISCONNECTED then Some DISCONNECTED
      else None)"

text \<open>
  One frame: \<open>zmq_msg_init\<close>, whose result is not looked at, and \<open>zmq_msg_recv\<close>. \<open>FrameEnd\<close> is the
  \<open>break\<close> of a context that was terminated. The frame is not closed here.
\<close>

datatype 'w frame = FrameEnd 'w | FrameError zmq_failure | Frame string 'w

definition recv_frame :: "'w libzmq_events \<Rightarrow> ptr \<Rightarrow> 'w \<Rightarrow> 'w frame" where
  "recv_frame lib s w =
     (case zmq_msg_init lib w of (rc0, w1) \<Rightarrow>
      case zmq_msg_recv lib w1 s 0 of (rc, content, w2) \<Rightarrow>
        if rc = - 1 \<and> zmq_errno lib w2 = ETERM then FrameEnd w2
        else if rc = - 1 then FrameError Assertion_failed
        else Frame content w2)"

text \<open>
  A turn of the loop. A \<open>break\<close> skips the closing of the messages: that of the event when the
  monitoring stopped, and whatever was initialised when the context was terminated.
\<close>

datatype 'w turn = Break 'w | Failed zmq_failure | Continue 'w

definition monitor_turn :: "'w libzmq_events \<Rightarrow> 'w monitor_t \<Rightarrow> ptr \<Rightarrow> 'w \<Rightarrow> 'w turn" where
  "monitor_turn lib mon s w =
     (case recv_frame lib s w of
        FrameEnd w1 \<Rightarrow> Break w1
      | FrameError e \<Rightarrow> Failed e
      | Frame frame w1 \<Rightarrow>
          (case decode_event frame of
             None \<Rightarrow> Failed Out_of_bounds
           | Some event \<Rightarrow>
               (case recv_frame lib s w1 of
                  FrameEnd w2 \<Rightarrow> Break w2
                | FrameError e \<Rightarrow> Failed e
                | Frame address w2 \<Rightarrow>
                    let w3 = snd (zmq_msg_close lib w2 address) in
                    if uint (event_id event) = event_number lib MONITOR_STOPPED then Break w3
                    else let w4 = on_event mon (event_case (event_number lib) (event_id event)) event
                                    (c_str address) w3
                         in Continue (snd (zmq_msg_close lib w4 frame)))))"

partial_function (option) monitor_loop ::
  "'w libzmq_events \<Rightarrow> 'w monitor_t \<Rightarrow> ptr \<Rightarrow> 'w \<Rightarrow> (zmq_failure + unit \<times> 'w) option" where
  "monitor_loop lib mon s w =
     (case monitor_turn lib mon s w of
        Break w' \<Rightarrow> Some (zreturn () w')
      | Failed e \<Rightarrow> Some (Inl e)
      | Continue w' \<Rightarrow> monitor_loop lib mon s w')"

text \<open>
  \<open>monitor\<close>: \<open>None\<close> when the loop never ends. The pointer to the monitored socket is set while it
  runs, for \<open>abort\<close>; the result of \<open>zmq_close\<close> is not looked at.
\<close>

definition monitor_setup ::
  "'w libzmq_events \<Rightarrow> 'w monitor_t \<Rightarrow> socket_t \<Rightarrow> string \<Rightarrow> int \<Rightarrow> ('w, ptr \<times> 'w monitor_t) zmq_call" where
  "monitor_setup lib mon socket addr events =
     zbind (throw_unless_zero (core (more_of lib))
              (\<lambda>w. zmq_socket_monitor lib w (sock_ptr socket) (Some (c_str addr)) events)) (\<lambda>u.
     let mon1 = mon\<lparr>socketPtr := sock_ptr socket\<rparr> in
     zbind (\<lambda>w. case zmq_socket lib w (sock_ctx socket) ZMQ_PAIR of
                  (s, w') \<Rightarrow> if s = 0 then Inl Assertion_failed else zreturn s w') (\<lambda>s.
     zbind (assert_zero (\<lambda>w. zmq_connect lib w s (c_str addr))) (\<lambda>u.
     zbind (\<lambda>w. zreturn () (on_monitor_started mon1 w)) (\<lambda>u.
     zreturn (s, mon1)))))"

definition monitor ::
  "'w libzmq_events \<Rightarrow> 'w monitor_t \<Rightarrow> socket_t \<Rightarrow> string \<Rightarrow> int \<Rightarrow> 'w
     \<Rightarrow> (zmq_failure + 'w monitor_t \<times> 'w) option" where
  "monitor lib mon socket addr events w =
     (case monitor_setup lib mon socket addr events w of
        Inl e \<Rightarrow> Some (Inl e)
      | Inr ((s, mon1), w1) \<Rightarrow>
          (case monitor_loop lib mon1 s w1 of
             None \<Rightarrow> None
           | Some (Inl e) \<Rightarrow> Some (Inl e)
           | Some (Inr (u, w2)) \<Rightarrow> Some (zreturn (mon1\<lparr>socketPtr := 0\<rparr>) (snd (zmq_close lib w2 s)))))"

definition abort :: "'w libzmq_events \<Rightarrow> 'w monitor_t \<Rightarrow> 'w \<Rightarrow> 'w" where
  "abort lib mon w =
     (if socketPtr mon = 0 then w else snd (zmq_socket_monitor lib w (socketPtr mon) None 0))"

section \<open>Events on the wire\<close>

fun le_bytes :: "nat \<Rightarrow> nat \<Rightarrow> string" where
  "le_bytes 0 n = []"
| "le_bytes (Suc k) n = char_of n # le_bytes k (n div 256)"

definition encode_event :: "zmq_event_t \<Rightarrow> string" where
  "encode_event e = le_bytes 2 (unat (event_id e)) @ le_bytes 4 (unat (event_value e))"

lemma length_le_bytes [simp]: "length (le_bytes k n) = k"
  by (induction k arbitrary: n) simp_all

lemma le_value_bytes: "le_value (le_bytes k n) = n mod 256 ^ k"
proof (induction k arbitrary: n)
  case (Suc k)
  have "n mod 256 + 256 * (n div 256 mod 256 ^ k) = n mod (256 * 256 ^ k)"
    by (simp add: mod_mult2_eq)
  with Suc show ?case by simp
qed simp

lemma decode_encode_event: "decode_event (encode_event e) = Some e"
proof -
  have "unat (event_id e) < 256 ^ 2" "unat (event_value e) < 256 ^ 4"
    using unsigned_less [of "event_id e"] unsigned_less [of "event_value e"] by simp_all
  then have "le_value (le_bytes 2 (unat (event_id e))) = unat (event_id e)"
    "le_value (le_bytes 4 (unat (event_value e))) = unat (event_value e)"
    by (simp_all only: le_value_bytes mod_less)
  then show ?thesis by (simp add: decode_event_def encode_event_def)
qed

text \<open>The order of the tests does not matter when the numbers of the events differ.\<close>

lemma event_case_number:
  assumes "inj number" and "uint e = number k" and "k \<noteq> MONITOR_STOPPED"
  shows "event_case number e = Some k"
  using assms by (cases k) (simp_all add: event_case_def Let_def inj_eq)

lemma event_case_unknown:
  assumes "uint e \<notin> range number"
  shows "event_case number e = None"
proof -
  have "uint e \<noteq> number k" for k using assms by blast
  then show ?thesis by (simp add: event_case_def)
qed

section \<open>A monitor is called for every event in order\<close>

text \<open>
  What is needed of the library and the methods: \<open>feed\<close> are the frames that will come in at the
  pair socket, \<open>unclosed\<close> the number of messages initialised and not closed, and \<open>seen\<close> what the
  methods were called with.
\<close>

type_synonym event_call = "event_kind option \<times> zmq_event_t \<times> string"

definition event_feed ::
  "'w libzmq_events \<Rightarrow> 'w monitor_t \<Rightarrow> ptr \<Rightarrow> ('w \<Rightarrow> string list \<times> int \<times> event_call list) \<Rightarrow> bool" where
  "event_feed lib mon s view \<longleftrightarrow>
     (\<forall>w f n l. view w = (f, n, l) \<longrightarrow> view (snd (zmq_msg_init lib w)) = (f, n + 1, l)) \<and>
     (\<forall>w m f n l. view w = (f, n, l) \<longrightarrow> view (snd (zmq_msg_close lib w m)) = (f, n - 1, l)) \<and>
     (\<forall>w x f n l. view w = (x # f, n, l) \<longrightarrow>
        (\<exists>rc w'. zmq_msg_recv lib w s 0 = (rc, x, w') \<and> rc \<noteq> - 1 \<and> view w' = (f, n, l))) \<and>
     (\<forall>w k e a f n l. view w = (f, n, l) \<longrightarrow> view (on_event mon k e a w) = (f, n, l @ [(k, e, a)]))"

lemma event_feedD:
  assumes "event_feed lib mon s view"
  shows "view w = (f, n, l) \<Longrightarrow> view (snd (zmq_msg_init lib w)) = (f, n + 1, l)"
    and "view w = (f, n, l) \<Longrightarrow> view (snd (zmq_msg_close lib w m)) = (f, n - 1, l)"
    and "view w = (x # f, n, l) \<Longrightarrow>
      \<exists>rc w'. zmq_msg_recv lib w s 0 = (rc, x, w') \<and> rc \<noteq> - 1 \<and> view w' = (f, n, l)"
    and "view w = (f, n, l) \<Longrightarrow> view (on_event mon k e a w) = (f, n, l @ [(k, e, a)])"
  using assms unfolding event_feed_def by (elim conjE, (simp | metis))+

lemma recv_frame_feed:
  assumes "event_feed lib mon s view" and "view w = (x # f, n, l)"
  shows "\<exists>w'. recv_frame lib s w = Frame x w' \<and> view w' = (f, n + 1, l)"
proof -
  obtain rc0 w1 where i: "zmq_msg_init lib w = (rc0, w1)" by (cases "zmq_msg_init lib w") auto
  with event_feedD(1) [OF assms] have "view w1 = (x # f, n + 1, l)" by simp
  from event_feedD(3) [OF assms(1) this] i show ?thesis by (auto simp: recv_frame_def)
qed

definition handled :: "(event_kind \<Rightarrow> int) \<Rightarrow> zmq_event_t \<times> string \<Rightarrow> event_call" where
  "handled number = (\<lambda>(e, a). (event_case number (event_id e), e, c_str a))"

lemma monitor_turn_feed:
  assumes feed: "event_feed lib mon s view" and view: "view w = (encode_event e # a # f, n, l)"
  shows "\<exists>w'. monitor_turn lib mon s w =
      (if uint (event_id e) = event_number lib MONITOR_STOPPED then Break w' else Continue w') \<and>
    view w' = (if uint (event_id e) = event_number lib MONITOR_STOPPED then (f, n + 1, l)
               else (f, n, l @ [handled (event_number lib) (e, a)]))"
proof -
  from recv_frame_feed [OF feed view] obtain w1 where w1: "recv_frame lib s w = Frame (encode_event e) w1"
    "view w1 = (a # f, n + 1, l)" by blast
  from recv_frame_feed [OF feed w1(2)] obtain w2 where w2: "recv_frame lib s w1 = Frame a w2"
    "view w2 = (f, n + 2, l)" by auto
  from event_feedD(2) [OF feed w2(2), of a] have w3: "view (snd (zmq_msg_close lib w2 a)) = (f, n + 1, l)"
    by simp
  let ?k = "event_case (event_number lib) (event_id e)"
  from event_feedD(4) [OF feed w3, of ?k e "c_str a"]
  have "view (on_event mon ?k e (c_str a) (snd (zmq_msg_close lib w2 a))) = (f, n + 1, l @ [(?k, e, c_str a)])" .
  from event_feedD(2) [OF feed this, of "encode_event e"] w1(1) w2(1) w3 show ?thesis
    by (auto simp: monitor_turn_def decode_encode_event Let_def handled_def)
qed

theorem monitor_loop_handles_events:
  assumes feed: "event_feed lib mon s view"
    and "view w = (concat (map (\<lambda>(e, a). [encode_event e, a]) es) @ [encode_event stop, a0], n, l)"
    and "\<forall>(e, a)\<in>set es. uint (event_id e) \<noteq> event_number lib MONITOR_STOPPED"
    and "uint (event_id stop) = event_number lib MONITOR_STOPPED"
  shows "\<exists>w'. monitor_loop lib mon s w = Some (Inr ((), w')) \<and>
    view w' = ([], n + 1, l @ map (handled (event_number lib)) es)"
  using assms(2,3)
proof (induction es arbitrary: w l)
  case Nil
  then have "view w = (encode_event stop # a0 # [], n, l)" by simp
  from monitor_turn_feed [OF feed this] assms(4) show ?case
    by (subst monitor_loop.simps) (auto simp: zreturn_def)
next
  case (Cons ea es)
  obtain e a where ea: "ea = (e, a)" by (cases ea)
  let ?rest = "concat (map (\<lambda>(e, a). [encode_event e, a]) es) @ [encode_event stop, a0]"
  from Cons.prems ea have "view w = (encode_event e # a # ?rest, n, l)"
    "uint (event_id e) \<noteq> event_number lib MONITOR_STOPPED" by simp_all
  with monitor_turn_feed [OF feed this(1)] obtain w1 where w1: "monitor_turn lib mon s w = Continue w1"
    "view w1 = (?rest, n, l @ [handled (event_number lib) (e, a)])" by auto
  with Cons.IH [OF w1(2)] Cons.prems(2) ea show ?case
    by (subst monitor_loop.simps) simp
qed

text \<open>When the context is terminated the monitor returns.\<close>

lemma monitor_loop_terminated:
  assumes "zmq_msg_init lib w = (rc0, w1)" and "zmq_msg_recv lib w1 s 0 = (- 1, c, w2)"
    and "zmq_errno lib w2 = ETERM"
  shows "monitor_loop lib mon s w = Some (Inr ((), w2))"
  using assms by (subst monitor_loop.simps) (simp add: monitor_turn_def recv_frame_def zreturn_def)

end
