(* ===== verification/ZHelpers.thy ===== *)
theory ZHelpers
  imports ZmqMonitor Float32 "HOL-Library.Signed_Division"
begin

text \<open>
  The helpers of \<open>src/src/common/communication/zhelpers.hpp\<close> besides \<open>s_send\<close> and \<open>s_recv\<close>, as the
  preprocessor leaves them on a POSIX system. Random numbers, the clock and the text \<open>printf\<close> makes of
  its arguments are arguments here.
\<close>

section \<open>Output streams\<close>

text \<open>
  The state of a \<open>std::ostream\<close> the helpers use: its text, the width of the next field, the fill
  character, and the base and case of numbers. A width holds for one field; the others stay.
\<close>

record ostream =
  os_text :: string
  os_width :: nat
  os_fill :: char
  os_hex :: bool
  os_uppercase :: bool

definition fresh_stream :: ostream where
  "fresh_stream = \<lparr>os_text = [], os_width = 0, os_fill = CHR '' '', os_hex = False, os_uppercase = False\<rparr>"

definition put_text :: "string \<Rightarrow> ostream \<Rightarrow> ostream" where
  "put_text s os =
     os\<lparr>os_text := os_text os @ replicate (os_width os - length s) (os_fill os) @ s, os_width := 0\<rparr>"

definition hex_digit :: "bool \<Rightarrow> nat \<Rightarrow> char" where
  "hex_digit upper d = (if upper then ''0123456789ABCDEF'' else ''0123456789abcdef'') ! d"

function hex_text :: "bool \<Rightarrow> nat \<Rightarrow> string" where
  "hex_text upper n =
     (if n < 16 then [hex_digit upper n] else hex_text upper (n div 16) @ [hex_digit upper (n mod 16)])"
  by pat_completeness auto
termination
  by (relation "measure snd") auto

declare hex_text.simps [simp del]

text \<open>An \<open>unsigned int\<close>; a number of type \<open>int\<close> that is not negative prints the same.\<close>

definition put_unsigned :: "32 word \<Rightarrow> ostream \<Rightarrow> ostream" where
  "put_unsigned n os =
     put_text (if os_hex os then hex_text (os_uppercase os) (unat n) else to_string_nat (unat n)) os"

definition put_endl :: "ostream \<Rightarrow> ostream" where
  "put_endl os = put_text [CHR 0x0A] (os\<lparr>os_width := 0\<rparr>)"

section \<open>Multipart messages\<close>

text \<open>
  \<open>s_sendmore\<close> differs from \<open>s_send\<close> in the flag \<open>ZMQ_SNDMORE\<close>, a constant of the library.
\<close>

definition s_sendmore :: "'w libzmq \<Rightarrow> int \<Rightarrow> ptr \<Rightarrow> string \<Rightarrow> ('w, bool) zmq_call" where
  "s_sendmore lib sndmore p s =
     zbind (message_size lib (length s)) (\<lambda>buffer.
     let message = memcpy buffer s (length s) in
     zbind (socket_send lib p message sndmore) (\<lambda>rc.
     zbind (message_destroy lib (if rc then [] else message)) (\<lambda>u.
     zreturn rc)))"

text \<open>
  One part of a message on \<open>std::cout\<close>. The size is a non-negative \<open>int\<close> for parts below two
  gigabytes. A byte is text from 32 to 127. \<open>(unsigned int) data [char_nbr]\<close> extends the sign of
  a \<open>char\<close>, which is signed.
\<close>

definition is_text :: "string \<Rightarrow> bool" where
  "is_text data = list_all (\<lambda>c. \<not> (of_char c < (32 :: nat) \<or> 127 < (of_char c :: nat))) data"

definition char_to_unsigned :: "char \<Rightarrow> 32 word" where
  "char_to_unsigned c = scast (of_nat (of_char c) :: 8 word)"

definition dump_char :: "bool \<Rightarrow> char \<Rightarrow> ostream \<Rightarrow> ostream" where
  "dump_char text c os =
     (if text then put_text [c] os
      else put_unsigned (char_to_unsigned c) (os\<lparr>os_fill := CHR ''0'', os_width := 2, os_hex := True\<rparr>))"

definition dump_part :: "string \<Rightarrow> ostream \<Rightarrow> ostream" where
  "dump_part data os =
     (let os1 = put_text ''['' os;
          os2 = put_unsigned (of_nat (length data)) (os1\<lparr>os_fill := CHR ''0'', os_width := 3\<rparr>);
          os3 = put_text '']'' os2
      in put_endl (fold (dump_char (is_text data)) data os3))"

text \<open>
  A turn of \<open>s_dump\<close>: a part is received, whatever \<open>recv\<close> returned, and printed; \<open>ZMQ_RCVMORE\<close>
  says whether there is another. \<open>None\<close> is a loop that does not end.
\<close>

definition dump_turn :: "'w libzmq_more \<Rightarrow> socket_t \<Rightarrow> ostream \<Rightarrow> ('w, ostream \<times> bool) zmq_call" where
  "dump_turn lib s os =
     zbind (message_empty (core lib)) (\<lambda>message.
     zbind (socket_recv (core lib) (sock_ptr s) message 0) (\<lambda>(received, data).
     let os1 = dump_part data os in
     zbind (socket_getsockopt lib s ZMQ_RCVMORE (replicate 4 CHR 0x00) 4) (\<lambda>(more, more_size).
     zbind (message_destroy (core lib) data) (\<lambda>u.
     zreturn (os1, le_value more \<noteq> 0)))))"

partial_function (option) dump_loop ::
  "'w libzmq_more \<Rightarrow> socket_t \<Rightarrow> ostream \<Rightarrow> 'w \<Rightarrow> (zmq_failure + ostream \<times> 'w) option" where
  "dump_loop lib s os w =
     (case dump_turn lib s os w of
        Inl e \<Rightarrow> Some (Inl e)
      | Inr (r, w') \<Rightarrow> if snd r then dump_loop lib s (fst r) w' else Some (Inr (fst r, w')))"

definition dump_banner :: string where
  "dump_banner = replicate 40 (CHR ''-'')"

definition s_dump :: "'w libzmq_more \<Rightarrow> socket_t \<Rightarrow> ostream \<Rightarrow> 'w \<Rightarrow> (zmq_failure + ostream \<times> 'w) option" where
  "s_dump lib s os = dump_loop lib s (put_endl (put_text dump_banner os))"

section \<open>Identities\<close>

text \<open>
  \<open>within (num)\<close>: a product of \<open>float\<close>s, divided by \<open>RAND_MAX + 1.0\<close>, a power of two, and
  truncated. \<open>r\<close> is what \<open>random ()\<close> returned, from 0 to \<open>RAND_MAX\<close>.
\<close>

definition rand_max :: int where
  "rand_max = 2147483647"

definition within_num :: "int \<Rightarrow> int \<Rightarrow> int option" where
  "within_num num r =
     (case float_of_rat (of_int num) of
        None \<Rightarrow> None
      | Some x \<Rightarrow>
          (case float_of_rat (of_int r) of
             None \<Rightarrow> None
           | Some y \<Rightarrow>
               (case float_of_rat (x * y) of
                  None \<Rightarrow> None
                | Some z \<Rightarrow>
                    let q = z / of_int (rand_max + 1)
                    in Some (if 0 \<le> q then \<lfloor>q\<rfloor> else \<lceil>q\<rceil>))))"

definition id_field :: "int \<Rightarrow> ostream \<Rightarrow> ostream" where
  "id_field n os = put_unsigned (of_int n) (os\<lparr>os_width := 4, os_fill := CHR ''0''\<rparr>)"

definition id_text :: "int \<Rightarrow> int \<Rightarrow> string" where
  "id_text a b =
     os_text (id_field b (put_text ''-'' (id_field a (fresh_stream\<lparr>os_hex := True, os_uppercase := True\<rparr>))))"

definition s_set_id :: "'w libzmq_more \<Rightarrow> socket_t \<Rightarrow> int \<Rightarrow> int \<Rightarrow> ('w, string) zmq_call option" where
  "s_set_id lib s r1 r2 =
     (case (within_num 0x10000 r1, within_num 0x10000 r2) of
        (Some a, Some b) \<Rightarrow>
          Some (zbind (setsockopt_bytes lib s ZMQ_IDENTITY (id_text a b)) (\<lambda>u. zreturn (id_text a b)))
      | _ \<Rightarrow> None)"

section \<open>Versions\<close>

definition put_int :: "int \<Rightarrow> ostream \<Rightarrow> ostream" where
  "put_int i os =
     (if os_hex os then put_unsigned (of_int i) os
      else put_text (if i < 0 then CHR ''-'' # to_string_nat (nat (- i)) else to_string_nat (nat i)) os)"

definition s_version :: "'w libzmq_more \<Rightarrow> ostream \<Rightarrow> ostream" where
  "s_version lib os =
     (case version lib of (major, minor, patch) \<Rightarrow>
        put_endl (put_int patch (put_text ''.'' (put_int minor (put_text ''.'' (put_int major
          (put_text ''Current 0MQ version is '' os)))))))"

text \<open>The second component is whether the program exits with \<open>EXIT_FAILURE\<close>.\<close>

definition s_version_assert :: "'w libzmq_more \<Rightarrow> int \<Rightarrow> int \<Rightarrow> ostream \<Rightarrow> ostream \<times> bool" where
  "s_version_assert lib want_major want_minor os =
     (case version lib of (major, minor, patch) \<Rightarrow>
        if major < want_major \<or> (major = want_major \<and> minor < want_minor) then
          let os1 = put_endl (put_int minor (put_text ''.'' (put_int major
                      (put_text ''Current 0MQ version is '' os))));
              os2 = put_endl (put_text '' - cannot continue'' (put_int want_minor (put_text ''.''
                      (put_int want_major (put_text ''Application needs at least '' os1)))))
          in (os2, True)
        else (os, False))"

section \<open>Time, console and signals\<close>

text \<open>\<open>gettimeofday\<close> gives seconds and microseconds; \<open>nanosleep\<close> takes seconds and nanoseconds.\<close>

definition s_clock :: "int \<times> int \<Rightarrow> int" where
  "s_clock tv = fst tv * 1000 + snd tv sdiv 1000"

definition s_sleep :: "int \<Rightarrow> int \<times> int" where
  "s_sleep msecs = (msecs sdiv 1000, (msecs smod 1000) * 1000000)"

text \<open>
  \<open>strftime\<close> with \<open>%y-%m-%d %H:%M:%S \<close>, of which at most \<open>size - 1\<close> characters fit; when they do not, the
  buffer is not specified.
\<close>

record broken_down_time =
  tm_sec :: nat
  tm_min :: nat
  tm_hour :: nat
  tm_mday :: nat
  tm_mon :: nat
  tm_year :: nat

definition two_digits :: "nat \<Rightarrow> string" where
  "two_digits n = [char_of (48 + n div 10 mod 10), char_of (48 + n mod 10)]"

definition time_stamp :: "broken_down_time \<Rightarrow> string" where
  "time_stamp t =
     two_digits (tm_year t mod 100) @ ''-'' @ two_digits (tm_mon t + 1) @ ''-'' @ two_digits (tm_mday t) @ '' '' @
     two_digits (tm_hour t) @ '':'' @ two_digits (tm_min t) @ '':'' @ two_digits (tm_sec t) @ '' ''"

definition strftime_stamp :: "nat \<Rightarrow> broken_down_time \<Rightarrow> string option" where
  "strftime_stamp buffer_size t = (if length (time_stamp t) < buffer_size then Some (time_stamp t) else None)"

definition s_console :: "broken_down_time \<Rightarrow> string \<Rightarrow> string option" where
  "s_console loctime text = map_option (\<lambda>formatted. formatted @ text @ [CHR 0x0A]) (strftime_stamp 20 loctime)"

text \<open>The signals and what they do; a signal nobody catches ends the process (\<open>None\<close>).\<close>

datatype signal = SIGINT | SIGTERM

record signal_state =
  s_interrupted :: int
  caught :: "signal set"

definition signals_at_start :: signal_state where
  "signals_at_start = \<lparr>s_interrupted = 0, caught = {}\<rparr>"

definition s_signal_handler :: "signal_state \<Rightarrow> signal_state" where
  "s_signal_handler st = st\<lparr>s_interrupted := 1\<rparr>"

definition s_catch_signals :: "signal_state \<Rightarrow> signal_state" where
  "s_catch_signals st = st\<lparr>caught := insert SIGTERM (insert SIGINT (caught st))\<rparr>"

definition deliver :: "signal \<Rightarrow> signal_state \<Rightarrow> signal_state option" where
  "deliver sig st = (if sig \<in> caught st then Some (s_signal_handler st) else None)"

section \<open>Random numbers reach the bound\<close>

lemma round_half_even_bounds:
  "x \<le> of_int n \<Longrightarrow> round_half_even x \<le> n" "of_int n \<le> x \<Longrightarrow> n \<le> round_half_even x"
proof -
  assume x: "x \<le> of_int n"
  show "round_half_even x \<le> n"
  proof (cases "\<lfloor>x\<rfloor> < n")
    case True
    then show ?thesis by (simp add: round_half_even_def Let_def)
  next
    case False
    then have "of_int n \<le> x" by (simp add: le_floor_iff not_less)
    with x have "x = of_int n" by simp
    then show ?thesis by simp
  qed
next
  assume "of_int n \<le> x"
  then have "n \<le> \<lfloor>x\<rfloor>" by (simp add: le_floor_iff)
  then show "n \<le> round_half_even x" by (simp add: round_half_even_def Let_def)
qed

text \<open>Rounding does not cross a power of two.\<close>

lemma float_of_rat_power_bound:
  assumes "0 \<le> x" and "x \<le> 2 ^ m" and "m \<le> 127"
  shows "\<exists>y. float_of_rat x = Some y \<and> 0 \<le> y \<and> y \<le> 2 ^ m \<and> (x = 2 ^ m \<longrightarrow> y = 2 ^ m)"
proof -
  have "(2::rat) ^ m \<le> 2 ^ 127" using assms(3) by (intro power_increasing) simp_all
  also have "(2::rat) ^ 127 \<le> float_max" by (simp add: float_max_def)
  finally have range: "\<not> float_max < \<bar>x\<bar>" using assms(1,2) by simp
  have fits: "\<bar>x\<bar> * 2 ^ 149 < 2 ^ ((m + 126) + 24)"
  proof -
    have "\<bar>x\<bar> * 2 ^ 149 \<le> 2 ^ m * 2 ^ 149" using assms(1,2) by simp
    also have "\<dots> < 2 ^ m * 2 ^ 150" by simp
    finally show ?thesis by (simp only: power_add [symmetric]) (simp add: add.commute)
  qed
  have j: "m + 126 < 254" using assms(3) by simp
  then obtain k where k: "float_spacing x = Some k"
    using find_upt_ex [of "m + 126" 254 "\<lambda>k. \<bar>x\<bar> * 2 ^ 149 < 2 ^ (k + 24)"] fits
    by (auto simp: float_spacing_def)
  then have le: "k \<le> m + 126"
    unfolding float_spacing_def by (rule find_upt_le) (use j fits in auto)
  define u :: rat where "u = 2 ^ k / 2 ^ 149"
  have u: "0 < u" by (simp add: u_def)
  let ?n = "2 ^ (m + 149 - k) :: int"
  have "(2::rat) ^ (m + 149 - k) * 2 ^ k = 2 ^ m * 2 ^ 149"
    using le by (simp only: power_add [symmetric]) simp
  then have n: "of_int ?n * u = 2 ^ m" by (simp add: u_def field_simps)
  have "x / u \<le> of_int ?n" using assms(2) u n by (simp add: pos_divide_le_eq)
  moreover have "of_int 0 \<le> x / u" using assms(1) u by simp
  ultimately have r: "0 \<le> round_half_even (x / u)" "round_half_even (x / u) \<le> ?n"
    using round_half_even_bounds by blast+
  have "of_int (round_half_even (x / u)) * u \<le> of_int ?n * u"
    using r(2) u by (intro mult_right_mono) (simp_all only: of_int_le_iff less_imp_le)
  moreover have "0 \<le> of_int (round_half_even (x / u)) * u" using r(1) u by simp
  moreover have "float_of_rat x = Some (of_int (round_half_even (x / u)) * u)"
    using range k by (simp add: float_of_rat_def u_def Let_def)
  moreover have "of_int (round_half_even (x / u)) * u = 2 ^ m" if "x = 2 ^ m"
  proof -
    from that n u have "x / u = of_int ?n" by (simp add: field_simps)
    then show ?thesis using n by (simp only: round_half_even_int)
  qed
  ultimately show ?thesis using n by auto
qed

theorem within_num_bounds:
  assumes "0 \<le> r" and "r \<le> rand_max"
  shows "\<exists>n. within_num 0x10000 r = Some n \<and> 0 \<le> n \<and> n \<le> 0x10000"
proof -
  have x: "float_of_rat (of_int 0x10000) = Some (2 ^ 16)"
    using float_of_rat_small_int [of "0x10000"] by simp
  have "rat_of_int r \<le> of_int rand_max" using assms(2) by (simp only: of_int_le_iff)
  then have r: "rat_of_int r \<le> 2 ^ 31" by (simp add: rand_max_def)
  obtain y where y: "float_of_rat (of_int r) = Some y" "0 \<le> y" "y \<le> 2 ^ 31"
    using float_of_rat_power_bound [of "of_int r" 31] assms(1) r by auto
  then have "(2::rat) ^ 16 * y \<le> 2 ^ 47" by simp
  with y(2) obtain z where z: "float_of_rat (2 ^ 16 * y) = Some z" "0 \<le> z" "z \<le> 2 ^ 47"
    using float_of_rat_power_bound [of "2 ^ 16 * y" 47] by auto
  have d: "rat_of_int (rand_max + 1) = 2 ^ 31" by (simp add: rand_max_def)
  have "0 \<le> z / 2 ^ 31" "z / 2 ^ 31 \<le> of_int 0x10000" using z by simp_all
  then have "0 \<le> \<lfloor>z / 2 ^ 31\<rfloor>" "\<lfloor>z / 2 ^ 31\<rfloor> \<le> 0x10000" by (simp_all add: floor_le_iff)
  with \<open>0 \<le> z / 2 ^ 31\<close> show ?thesis
    unfolding within_num_def x y(1) option.case z(1) d Let_def by simp
qed

text \<open>
  The greatest random numbers are rounded up to \<open>RAND_MAX + 1\<close> when they become a \<open>float\<close>, so the
  bound, which the helper's comment excludes, is returned.
\<close>

lemma float_of_rand_max: "float_of_rat (of_int rand_max) = Some (2 ^ 31)"
proof -
  have "\<not> (2147483647 :: rat) * 2 ^ 149 < 2 ^ (j + 24)" if "j < 156" for j
  proof -
    have "(2::rat) ^ (j + 24) \<le> 2 ^ 179" using that by (intro power_increasing) simp_all
    also have "(2::rat) ^ 179 \<le> 2147483647 * 2 ^ 149" by simp
    finally show ?thesis by simp
  qed
  then have "float_spacing 2147483647 = Some 156"
    unfolding float_spacing_def find_Some_iff by (intro exI [of _ 156]) simp
  moreover have "\<lfloor>2147483647 / 128 :: rat\<rfloor> = 16777215" by (rule floor_unique) simp_all
  then have "round_half_even (2147483647 / 128) = 16777216" by (simp add: round_half_even_def Let_def)
  ultimately show ?thesis
    by (simp add: float_of_rat_def float_max_def rand_max_def Let_def)
qed

lemma within_num_reaches_the_bound: "within_num 0x10000 rand_max = Some 0x10000"
proof -
  have x: "float_of_rat (of_int 0x10000) = Some (2 ^ 16)"
    using float_of_rat_small_int [of "0x10000"] by simp
  have z: "float_of_rat (2 ^ 16 * 2 ^ 31) = Some (2 ^ 47)"
    using float_of_rat_power_bound [of "2 ^ 16 * 2 ^ 31" 47] by simp
  show ?thesis
    unfolding within_num_def x float_of_rand_max option.case z Let_def by (simp add: rand_max_def)
qed

text \<open>An identity is then a digit longer than its format.\<close>

lemma id_text_of_the_bound: "id_text 0x10000 0 = ''10000-0000''"
  by (simp add: id_text_def id_field_def put_unsigned_def put_text_def fresh_stream_def hex_text.simps
      hex_digit_def numeral_3_eq_3)

section \<open>What \<open>s_dump\<close> prints\<close>

text \<open>
  \<open>parts\<close> are the parts of the message still to come at the socket, and \<open>ZMQ_RCVMORE\<close> says after
  each whether there are more.
\<close>

definition part_feed :: "'w libzmq_more \<Rightarrow> socket_t \<Rightarrow> ('w \<Rightarrow> string list) \<Rightarrow> bool" where
  "part_feed lib s parts \<longleftrightarrow>
     (\<forall>w. \<exists>w'. zmq_msg_init lib w = (0, w') \<and> parts w' = parts w) \<and>
     (\<forall>w m. \<exists>w'. zmq_msg_close lib w m = (0, w') \<and> parts w' = parts w) \<and>
     (\<forall>w x xs. parts w = x # xs \<longrightarrow>
        (\<exists>n w'. zmq_msg_recv lib w (sock_ptr s) 0 = (n, x, w') \<and> 0 \<le> n \<and> parts w' = xs)) \<and>
     (\<forall>w b. \<exists>w'. zmq_getsockopt lib w (sock_ptr s) ZMQ_RCVMORE b 4 =
        (0, le_bytes 4 (if parts w = [] then 0 else 1), 4, w') \<and> parts w' = parts w)"

lemma part_feedD:
  assumes "part_feed lib s parts"
  shows "\<exists>w'. zmq_msg_init lib w = (0, w') \<and> parts w' = parts w"
    and "\<exists>w'. zmq_msg_close lib w m = (0, w') \<and> parts w' = parts w"
    and "parts w = x # xs \<Longrightarrow>
      \<exists>n w'. zmq_msg_recv lib w (sock_ptr s) 0 = (n, x, w') \<and> 0 \<le> n \<and> parts w' = xs"
    and "\<exists>w'. zmq_getsockopt lib w (sock_ptr s) ZMQ_RCVMORE b 4 =
      (0, le_bytes 4 (if parts w = [] then 0 else 1), 4, w') \<and> parts w' = parts w"
  using assms unfolding part_feed_def by (elim conjE, (simp | metis))+

lemma dump_turn_feed:
  assumes feed: "part_feed lib s parts" and "parts w = x # xs"
  shows "\<exists>w'. dump_turn lib s os w = Inr ((dump_part x os, xs \<noteq> []), w') \<and> parts w' = xs"
proof -
  obtain w1 where w1: "zmq_msg_init lib w = (0, w1)" "parts w1 = x # xs"
    using part_feedD(1) [OF feed, of w] assms(2) by auto
  obtain n w2 where w2: "zmq_msg_recv lib w1 (sock_ptr s) 0 = (n, x, w2)" "0 \<le> n" "parts w2 = xs"
    using part_feedD(3) [OF feed w1(2)] by blast
  obtain w3 where w3: "zmq_getsockopt lib w2 (sock_ptr s) ZMQ_RCVMORE (replicate 4 CHR 0x00) 4 =
      (0, le_bytes 4 (if parts w2 = [] then 0 else 1), 4, w3)" "parts w3 = xs"
    using part_feedD(4) [OF feed, of w2 "replicate 4 CHR 0x00"] w2(3) by auto
  obtain w4 where w4: "zmq_msg_close lib w3 x = (0, w4)" "parts w4 = xs"
    using part_feedD(2) [OF feed, of w3 x] w3(2) by auto
  have "le_value (le_bytes 4 (if parts w2 = [] then 0 else 1)) = (if xs = [] then 0 else 1)"
    unfolding le_value_bytes using w2(3) by simp
  with w1 w2 w3 w4 show ?thesis
    by (simp add: dump_turn_def message_empty_def socket_recv_def socket_getsockopt_def message_destroy_def
        zmq_call_defs libzmq.defs Let_def)
qed

theorem s_dump_prints_every_part:
  assumes "part_feed lib s parts" and "parts w \<noteq> []"
  shows "\<exists>w'. s_dump lib s os w =
    Some (Inr (fold dump_part (parts w) (put_endl (put_text dump_banner os)), w')) \<and> parts w' = []"
proof -
  have "\<exists>w'. dump_loop lib s os w = Some (Inr (fold dump_part (x # xs) os, w')) \<and> parts w' = []"
    if "parts w = x # xs" for x xs os w
    using that
  proof (induction xs arbitrary: x os w)
    case Nil
    from dump_turn_feed [OF assms(1) this, of os] obtain w1 where
      "dump_turn lib s os w = Inr ((dump_part x os, False), w1)" "parts w1 = []" by auto
    then show ?case by (subst dump_loop.simps) simp
  next
    case (Cons y ys)
    from dump_turn_feed [OF assms(1) Cons.prems] obtain w1 where
      "dump_turn lib s os w = Inr ((dump_part x os, True), w1)" "parts w1 = y # ys" by auto
    with Cons.IH [of w1 y "dump_part x os"] show ?case by (subst dump_loop.simps) simp
  qed
  with assms(2) show ?thesis unfolding s_dump_def by (cases "parts w") auto
qed

text \<open>On a stream in its usual state a text part is printed with its size in decimal.\<close>

definition decimal :: "ostream \<Rightarrow> bool" where
  "decimal os \<longleftrightarrow> \<not> os_hex os \<and> os_width os = 0"

definition part_line :: "string \<Rightarrow> string" where
  "part_line x =
     (let n = to_string_nat (length x)
      in ''['' @ replicate (3 - length n) CHR ''0'' @ n @ '']'' @ x @ [CHR 0x0A])"

lemma fold_dump_text: "os_width os = 0 \<Longrightarrow> fold (dump_char True) x os = os\<lparr>os_text := os_text os @ x\<rparr>"
  by (induction x arbitrary: os) (simp_all add: dump_char_def put_text_def)

lemma dump_part_text:
  assumes "is_text x" and "decimal os" and "length x < 2 ^ 31"
  shows "os_text (dump_part x os) = os_text os @ part_line x" "decimal (dump_part x os)"
proof -
  have "unat (of_nat (length x) :: 32 word) = length x"
    using assms(3) by (simp add: unat_of_nat take_bit_nat_eq_self)
  with assms(1,2) show "os_text (dump_part x os) = os_text os @ part_line x" "decimal (dump_part x os)"
    by (simp_all add: dump_part_def decimal_def put_unsigned_def put_text_def put_endl_def fold_dump_text
        part_line_def Let_def)
qed

lemma dump_text_parts:
  assumes "\<forall>x\<in>set xs. is_text x \<and> length x < 2 ^ 31" and "decimal os"
  shows "os_text (fold dump_part xs os) = os_text os @ concat (map part_line xs)"
  using assms by (induction xs arbitrary: os) (simp_all add: dump_part_text)

text \<open>
  A part that is not text leaves the stream in base 16, in which the sizes of later parts are
  printed, and a byte above 127 is printed with eight digits instead of two.
\<close>

lemma dump_part_base:
  assumes "\<not> is_text x"
  shows "os_hex (dump_part x os)"
proof -
  have "x \<noteq> []" using assms by (auto simp: is_text_def)
  then have "os_hex (fold (dump_char False) x os')" for os'
  proof (induction x arbitrary: os' rule: rev_induct)
    case (snoc c x)
    show ?case by (simp add: dump_char_def put_unsigned_def put_text_def)
  qed simp
  then show ?thesis using assms by (simp add: dump_part_def put_endl_def put_text_def Let_def)
qed

lemma dump_example:
  "os_text (fold dump_part [[CHR 0xFF], ''0123456789''] fresh_stream) =
     ''[001]ffffffff'' @ [CHR 0x0A] @ ''[00a]0123456789'' @ [CHR 0x0A]"
proof -
  have ff: "char_to_unsigned CHR 0xFF = 0xFFFFFFFF" by (simp add: char_to_unsigned_def)
  have two: "replicate 2 CHR ''0'' = ''00''" by (simp add: numeral_2_eq_2)
  have one: "char_of (49 :: nat) = CHR ''1''" by code_simp
  show ?thesis
    by (simp add: dump_part_def is_text_def dump_char_def put_endl_def put_unsigned_def put_text_def
        fresh_stream_def ff one two hex_text.simps hex_digit_def to_string_nat.simps Let_def)
qed

section \<open>Sleeping and signals\<close>

text \<open>
  The time \<open>nanosleep\<close> is given is well-formed and the one asked for; a negative one that is not
  a number of whole seconds has negative nanoseconds, which \<open>nanosleep\<close> refuses.
\<close>

lemma s_sleep_time:
  assumes "0 \<le> msecs"
  shows "case s_sleep msecs of (sec, nsec) \<Rightarrow>
    0 \<le> sec \<and> 0 \<le> nsec \<and> nsec < 10 ^ 9 \<and> sec * 10 ^ 9 + nsec = msecs * 10 ^ 6"
proof -
  have "msecs sdiv 1000 = msecs div 1000" "msecs smod 1000 = msecs mod 1000"
    using assms by (cases "msecs = 0"; simp add: signed_divide_int_def signed_modulo_int_def)+
  moreover have "msecs div 1000 * 1000 + msecs mod 1000 = msecs" by simp
  then have "msecs div 1000 * 1000000000 + msecs mod 1000 * 1000000 = msecs * 1000000" by linarith
  moreover have "0 \<le> msecs div 1000" using assms by (simp add: pos_imp_zdiv_nonneg_iff)
  ultimately show ?thesis using assms by (simp add: s_sleep_def)
qed

lemma s_sleep_negative:
  assumes "msecs < 0" and "msecs mod 1000 \<noteq> 0"
  shows "snd (s_sleep msecs) < 0"
proof -
  have "(- msecs) mod 1000 \<noteq> 0" using assms(2) by presburger
  then have "0 < (- msecs) mod 1000" using pos_mod_sign [of 1000 "- msecs"] by simp
  then show ?thesis using assms(1)
    by (simp add: s_sleep_def signed_divide_int_def signed_modulo_int_def)
qed

text \<open>The time stamp of \<open>s_console\<close> fits its buffer.\<close>

lemma s_console_prints: "s_console t txt = Some (time_stamp t @ txt @ [CHR 0x0A])"
  by (simp add: s_console_def strftime_stamp_def time_stamp_def two_digits_def)

text \<open>Once caught, no signal ends the process, and the flag says whether there was one.\<close>

fun deliver_all :: "signal list \<Rightarrow> signal_state \<Rightarrow> signal_state option" where
  "deliver_all [] st = Some st"
| "deliver_all (sig # sigs) st =
     (case deliver sig st of None \<Rightarrow> None | Some st' \<Rightarrow> deliver_all sigs st')"

lemma deliver_all_caught:
  "deliver_all sigs (s_catch_signals st) =
     Some (if sigs = [] then s_catch_signals st else s_signal_handler (s_catch_signals st))"
proof -
  have caught: "deliver sig (s_catch_signals st') = Some (s_signal_handler (s_catch_signals st'))" for sig st'
    by (cases sig) (simp_all add: deliver_def s_catch_signals_def)
  have again: "s_signal_handler (s_catch_signals st') = s_catch_signals (s_signal_handler st')" for st'
    by (simp add: s_catch_signals_def s_signal_handler_def)
  show ?thesis
  proof (induction sigs arbitrary: st)
    case (Cons sig sigs)
    from Cons.IH [of "s_signal_handler st"] show ?case
      by (simp add: caught again) (simp add: s_signal_handler_def)
  qed simp
qed

end
