(* ===== verification/Requester.thy ===== *)
theory Requester
  imports ZeroMQ
begin

text \<open>
  The exchange that \<open>src/src/client/Client.cpp\<close> and \<open>src/src/common/OssStubRuleSetter.cpp\<close>
  both contain: send a request on a \<open>REQ\<close> socket, poll for the reply, and reconnect and send
  again when the poll times out. The exchange is written over the operations of a requester,
  \<open>ReqSocket\<close>; \<open>zmq_requester\<close> is the one both classes build from \<open>zmq.hpp\<close>. \<open>None\<close> is an
  exception, which nothing catches.
\<close>

record 'w ReqSocket =
  req_reset :: "'w \<Rightarrow> string \<Rightarrow> 'w option"
  req_send :: "'w \<Rightarrow> string \<Rightarrow> 'w option"
  req_poll :: "'w \<Rightarrow> (bool \<times> 'w) option"
  req_recv :: "'w \<Rightarrow> (string \<times> 'w) option"

definition kRequestRetries :: nat where
  "kRequestRetries = 3"

definition InitializeZMQSocket :: "'w ReqSocket \<Rightarrow> 'w \<Rightarrow> string \<Rightarrow> 'w option" where
  "InitializeZMQSocket sock w ipPort = req_reset sock w (''tcp://'' @ ipPort)"

text \<open>
  The inner loop with \<open>Suc n\<close> retries left. The first transmission sends the whole message,
  a repetition \<open>raw_msg.data()\<close>, a \<open>char *\<close> that ends at the first zero byte.
\<close>

fun poll_loop ::
  "'w ReqSocket \<Rightarrow> string \<Rightarrow> string \<Rightarrow> nat \<Rightarrow> string \<Rightarrow> 'w \<Rightarrow> (bool \<times> string \<times> 'w) option" where
  "poll_loop sock ipPort raw_msg n reply w =
     (case req_poll sock w of
        None \<Rightarrow> None
      | Some (ready, w1) \<Rightarrow>
          if ready then
            (case req_recv sock w1 of None \<Rightarrow> None | Some (r, w2) \<Rightarrow> Some (True, r, w2))
          else
            (case n of
               0 \<Rightarrow> Some (False, reply, w1)
             | Suc n' \<Rightarrow>
                 (case InitializeZMQSocket sock w1 ipPort of
                    None \<Rightarrow> None
                  | Some w2 \<Rightarrow>
                      (case req_send sock w2 (c_str raw_msg) of
                         None \<Rightarrow> None
                       | Some w3 \<Rightarrow> poll_loop sock ipPort raw_msg n' reply w3))))"

declare poll_loop.simps [simp del]

definition SendAndReceiveRequest ::
  "'w ReqSocket \<Rightarrow> string \<Rightarrow> string \<Rightarrow> string \<Rightarrow> 'w \<Rightarrow> (bool \<times> string \<times> 'w) option" where
  "SendAndReceiveRequest sock ipPort raw_msg reply w =
     (case req_send sock w raw_msg of
        None \<Rightarrow> None
      | Some w1 \<Rightarrow> poll_loop sock ipPort raw_msg (kRequestRetries - 1) reply w1)"

section \<open>The requester of the program\<close>

text \<open>
  The world of a requester is the library's with the current socket. A reset makes the new
  socket before the old one is destroyed, connects it, and sets its linger period to zero.
\<close>

definition reset_socket :: "'w libzmq \<Rightarrow> ptr \<Rightarrow> string \<Rightarrow> ptr \<Rightarrow> ('w, ptr) zmq_call" where
  "reset_socket lib ctx full_address old =
     zbind (socket_new lib ctx ZMQ_REQ) (\<lambda>new.
     zbind (socket_close lib old) (\<lambda>u.
     zbind (socket_connect lib new full_address) (\<lambda>u.
     zbind (socket_setsockopt lib new ZMQ_LINGER 0) (\<lambda>u.
     zreturn new))))"

definition kRequestTimeoutUs :: int where
  "kRequestTimeoutUs = 1000"

definition zmq_requester :: "'w libzmq \<Rightarrow> ptr \<Rightarrow> ('w \<times> ptr) ReqSocket" where
  "zmq_requester lib ctx =
     \<lparr>req_reset = \<lambda>(w, s) addr.
        (case reset_socket lib ctx addr s w of Inl e \<Rightarrow> None | Inr (s', w') \<Rightarrow> Some (w', s')),
      req_send = \<lambda>(w, s) m. (case s_send lib s m w of Inl e \<Rightarrow> None | Inr (rc, w') \<Rightarrow> Some (w', s)),
      req_poll = \<lambda>(w, s).
        (case poll_in lib s kRequestTimeoutUs w of
           Inl e \<Rightarrow> None | Inr (ready, w') \<Rightarrow> Some (ready, w', s)),
      req_recv = \<lambda>(w, s). (case s_recv lib s w of Inl e \<Rightarrow> None | Inr (m, w') \<Rightarrow> Some (m, w', s))\<rparr>"

section \<open>Lemmas\<close>

text \<open>A \<open>REQ\<close> socket that is fresh or has had its reply accepts a message; no exception then.\<close>

definition req_socket :: "'w ReqSocket \<Rightarrow> ('w \<Rightarrow> bool) \<Rightarrow> bool" where
  "req_socket sock idle \<longleftrightarrow>
     (\<forall>w a. \<exists>w'. req_reset sock w a = Some w' \<and> idle w') \<and>
     (\<forall>w s. idle w \<longrightarrow> req_send sock w s \<noteq> None) \<and>
     (\<forall>w. \<exists>ready w'. req_poll sock w = Some (ready, w') \<and> (ready \<longrightarrow> req_recv sock w' \<noteq> None))"

lemma req_socket_poll:
  assumes "req_socket sock idle"
  obtains ready w1 where "req_poll sock w = Some (ready, w1)" and "ready \<Longrightarrow> req_recv sock w1 \<noteq> None"
  using assms unfolding req_socket_def by metis

lemma req_socket_reset:
  assumes "req_socket sock idle"
  obtains w1 where "InitializeZMQSocket sock w ipPort = Some w1" and "idle w1"
  using assms unfolding req_socket_def InitializeZMQSocket_def by metis

lemma poll_loop_returns:
  assumes sock: "req_socket sock idle"
  shows "poll_loop sock ipPort raw n reply w \<noteq> None"
proof (induction n arbitrary: w)
  case (0 w)
  obtain ready w1 where "req_poll sock w = Some (ready, w1)" "ready \<Longrightarrow> req_recv sock w1 \<noteq> None"
    using req_socket_poll [OF sock, where w = w] by blast
  then show ?case by (cases ready) (auto simp: poll_loop.simps [of _ _ _ 0])
next
  case (Suc n w)
  obtain ready w1 where poll: "req_poll sock w = Some (ready, w1)" "ready \<Longrightarrow> req_recv sock w1 \<noteq> None"
    using req_socket_poll [OF sock, where w = w] by blast
  obtain w2 where w2: "InitializeZMQSocket sock w1 ipPort = Some w2" "idle w2"
    using req_socket_reset [OF sock, where w = w1] by blast
  have "req_send sock w2 (c_str raw) \<noteq> None"
    using sock w2(2) unfolding req_socket_def by blast
  with poll w2 Suc show ?case
    by (cases ready) (auto simp: poll_loop.simps [of _ _ _ "Suc n"])
qed

lemma SendAndReceiveRequest_returns:
  assumes "req_socket sock idle" and "idle w"
  shows "SendAndReceiveRequest sock ipPort raw reply w \<noteq> None"
proof -
  have "req_send sock w raw \<noteq> None" using assms unfolding req_socket_def by blast
  then show ?thesis
    using poll_loop_returns [OF assms(1)] by (auto simp: SendAndReceiveRequest_def)
qed

text \<open>The server is tried \<open>kRequestRetries\<close> times, and a silent one gives \<open>False\<close>.\<close>

lemma poll_loop_silent:
  assumes "\<And>w. req_poll sock w = Some (False, w)" and "\<And>w s. req_send sock w s = Some (w @ [s])"
    and "\<And>w a. req_reset sock w a = Some w"
  shows "poll_loop sock ipPort raw n reply w = Some (False, reply, w @ replicate n (c_str raw))"
proof (induction n arbitrary: w)
  case (Suc n)
  then show ?case
    by (subst poll_loop.simps)
      (simp add: assms InitializeZMQSocket_def replicate_append_same flip: replicate_Suc)
qed (subst poll_loop.simps, simp add: assms)

section \<open>The open sockets\<close>

text \<open>
  What the library documents about the sockets of a context: \<open>live w p\<close> is the context of the
  open socket \<open>p\<close>. Only \<open>zmq_socket\<close> and \<open>zmq_close\<close> change it, and \<open>zmq_ctx_destroy\<close> does
  not return while a socket of the context is open.
\<close>

definition tracks_sockets :: "'w libzmq \<Rightarrow> ('w \<Rightarrow> ptr \<rightharpoonup> ptr) \<Rightarrow> bool" where
  "tracks_sockets lib live \<longleftrightarrow> message_calls lib live \<and>
     (\<forall>w c t p w'. zmq_socket lib w c t = (p, w') \<longrightarrow> p \<noteq> 0 \<longrightarrow>
        live w p = None \<and> live w' = (live w)(p \<mapsto> c)) \<and>
     (\<forall>w p w'. zmq_close lib w p = (0, w') \<longrightarrow> live w' = (live w)(p := None)) \<and>
     (\<forall>w p a. live (snd (zmq_connect lib w p a)) = live w) \<and>
     (\<forall>w p opt v. live (snd (zmq_setsockopt lib w p opt v)) = live w) \<and>
     (\<forall>w m p n. live (snd (zmq_msg_send lib w m p n)) = live w) \<and>
     (\<forall>w p n. live (snd (snd (zmq_msg_recv lib w p n))) = live w) \<and>
     (\<forall>w p t. live (snd (snd (zmq_poll lib w p t))) = live w) \<and>
     (\<forall>w c. c \<in> ran (live w) \<longrightarrow> zmq_ctx_destroy lib w c = None)"

lemma tracks_sockets_laws:
  assumes "tracks_sockets lib live"
  shows "message_calls lib live"
    and "zmq_socket lib w c t = (p, w') \<Longrightarrow> p \<noteq> 0 \<Longrightarrow> live w p = None"
    and "zmq_socket lib w c t = (p, w') \<Longrightarrow> p \<noteq> 0 \<Longrightarrow> live w' = (live w)(p \<mapsto> c)"
    and "zmq_close lib w p = (0, w') \<Longrightarrow> live w' = (live w)(p := None)"
    and "zmq_connect lib w p a = (rc, w') \<Longrightarrow> live w' = live w"
    and "zmq_setsockopt lib w p opt v = (rc, w') \<Longrightarrow> live w' = live w"
    and "zmq_msg_send lib w m p n = (rc, w') \<Longrightarrow> live w' = live w"
    and "zmq_msg_recv lib w p n = (rc, m, w') \<Longrightarrow> live w' = live w"
    and "zmq_poll lib w p t' = (rc, b, w') \<Longrightarrow> live w' = live w"
    and "c \<in> ran (live w) \<Longrightarrow> zmq_ctx_destroy lib w c = None"
proof -
  note laws = assms [unfolded tracks_sockets_def]
  show "message_calls lib live" using laws by blast
  show "live w p = None" "live w' = (live w)(p \<mapsto> c)" if "zmq_socket lib w c t = (p, w')" "p \<noteq> 0"
    using laws that by metis+
  show "live w' = (live w)(p := None)" if "zmq_close lib w p = (0, w')" using laws that by metis
  show "live w' = live w" if "zmq_connect lib w p a = (rc, w')" using laws that by (metis snd_conv)
  show "live w' = live w" if "zmq_setsockopt lib w p opt v = (rc, w')" using laws that by (metis snd_conv)
  show "live w' = live w" if "zmq_msg_send lib w m p n = (rc, w')" using laws that by (metis snd_conv)
  show "live w' = live w" if "zmq_msg_recv lib w p n = (rc, m, w')" using laws that by (metis snd_conv)
  show "live w' = live w" if "zmq_poll lib w p t' = (rc, b, w')" using laws that by (metis snd_conv)
  show "zmq_ctx_destroy lib w c = None" if "c \<in> ran (live w)" using laws that by blast
qed

lemma s_send_live:
  assumes laws: "tracks_sockets lib live" and run: "s_send lib p m w = Inr (rc, w')"
  shows "live w' = live w"
proof -
  note msg = tracks_sockets_laws(1) [OF laws]
  obtain w1 where w1: "live w1 = live w" and call: "s_send lib p m w = (case zmq_msg_send lib w1 m p 0 of (n, w2) \<Rightarrow>
      if 0 \<le> n then Inr (True, snd (zmq_msg_close lib w2 []))
      else if zmq_errno lib w2 = EAGAIN then Inr (False, snd (zmq_msg_close lib w2 m))
      else Inl (Error_t (zmq_errno lib w2)))"
    using s_send_call [OF msg, of w p m] by blast
  obtain n w2 where send: "zmq_msg_send lib w1 m p 0 = (n, w2)" by (cases "zmq_msg_send lib w1 m p 0") auto
  from w1 tracks_sockets_laws(7) [OF laws send] have "live w2 = live w" by simp
  with run call send close_view [OF msg] show ?thesis by (auto split: if_splits)
qed

lemma s_recv_live:
  assumes laws: "tracks_sockets lib live" and run: "s_recv lib p w = Inr (m, w')"
  shows "live w' = live w"
proof -
  note msg = tracks_sockets_laws(1) [OF laws]
  obtain w1 where w1: "live w1 = live w" and call: "s_recv lib p w = (case zmq_msg_recv lib w1 p 0 of (n, c, w2) \<Rightarrow>
      if 0 \<le> n then Inr (c, snd (zmq_msg_close lib w2 c))
      else if zmq_errno lib w2 = EAGAIN then Inr ([], snd (zmq_msg_close lib w2 []))
      else Inl (Error_t (zmq_errno lib w2)))"
    using s_recv_call [OF msg, of w p] by blast
  obtain n c w2 where recv: "zmq_msg_recv lib w1 p 0 = (n, c, w2)" by (cases "zmq_msg_recv lib w1 p 0") auto
  from w1 tracks_sockets_laws(8) [OF laws recv] have "live w2 = live w" by simp
  with run call recv close_view [OF msg] show ?thesis by (auto split: if_splits)
qed

lemma reset_socket_live:
  assumes laws: "tracks_sockets lib live" and old: "old = 0 \<or> live w old \<noteq> None"
    and run: "reset_socket lib ctx addr old w = Inr (new, w')"
  shows "live w' new = Some ctx"
proof -
  obtain w1 w2 w3 where steps: "socket_new lib ctx ZMQ_REQ w = Inr (new, w1)"
    "socket_close lib old w1 = Inr ((), w2)" "socket_connect lib new addr w2 = Inr ((), w3)"
    "socket_setsockopt lib new ZMQ_LINGER 0 w3 = Inr ((), w')"
    using run by (auto simp: reset_socket_def zbind_def zreturn_def split: sum.splits)
  have "zmq_socket lib w ctx ZMQ_REQ = (new, w1)" "new \<noteq> 0"
    using steps(1) by (auto simp: socket_new_def zmq_call_defs split: prod.splits if_splits)
  then have new: "live w new = None" "live w1 = (live w)(new \<mapsto> ctx)"
    using tracks_sockets_laws(2,3) [OF laws] by blast+
  have "live w2 new = Some ctx"
  proof (cases "old = 0")
    case False
    then have "zmq_close lib w1 old = (0, w2)"
      using steps(2) by (auto simp: socket_close_def zmq_call_defs split: prod.splits if_splits)
    then have "live w2 = (live w1)(old := None)" by (rule tracks_sockets_laws(4) [OF laws])
    with new old False show ?thesis by auto
  qed (use steps(2) new in \<open>simp add: socket_close_def zmq_call_defs\<close>)
  moreover have "live w3 = live w2"
    using steps(3) by (auto simp: socket_connect_def zmq_call_defs split: prod.splits if_splits
        dest: tracks_sockets_laws(5) [OF laws])
  moreover have "live w' = live w3"
    using steps(4) by (auto simp: socket_setsockopt_def zmq_call_defs split: prod.splits if_splits
        dest: tracks_sockets_laws(6) [OF laws])
  ultimately show ?thesis by simp
qed

text \<open>What every operation of a requester keeps, the whole exchange keeps.\<close>

definition requester_keeps :: "'w ReqSocket \<Rightarrow> ('w \<Rightarrow> bool) \<Rightarrow> bool" where
  "requester_keeps sock I \<longleftrightarrow>
     (\<forall>w a w'. I w \<longrightarrow> req_reset sock w a = Some w' \<longrightarrow> I w') \<and>
     (\<forall>w m w'. I w \<longrightarrow> req_send sock w m = Some w' \<longrightarrow> I w') \<and>
     (\<forall>w b w'. I w \<longrightarrow> req_poll sock w = Some (b, w') \<longrightarrow> I w') \<and>
     (\<forall>w m w'. I w \<longrightarrow> req_recv sock w = Some (m, w') \<longrightarrow> I w')"

lemma requester_keepsD:
  assumes "requester_keeps sock I"
  shows "req_reset sock w a = Some w' \<Longrightarrow> I w \<Longrightarrow> I w'" and "req_send sock w m = Some w' \<Longrightarrow> I w \<Longrightarrow> I w'"
    and "req_poll sock w = Some (b, w') \<Longrightarrow> I w \<Longrightarrow> I w'" and "req_recv sock w = Some (m, w') \<Longrightarrow> I w \<Longrightarrow> I w'"
  using assms unfolding requester_keeps_def by blast+

lemma poll_loop_keeps:
  assumes keeps: "requester_keeps sock I"
  shows "poll_loop sock ipPort raw n reply w = Some (ok, r, w') \<Longrightarrow> I w \<Longrightarrow> I w'"
proof (induction n arbitrary: w)
  case (0 w)
  then obtain ready w1 where poll: "req_poll sock w = Some (ready, w1)"
    by (subst (asm) poll_loop.simps) (auto split: option.splits)
  from requester_keepsD(3) [OF keeps this] 0 have "I w1" by simp
  with 0 poll show ?case
    by (subst (asm) poll_loop.simps)
      (cases ready; auto split: option.splits dest: requester_keepsD(4) [OF keeps])
next
  case (Suc n w)
  then obtain ready w1 where poll: "req_poll sock w = Some (ready, w1)"
    by (subst (asm) (2) poll_loop.simps) (auto split: option.splits)
  from requester_keepsD(3) [OF keeps this] Suc.prems have w1: "I w1" by simp
  note run = Suc.prems(1) [unfolded poll_loop.simps [of _ _ _ "Suc n"] poll, simplified]
  show ?case
  proof (cases ready)
    case True
    with run w1 show ?thesis by (auto split: option.splits dest: requester_keepsD(4) [OF keeps])
  next
    case False
    with run obtain w2 w3 where "InitializeZMQSocket sock w1 ipPort = Some w2"
      "req_send sock w2 (c_str raw) = Some w3" and rest: "poll_loop sock ipPort raw n reply w3 = Some (ok, r, w')"
      by (auto split: option.splits)
    with w1 have "I w3"
      using requester_keepsD(1,2) [OF keeps] unfolding InitializeZMQSocket_def by blast
    with rest show ?thesis by (rule Suc.IH)
  qed
qed

lemma SendAndReceiveRequest_keeps:
  assumes "requester_keeps sock I" and "I w"
    and "SendAndReceiveRequest sock ipPort raw reply w = Some (ok, r, w')"
  shows "I w'"
proof -
  obtain w1 where w1: "req_send sock w raw = Some w1"
    and rest: "poll_loop sock ipPort raw (kRequestRetries - 1) reply w1 = Some (ok, r, w')"
    using assms(3) by (auto simp: SendAndReceiveRequest_def split: option.splits)
  from requester_keepsD(2) [OF assms(1) w1 assms(2)] have "I w1" .
  with poll_loop_keeps [OF assms(1) rest] show ?thesis .
qed

text \<open>The program's requester has a socket of its context open from the first reset on.\<close>

lemma zmq_requester_live:
  assumes laws: "tracks_sockets lib live"
  shows "requester_keeps (zmq_requester lib ctx) (\<lambda>(w, s). live w s = Some ctx)"
  unfolding requester_keeps_def
proof (intro conjI allI impI)
  fix w a w' assume "case w of (w, s) \<Rightarrow> live w s = Some ctx" "req_reset (zmq_requester lib ctx) w a = Some w'"
  then show "case w' of (w, s) \<Rightarrow> live w s = Some ctx"
    by (auto simp: zmq_requester_def split: sum.splits prod.splits dest!: reset_socket_live [OF laws, rotated])
next
  fix w m w' assume "case w of (w, s) \<Rightarrow> live w s = Some ctx" "req_send (zmq_requester lib ctx) w m = Some w'"
  then show "case w' of (w, s) \<Rightarrow> live w s = Some ctx"
    by (auto simp: zmq_requester_def split: sum.splits prod.splits dest!: s_send_live [OF laws])
next
  fix w b w' assume "case w of (w, s) \<Rightarrow> live w s = Some ctx" "req_poll (zmq_requester lib ctx) w = Some (b, w')"
  then show "case w' of (w, s) \<Rightarrow> live w s = Some ctx"
    by (auto simp: zmq_requester_def poll_in_def zmq_call_defs split: sum.splits prod.splits if_splits
        dest: tracks_sockets_laws(9) [OF laws])
next
  fix w m w' assume "case w of (w, s) \<Rightarrow> live w s = Some ctx" "req_recv (zmq_requester lib ctx) w = Some (m, w')"
  then show "case w' of (w, s) \<Rightarrow> live w s = Some ctx"
    by (auto simp: zmq_requester_def split: sum.splits prod.splits dest!: s_recv_live [OF laws])
qed

end
