(* ===== verification/Client.thy ===== *)
theory Client
  imports Requester Messages OSTLimits
begin

text \<open>
  \<open>src/src/client/\<close>: the command line client. It builds a request (the three
  \<open>RequestBuilder\<close>s), optionally from a file of storage requirements (\<open>StorageReqParser\<close>),
  sends it (\<open>Requester\<close>) and looks at the answer. The wire format and the JSON library are
  parameters; an outer \<open>None\<close> is an exception of a library.
\<close>

record MsgWire =
  msg_parse :: "string \<Rightarrow> bool \<times> Message"
  msg_serialize :: "Message \<Rightarrow> string"

section \<open>Storage requirement files\<close>

record 'j JsonInt = "'j Json" +
  json_int :: "'j \<Rightarrow> 32 word option" \<comment> \<open>\<open>get<int>()\<close>, \<open>None\<close> when it throws\<close>

record StorageReqParser =
  read_files :: string
  throughput_mbs :: "32 word"

fun join_files :: "'j JsonInt \<Rightarrow> string \<Rightarrow> 'j list \<Rightarrow> string \<Rightarrow> string option" where
  "join_files json separator [] ss = Some ss"
| "join_files json separator (rfile # rfiles) ss =
     (case json_string json rfile of
        None \<Rightarrow> None
      | Some name \<Rightarrow> join_files json '','' rfiles (ss @ separator @ name))"

definition StorageReq_ParseContent ::
  "'j JsonInt \<Rightarrow> 'j \<Rightarrow> StorageReqParser \<Rightarrow> StorageReqParser option" where
  "StorageReq_ParseContent json j p =
     do {
       p1 \<leftarrow> (case json_find json j ''throughput_mbs'' of
                None \<Rightarrow> Some p
              | Some t \<Rightarrow> map_option (\<lambda>n. p\<lparr>throughput_mbs := n\<rparr>) (json_int json t));
       (case json_find json j ''read_files'' of
          None \<Rightarrow> Some p1
        | Some fs \<Rightarrow>
            map_option (\<lambda>names. p1\<lparr>read_files := names\<rparr>)
              (join_files json '''' (json_elements json fs) ''''))
     }"

definition StorageReq_tryToParse :: "'j JsonInt \<Rightarrow> string \<Rightarrow> 'j option" where
  "StorageReq_tryToParse json in_stream = json_parse json in_stream"

definition StorageReq_Parse ::
  "'j JsonInt \<Rightarrow> string \<Rightarrow> StorageReqParser \<Rightarrow> (bool \<times> StorageReqParser) option" where
  "StorageReq_Parse json in_stream p =
     (case StorageReq_tryToParse json in_stream of
        None \<Rightarrow> Some (False, p)
      | Some j \<Rightarrow>
          if json_empty json j then Some (True, p)
          else map_option (\<lambda>p'. (True, p')) (StorageReq_ParseContent json j p))"

text \<open>
  \<open>TryParseReqFile\<close>: the parser is a fresh local whose \<open>throughput_mbs_\<close> is not initialised
  (\<open>uninit\<close>), and both values are taken from it whatever the file contained.
\<close>

definition TryParseReqFile ::
  "'j JsonInt \<Rightarrow> (string \<Rightarrow> string option) \<Rightarrow> 32 word \<Rightarrow> string \<Rightarrow> string \<Rightarrow> 32 word
    \<Rightarrow> (bool \<times> string \<times> 32 word) option" where
  "TryParseReqFile json read_file uninit filename filenames_to_use throughput_to_use =
     (case read_file filename of
        None \<Rightarrow> Some (False, filenames_to_use, throughput_to_use)
      | Some is \<Rightarrow>
          (case StorageReq_Parse json is \<lparr>read_files = [], throughput_mbs = uninit\<rparr> of
             None \<Rightarrow> None
           | Some (ok, p) \<Rightarrow>
               if \<not> ok then Some (False, filenames_to_use, throughput_to_use)
               else Some (True, read_files p, throughput_mbs p)))"

section \<open>Request builders\<close>

definition addFilenames :: "string \<Rightarrow> Request \<Rightarrow> Request" where
  "addFilenames filenames req =
     (if filenames = [] then mutable_resourcerequest (\<lambda>r. r) req
      else if CHR '','' \<notin> set filenames then
        mutable_resourcerequest (\<lambda>r. r\<lparr>rr_files := rr_files r @ [filenames]\<rparr>) req
      else
        fold (\<lambda>fname. mutable_resourcerequest (\<lambda>r. r\<lparr>rr_files := rr_files r @ [fname]\<rparr>))
          (lines_of (CHR '','') filenames []) req)"

definition Reserve_BuildRequest ::
  "string \<Rightarrow> string \<Rightarrow> 32 word \<Rightarrow> 32 word \<Rightarrow> Request \<Rightarrow> bool \<times> Request" where
  "Reserve_BuildRequest jobid filenames throughput duration_sec req =
     (if sint duration_sec \<le> 0 then (False, req)
      else
        (True, addFilenames filenames
           (mutable_resourcerequest (\<lambda>r. r\<lparr>rr_id := jobid, rr_throughputmb := throughput,
              rr_durationsec := scast duration_sec\<rparr>) (req\<lparr>req_type := RESERVE\<rparr>))))"

definition Remove_BuildRequest :: "string \<Rightarrow> Request \<Rightarrow> bool \<times> Request" where
  "Remove_BuildRequest jobid req =
     (True, mutable_deleterequest (\<lambda>d. d\<lparr>dr_id := dr_id d @ [jobid]\<rparr>) (req\<lparr>req_type := DELETE\<rparr>))"

definition List_BuildRequest :: "Request \<Rightarrow> bool \<times> Request" where
  "List_BuildRequest req = (True, req\<lparr>req_type := LISTJOBS\<rparr>)"

section \<open>The client\<close>

text \<open>
  The members of \<open>Client\<close>. \<open>Init\<close> makes a context and then does what \<open>InitializeZMQSocket\<close>
  does; the destructor destroys the socket and not the context.
\<close>

record ClientObject =
  cl_ipPort :: string
  cl_context :: ptr
  cl_client :: ptr

definition Client_new :: "string \<Rightarrow> ClientObject" where
  "Client_new ipPort = \<lparr>cl_ipPort = ipPort, cl_context = 0, cl_client = 0\<rparr>"

definition Client_Init :: "'z libzmq \<Rightarrow> ClientObject \<Rightarrow> ('z, bool \<times> ClientObject) zmq_call" where
  "Client_Init lib c =
     zbind (context_new lib 1) (\<lambda>ctx.
     zbind (reset_socket lib ctx (''tcp://'' @ cl_ipPort c) (cl_client c)) (\<lambda>s.
     zreturn (True, c\<lparr>cl_context := ctx, cl_client := s\<rparr>)))"

definition Client_delete :: "'z libzmq \<Rightarrow> ptr \<Rightarrow> ('z, unit) zmq_call" where
  "Client_delete lib s = socket_close lib s"

text \<open>\<open>IsInputValid\<close>; its second test repeats the first.\<close>

definition IsInputValid :: "string \<Rightarrow> string \<Rightarrow> 32 word \<Rightarrow> bool" where
  "IsInputValid jobid filenames duration =
     (if filenames = [] then False
      else if filenames = [] then False
      else if sint duration < 0 then False
      else True)"

definition TryBuildReserveMessage ::
  "string \<Rightarrow> string \<Rightarrow> 32 word \<Rightarrow> 32 word \<Rightarrow> Message \<Rightarrow> bool \<times> Message" where
  "TryBuildReserveMessage jobid filenames throughput duration msg =
     (let msg1 = msg\<lparr>msg_type := REQUEST\<rparr> in
      case Reserve_BuildRequest jobid filenames throughput duration default_Request of
        (ok, req) \<Rightarrow>
          if \<not> ok then (False, msg1) else (True, mutable_request (\<lambda>r. req) msg1))"

definition TrySendRequestAndReceiveReply ::
  "'w ReqSocket \<Rightarrow> MsgWire \<Rightarrow> string \<Rightarrow> Message \<Rightarrow> 'w \<Rightarrow> (bool \<times> string \<times> 'w) option" where
  "TrySendRequestAndReceiveReply sock wire ipPort msg w =
     (case SendAndReceiveRequest sock ipPort (msg_serialize wire msg) [] w of
        None \<Rightarrow> None
      | Some (ok, raw, w1) \<Rightarrow> if \<not> ok then Some (False, raw, w1) else Some (True, raw, w1))"

text \<open>\<open>ProcessReply\<close> only logs, so the call ends with \<open>True\<close> whatever the server answered.\<close>

definition TryReserveResources ::
  "'w ReqSocket \<Rightarrow> MsgWire \<Rightarrow> 'j JsonInt \<Rightarrow> (string \<Rightarrow> string option) \<Rightarrow> 32 word \<Rightarrow> string
    \<Rightarrow> string \<Rightarrow> string \<Rightarrow> 32 word \<Rightarrow> 32 word \<Rightarrow> string \<Rightarrow> 'w \<Rightarrow> (bool \<times> 'w) option" where
  "TryReserveResources sock wire json read_file uninit ipPort
       jobid filenames throughput duration_sec storage_req_file w =
     (case (if storage_req_file \<noteq> []
            then TryParseReqFile json read_file uninit storage_req_file filenames throughput
            else Some (True, filenames, throughput)) of
        None \<Rightarrow> None
      | Some (req_ok, filenames_to_use, throughput_to_use) \<Rightarrow>
          if \<not> req_ok then Some (False, w)
          else if \<not> IsInputValid jobid filenames_to_use duration_sec then Some (False, w)
          else
            (case TryBuildReserveMessage jobid filenames_to_use throughput_to_use duration_sec
                    default_Message of
               (built, msg) \<Rightarrow>
                 if \<not> built then Some (False, w)
                 else
                   (case TrySendRequestAndReceiveReply sock wire ipPort msg w of
                      None \<Rightarrow> None
                    | Some (ok, raw, w1) \<Rightarrow> if \<not> ok then Some (False, w1) else Some (True, w1))))"

definition RemoveReservation ::
  "'w ReqSocket \<Rightarrow> MsgWire \<Rightarrow> string \<Rightarrow> string \<Rightarrow> 'w \<Rightarrow> (bool \<times> 'w) option" where
  "RemoveReservation sock wire ipPort reservation_id w =
     (if reservation_id = [] then Some (False, w)
      else
        (case Remove_BuildRequest reservation_id default_Request of
           (built, req) \<Rightarrow>
             if \<not> built then Some (False, w)
             else
               (case TrySendRequestAndReceiveReply sock wire ipPort
                       (mutable_request (\<lambda>r. req) default_Message) w of
                  None \<Rightarrow> None
                | Some (ok, raw, w1) \<Rightarrow> if \<not> ok then Some (False, w1) else Some (True, w1))))"

text \<open>\<open>ProcessListReply\<close>: its result and what it prints.\<close>

definition ProcessListReply :: "MsgWire \<Rightarrow> string \<Rightarrow> bool \<times> string" where
  "ProcessListReply wire raw =
     (case msg_parse wire raw of
        (parsed, msg) \<Rightarrow>
          if \<not> parsed then (False, [])
          else if \<not> has_reply msg then (False, [])
          else if rep_rc (reply msg) \<noteq> 0 then (False, [])
          else (True, rep_return_msg (reply msg) @ [CHR 0x0A]))"

definition ListReservations ::
  "'w ReqSocket \<Rightarrow> MsgWire \<Rightarrow> string \<Rightarrow> 'w \<Rightarrow> (bool \<times> string \<times> 'w) option" where
  "ListReservations sock wire ipPort w =
     (case List_BuildRequest default_Request of
        (built, req) \<Rightarrow>
          if \<not> built then Some (False, [], w)
          else
            (case TrySendRequestAndReceiveReply sock wire ipPort
                    (mutable_request (\<lambda>r. req) default_Message) w of
               None \<Rightarrow> None
             | Some (ok, raw, w1) \<Rightarrow>
                 if \<not> ok then Some (False, [], w1)
                 else (case ProcessListReply wire raw of (res, text) \<Rightarrow> Some (res, text, w1))))"

section \<open>Lemmas\<close>

text \<open>A comma-separated list and the files of the request.\<close>

fun comma_join :: "string list \<Rightarrow> string" where
  "comma_join [] = []"
| "comma_join [n] = n"
| "comma_join (n # ns) = n @ CHR '','' # comma_join ns"

lemma comma_join_split:
  "ns \<noteq> [] \<Longrightarrow> last ns \<noteq> [] \<Longrightarrow> \<forall>n \<in> set ns. CHR '','' \<notin> set n \<Longrightarrow>
   lines_of (CHR '','') (comma_join ns) [] = ns"
  by (induction ns rule: comma_join.induct) (auto simp: lines_of_line lines_of_last)

lemma comma_join_no_comma:
  "\<forall>n \<in> set ns. CHR '','' \<notin> set n \<Longrightarrow> CHR '','' \<notin> set (comma_join ns) \<longleftrightarrow> length ns \<le> 1"
  by (induction ns rule: comma_join.induct) auto

lemma sint_scast_up: "sint (scast (x :: 32 word) :: 64 word) = sint x"
  by (rule sint_up_scast) (simp add: is_up)

lemma comma_join_empty: "ns \<noteq> [] \<Longrightarrow> last ns \<noteq> [] \<Longrightarrow> comma_join ns \<noteq> []"
  by (induction ns rule: comma_join.induct) auto

lemma fold_add_files:
  "resourcerequest (fold (\<lambda>fname. mutable_resourcerequest (\<lambda>r. r\<lparr>rr_files := rr_files r @ [fname]\<rparr>)) fs req)
     = (resourcerequest req)\<lparr>rr_files := rr_files (resourcerequest req) @ fs\<rparr>"
  by (induction fs arbitrary: req) simp_all

lemma req_type_fold_add_files:
  "req_type (fold (\<lambda>fname. mutable_resourcerequest (\<lambda>r. r\<lparr>rr_files := rr_files r @ [fname]\<rparr>)) fs req)
     = req_type req"
  by (induction fs arbitrary: req) simp_all

lemma addFilenames_join:
  assumes "ns \<noteq> []" and "last ns \<noteq> []" and "\<forall>n \<in> set ns. CHR '','' \<notin> set n"
  shows "resourcerequest (addFilenames (comma_join ns) req) =
      (resourcerequest req)\<lparr>rr_files := rr_files (resourcerequest req) @ ns\<rparr>"
    and "req_type (addFilenames (comma_join ns) req) = req_type req"
proof -
  have one: "ns = [comma_join ns]" if "CHR '','' \<notin> set (comma_join ns)"
    using that assms(1) comma_join_no_comma [OF assms(3)] by (cases ns) auto
  show "resourcerequest (addFilenames (comma_join ns) req) =
      (resourcerequest req)\<lparr>rr_files := rr_files (resourcerequest req) @ ns\<rparr>"
    using comma_join_empty [OF assms(1,2)] comma_join_split [OF assms] one
    by (auto simp: addFilenames_def fold_add_files)
  show "req_type (addFilenames (comma_join ns) req) = req_type req"
    by (simp add: addFilenames_def req_type_fold_add_files)
qed

lemma addFilenames_resource:
  "\<exists>x. req_rt req = kResourceRequest x \<Longrightarrow> \<exists>x. req_rt (addFilenames filenames req) = kResourceRequest x"
proof -
  have "\<exists>x. req_rt (fold (\<lambda>fname. mutable_resourcerequest (\<lambda>r. r\<lparr>rr_files := rr_files r @ [fname]\<rparr>))
      fs req) = kResourceRequest x" if "\<exists>x. req_rt req = kResourceRequest x" for fs
    using that by (induction fs arbitrary: req) (simp_all add: mutable_resourcerequest_def)
  then show "\<exists>x. req_rt req = kResourceRequest x \<Longrightarrow> ?thesis"
    by (simp add: addFilenames_def mutable_resourcerequest_def)
qed

end
