(* ===== verification/OssRules.thy ===== *)
theory OssRules
  imports Requester Responder RuleSetter WireFormat
begin

text \<open>
  Setting rules without ssh: \<open>src/src/common/OssStubRuleSetter.h/.cpp\<close>, a rule setter that
  sends the command to a small server on the OSS, and that server,
  \<open>src/src/oss_rule_server/OSSRuleServer.h/.cpp\<close>, which runs it. Their messages are the
  classes generated from \<open>oss_server_message.proto\<close> (\<open>OSSCommandRequest\<close> is its only field,
  the command); their wire format is a parameter here, and what the generated classes make of it
  is the theory \<open>OssCodec\<close>.
\<close>

section \<open>Messages\<close>

datatype OSSMessageType = OSS_REQUEST | OSS_REPLY | OtherOSSType "32 word"

record OSSCommandReply =
  ocr_rc :: "32 word"
  ocr_return_msg :: string

datatype OssRqCase = OSS_RQ_NOT_SET | kCommandRequest string | kCommandReply OSSCommandReply

record OSSCommandMessage =
  ocm_type :: OSSMessageType
  ocm_rq :: OssRqCase

definition default_OSSCommandReply :: OSSCommandReply where
  "default_OSSCommandReply = \<lparr>ocr_rc = 0, ocr_return_msg = []\<rparr>"

definition default_OSSCommandMessage :: OSSCommandMessage where
  "default_OSSCommandMessage = \<lparr>ocm_type = OSS_REQUEST, ocm_rq = OSS_RQ_NOT_SET\<rparr>"

definition oss_command :: "OSSCommandMessage \<Rightarrow> string" where
  "oss_command m = (case ocm_rq m of kCommandRequest c \<Rightarrow> c | _ \<Rightarrow> [])"

definition oss_reply :: "OSSCommandMessage \<Rightarrow> OSSCommandReply" where
  "oss_reply m = (case ocm_rq m of kCommandReply r \<Rightarrow> r | _ \<Rightarrow> default_OSSCommandReply)"

definition oss_set_command :: "string \<Rightarrow> OSSCommandMessage \<Rightarrow> OSSCommandMessage" where
  "oss_set_command c m = m\<lparr>ocm_rq := kCommandRequest c\<rparr>"

definition oss_mutable_reply ::
  "(OSSCommandReply \<Rightarrow> OSSCommandReply) \<Rightarrow> OSSCommandMessage \<Rightarrow> OSSCommandMessage" where
  "oss_mutable_reply f m = m\<lparr>ocm_rq := kCommandReply (f (oss_reply m))\<rparr>"

definition oss_clear_request :: "OSSCommandMessage \<Rightarrow> OSSCommandMessage" where
  "oss_clear_request m =
     (case ocm_rq m of kCommandRequest c \<Rightarrow> m\<lparr>ocm_rq := OSS_RQ_NOT_SET\<rparr> | _ \<Rightarrow> m)"

text \<open>\<open>release_request\<close> empties the \<open>oneof\<close> as \<open>clear_request\<close> does, and leaks the object.\<close>

definition oss_release_request :: "OSSCommandMessage \<Rightarrow> OSSCommandMessage" where
  "oss_release_request m =
     (case ocm_rq m of kCommandRequest c \<Rightarrow> m\<lparr>ocm_rq := OSS_RQ_NOT_SET\<rparr> | _ \<Rightarrow> m)"

record OssWire =
  oss_parse :: "string \<Rightarrow> bool \<times> OSSCommandMessage"
  oss_serialize :: "OSSCommandMessage \<Rightarrow> string"

section \<open>The stub\<close>

text \<open>
  The members \<open>context_\<close> and \<open>socket_\<close>. The destructor closes the context; then the members
  are destroyed, and with them the socket.
\<close>

record OssStubRuleSetter =
  stub_context :: ptr
  stub_socket :: ptr

definition OssStub_new :: "'w libzmq \<Rightarrow> ('w, OssStubRuleSetter) zmq_call" where
  "OssStub_new lib =
     zbind (context_new lib 1) (\<lambda>ctx. zreturn \<lparr>stub_context = ctx, stub_socket = 0\<rparr>)"

definition OssStub_delete :: "'w libzmq \<Rightarrow> OssStubRuleSetter \<Rightarrow> ('w, unit) zmq_call" where
  "OssStub_delete lib stub =
     zbind (context_close lib (stub_context stub)) (\<lambda>u. socket_close lib (stub_socket stub))"

definition BuildCommandMessage :: "string \<Rightarrow> OSSCommandMessage" where
  "BuildCommandMessage cmd =
     oss_set_command cmd (default_OSSCommandMessage\<lparr>ocm_type := OSS_REQUEST\<rparr>)"

text \<open>An answer that does not parse is only logged; \<open>rc\<close> is then what parsing left.\<close>

definition OssStub_ProcessReply :: "OssWire \<Rightarrow> string \<Rightarrow> bool" where
  "OssStub_ProcessReply wire raw =
     (case oss_parse wire raw of
        (parsed, msg) \<Rightarrow> if ocr_rc (oss_reply msg) \<noteq> 0 then False else True)"

definition kDefaultPort :: string where
  "kDefaultPort = ''5556''"

definition OssStub_TrySend ::
  "'w ReqSocket \<Rightarrow> OssWire \<Rightarrow> string \<Rightarrow> OSSCommandMessage \<Rightarrow> string \<Rightarrow> 'w \<Rightarrow>
    (bool \<times> string \<times> 'w) option" where
  "OssStub_TrySend sock wire ipPort msg reply w =
     SendAndReceiveRequest sock ipPort (oss_serialize wire msg) reply w"

definition RemotelyExecuteCmd ::
  "'w ReqSocket \<Rightarrow> OssWire \<Rightarrow> 'w \<Rightarrow> string \<Rightarrow> string \<Rightarrow> (bool \<times> 'w) option" where
  "RemotelyExecuteCmd sock wire w ip cmd =
     (let msg = BuildCommandMessage cmd in
      if length ip = 0 then Some (False, w)
      else
        let ipPort = ip @ '':'' @ kDefaultPort
        in (case InitializeZMQSocket sock w ipPort of
              None \<Rightarrow> None
            | Some w1 \<Rightarrow>
                (case OssStub_TrySend sock wire ipPort msg [] w1 of
                   None \<Rightarrow> None
                 | Some (ok, raw, w2) \<Rightarrow>
                     if \<not> ok then Some (False, w2) else Some (OssStub_ProcessReply wire raw, w2))))"

definition OssStub_SetRule ::
  "'w ReqSocket \<Rightarrow> OssWire \<Rightarrow> 'w \<Rightarrow> string \<Rightarrow> string \<Rightarrow> string \<Rightarrow> u32 \<Rightarrow> (bool \<times> 'w) option" where
  "OssStub_SetRule sock wire w ip job rule rpc_rate_limit =
     RemotelyExecuteCmd sock wire w ip (BuildLocalSetRuleCommand job rule rpc_rate_limit)"

definition OssStub_RemoveRule ::
  "'w ReqSocket \<Rightarrow> OssWire \<Rightarrow> 'w \<Rightarrow> string \<Rightarrow> string \<Rightarrow> string \<Rightarrow> (bool \<times> 'w) option" where
  "OssStub_RemoveRule sock wire w ip rule job =
     RemotelyExecuteCmd sock wire w ip (BuildLocalRemoveRuleCommand job rule)"

section \<open>The server on the OSS\<close>

record OSSRuleServer =
  oss_ip_port :: string
  oss_sockets :: ServerSockets

definition OSS_new :: "string \<Rightarrow> OSSRuleServer" where
  "OSS_new ip_port = \<lparr>oss_ip_port = ip_port, oss_sockets = no_sockets\<rparr>"

definition OSS_initZMQ :: "'z libzmq \<Rightarrow> OSSRuleServer \<Rightarrow> ('z, OSSRuleServer) zmq_call" where
  "OSS_initZMQ lib s =
     zbind (context_new lib 1) (\<lambda>ctx.
     zbind (socket_new lib ctx ZMQ_REP) (\<lambda>new.
     zbind (socket_close lib (sv_server (oss_sockets s))) (\<lambda>u.
     zbind (socket_bind lib new (''tcp://'' @ oss_ip_port s)) (\<lambda>u.
     zreturn (s\<lparr>oss_sockets := \<lparr>sv_context = ctx, sv_server = new\<rparr>\<rparr>)))))"

definition OSS_Init :: "'z libzmq \<Rightarrow> OSSRuleServer \<Rightarrow> ('z, bool \<times> OSSRuleServer) zmq_call" where
  "OSS_Init lib s = zbind (OSS_initZMQ lib s) (\<lambda>s1. zreturn (True, s1))"

definition OSS_TearDown :: "OSSRuleServer \<Rightarrow> bool \<times> OSSRuleServer" where
  "OSS_TearDown s = (True, s)"

definition ServeCommand ::
  "'w popen \<Rightarrow> 'w \<Rightarrow> OSSCommandMessage \<Rightarrow> bool \<times> OSSCommandMessage \<times> 'w" where
  "ServeCommand popen w m =
     (case exec popen w (c_str (oss_command m)) [] of
        (ok, out, w1) \<Rightarrow>
          if \<not> ok then
            (True, oss_mutable_reply (\<lambda>r. r\<lparr>ocr_return_msg := out, ocr_rc := - 1\<rparr>)
               ((oss_clear_request m)\<lparr>ocm_type := OSS_REPLY\<rparr>), w1)
          else (True, oss_mutable_reply (\<lambda>r. r\<lparr>ocr_rc := 0\<rparr>) (oss_clear_request m), w1))"

definition ServeReply :: "OSSCommandMessage \<Rightarrow> bool \<times> OSSCommandMessage" where
  "ServeReply m =
     (True, oss_mutable_reply
        (\<lambda>r. r\<lparr>ocr_return_msg := ''invalid message type: Reply'', ocr_rc := - 1\<rparr>)
        (oss_clear_request m))"

definition OSS_ProcessMessage ::
  "'w popen \<Rightarrow> 'w \<Rightarrow> OSSCommandMessage \<Rightarrow> bool \<times> OSSCommandMessage \<times> 'w" where
  "OSS_ProcessMessage popen w m =
     (case ocm_type m of
        OSS_REQUEST \<Rightarrow> ServeCommand popen w m
      | OSS_REPLY \<Rightarrow> (case ServeReply m of (ok, m') \<Rightarrow> (ok, m', w))
      | OtherOSSType n \<Rightarrow> (False, m, w))"

definition OSS_ProcessUnparseableMsg :: "OSSCommandMessage \<Rightarrow> OSSCommandMessage" where
  "OSS_ProcessUnparseableMsg m =
     oss_mutable_reply (\<lambda>r. r\<lparr>ocr_return_msg := ''unparseable message''\<rparr>)
       (oss_mutable_reply (\<lambda>r. r\<lparr>ocr_rc := 1\<rparr>) (m\<lparr>ocm_type := OSS_REPLY\<rparr>))"

text \<open>
  One turn of \<open>Serve\<close> on a request: the answer it sends, \<open>None\<close> when it sends none.
\<close>

definition OSS_Serve_turn :: "'w popen \<Rightarrow> OssWire \<Rightarrow> 'w \<Rightarrow> string \<Rightarrow> string option \<times> 'w" where
  "OSS_Serve_turn popen wire w raw =
     (case oss_parse wire raw of
        (parsed, m) \<Rightarrow>
          if \<not> parsed then (Some (oss_serialize wire (OSS_ProcessUnparseableMsg m)), w)
          else if ocm_type m = OSS_REPLY then (None, w)
          else
            (case OSS_ProcessMessage popen w m of
               (ok, m1, w1) \<Rightarrow>
                 (Some (oss_serialize wire ((oss_release_request m1)\<lparr>ocm_type := OSS_REPLY\<rparr>)), w1)))"

text \<open>A turn over the socket, and \<open>n\<close> turns of the endless loop.\<close>

definition OSS_Serve_step ::
  "'w popen \<Rightarrow> OssWire \<Rightarrow> 'z RepSocket \<Rightarrow> 'w \<times> 'z \<Rightarrow> ('w \<times> 'z) option" where
  "OSS_Serve_step popen wire sock st =
     (case st of (w, z) \<Rightarrow>
        (case wire_recv sock z of
           None \<Rightarrow> None
         | Some (raw, z1) \<Rightarrow>
             (case OSS_Serve_turn popen wire w raw of
                (None, w1) \<Rightarrow> Some (w1, z1)
              | (Some answer, w1) \<Rightarrow> map_option (\<lambda>z2. (w1, z2)) (wire_send sock z1 answer))))"

fun OSS_Serve ::
  "'w popen \<Rightarrow> OssWire \<Rightarrow> 'z RepSocket \<Rightarrow> nat \<Rightarrow> 'w \<times> 'z \<Rightarrow> ('w \<times> 'z) option" where
  "OSS_Serve popen wire sock 0 st = Some st"
| "OSS_Serve popen wire sock (Suc n) st =
     (case OSS_Serve_step popen wire sock st of
        None \<Rightarrow> None | Some st1 \<Rightarrow> OSS_Serve popen wire sock n st1)"

section \<open>Lemmas\<close>

text \<open>
  What the wire format promises: a message with a named type whose text is ASCII, so that the
  check of UTF-8 cannot fail, and within the size limit is read back as it was serialized.
\<close>

definition sendable :: "string \<Rightarrow> bool" where
  "sendable s \<longleftrightarrow> ascii s \<and> length s < 2 ^ 30"

definition oss_plain :: "OSSCommandMessage \<Rightarrow> bool" where
  "oss_plain m \<longleftrightarrow> (ocm_type m = OSS_REQUEST \<or> ocm_type m = OSS_REPLY) \<and>
     (case ocm_rq m of OSS_RQ_NOT_SET \<Rightarrow> True | kCommandRequest c \<Rightarrow> sendable c
      | kCommandReply r \<Rightarrow> sendable (ocr_return_msg r))"

definition oss_wire_ok :: "OssWire \<Rightarrow> bool" where
  "oss_wire_ok wire \<longleftrightarrow> (\<forall>m. oss_plain m \<longrightarrow> oss_parse wire (oss_serialize wire m) = (True, m))"

lemmas oss_message_defs = BuildCommandMessage_def oss_set_command_def default_OSSCommandMessage_def
  oss_command_def oss_mutable_reply_def oss_clear_request_def oss_release_request_def oss_reply_def
  default_OSSCommandReply_def

lemma exec_failed: "exec popen w cmd out = (False, out', w') \<Longrightarrow> out' = out"
  by (auto simp: exec_def split: prod.splits option.splits)

lemma oss_plain_messages:
  "sendable cmd \<Longrightarrow> oss_plain (BuildCommandMessage cmd)"
  "oss_plain \<lparr>ocm_type = OSS_REPLY, ocm_rq = kCommandReply \<lparr>ocr_rc = rc, ocr_return_msg = []\<rparr>\<rparr>"
  by (simp_all add: oss_plain_def oss_message_defs sendable_def ascii_def)

lemma OSS_Serve_turn_command:
  assumes "oss_wire_ok wire" and "sendable cmd" and "exec popen w (c_str cmd) [] = (ok, out, w1)"
  shows "OSS_Serve_turn popen wire w (oss_serialize wire (BuildCommandMessage cmd)) =
    (Some (oss_serialize wire \<lparr>ocm_type = OSS_REPLY, ocm_rq = kCommandReply
        \<lparr>ocr_rc = (if ok then 0 else - 1), ocr_return_msg = []\<rparr>\<rparr>), w1)"
proof -
  have "oss_parse wire (oss_serialize wire (BuildCommandMessage cmd)) = (True, BuildCommandMessage cmd)"
    using assms(1) oss_plain_messages(1) [OF assms(2)] by (simp add: oss_wire_ok_def)
  with assms(3) exec_failed [of popen w "c_str cmd" "[]" out w1] show ?thesis
    by (cases ok) (simp_all add: OSS_Serve_turn_def OSS_ProcessMessage_def ServeCommand_def oss_message_defs)
qed

text \<open>The stub's verdict on the server's answer is whether the command could be started.\<close>

lemma stub_and_server:
  assumes wire: "oss_wire_ok wire" and cmd: "sendable cmd" and ex: "exec popen w (c_str cmd) [] = (ok, out, w1)"
  shows "\<exists>raw. OSS_Serve_turn popen wire w (oss_serialize wire (BuildCommandMessage cmd)) = (Some raw, w1) \<and>
    OssStub_ProcessReply wire raw = ok"
  using OSS_Serve_turn_command [OF assms] wire oss_plain_messages(2)
  by (auto simp: OssStub_ProcessReply_def oss_wire_ok_def oss_reply_def)

lemma RemotelyExecuteCmd_returns:
  assumes "req_socket sock idle"
  shows "RemotelyExecuteCmd sock wire w ip cmd \<noteq> None"
proof -
  let ?p = "ip @ '':'' @ kDefaultPort" and ?msg = "oss_serialize wire (BuildCommandMessage cmd)"
  obtain w1 where w1: "InitializeZMQSocket sock w ?p = Some w1" "idle w1"
    using req_socket_reset [OF assms, where w = w] by blast
  obtain ok raw w2 where "SendAndReceiveRequest sock ?p ?msg [] w1 = Some (ok, raw, w2)"
    using SendAndReceiveRequest_returns [OF assms w1(2), of ?p ?msg "[]"] by auto
  with w1(1) show ?thesis by (auto simp: RemotelyExecuteCmd_def OssStub_TrySend_def Let_def)
qed

text \<open>After a command the stub has a socket of its context open, and closing the context blocks.\<close>

lemma RemotelyExecuteCmd_live:
  assumes laws: "tracks_sockets lib live" and ip: "ip \<noteq> []" and s: "s = 0 \<or> live w s \<noteq> None"
    and run: "RemotelyExecuteCmd (zmq_requester lib ctx) wire (w, s) ip cmd = Some (b, (w', s'))"
  shows "live w' s' = Some ctx"
proof -
  let ?sock = "zmq_requester lib ctx" and ?I = "\<lambda>(w, s). live w s = Some ctx"
  obtain w1 ok raw w2 where reset: "InitializeZMQSocket ?sock (w, s) (ip @ '':'' @ kDefaultPort) = Some w1"
    and ex: "SendAndReceiveRequest ?sock (ip @ '':'' @ kDefaultPort)
      (oss_serialize wire (BuildCommandMessage cmd)) [] w1 = Some (ok, raw, w2)"
    and w2: "w2 = (w', s')"
    using run ip by (auto simp: RemotelyExecuteCmd_def OssStub_TrySend_def Let_def
        split: option.splits if_splits)
  have "?I w1"
    using reset by (auto simp: InitializeZMQSocket_def zmq_requester_def split: sum.splits
        dest!: reset_socket_live [OF laws s])
  from SendAndReceiveRequest_keeps [OF zmq_requester_live [OF laws] this ex] w2 show ?thesis by simp
qed

lemma OssStub_delete_blocks:
  assumes laws: "tracks_sockets lib live" and "live w s = Some ctx"
  shows "OssStub_delete lib \<lparr>stub_context = ctx, stub_socket = s\<rparr> w = Inl Blocks"
proof -
  have "zmq_ctx_destroy lib w ctx = None"
    using assms(2) by (intro tracks_sockets_laws(10) [OF laws]) (rule ranI)
  then show ?thesis by (simp add: OssStub_delete_def context_close_def zbind_def)
qed

end
