(* ===== verification/Mains.thy ===== *)
theory Mains
  imports Server Client OssRules
begin

text \<open>
  The three programs: \<open>src/src/server/main.cpp\<close>, \<open>src/src/client/main.cpp\<close> and
  \<open>src/src/oss_rule_server/main.cpp\<close>. The flags are records; \<open>gflags\<close> is a parameter that
  changes the default flags and removes what it used from the arguments (\<open>None\<close> when it ends
  the process). The set-up of the logging has no effect here.
\<close>

text \<open>
  How far a run of a program is: it returned from \<open>main\<close>, it ended without (an exception that
  nothing catches, a failed assertion, undefined behaviour), or it is in its endless loop.
\<close>

datatype 'a outcome = Exit int | Aborted | Serving 'a

type_synonym 'f gflags = "'f \<Rightarrow> string list \<Rightarrow> ('f \<times> string list) option"

text \<open>The library's socket with the wire format of the messages.\<close>

definition zmq_wire :: "'z libzmq \<Rightarrow> ptr \<Rightarrow> MsgWire \<Rightarrow> 'z Wire" where
  "zmq_wire lib p format =
     \<lparr>wire_recv = wire_recv (zmq_responder lib p), wire_send = wire_send (zmq_responder lib p),
      ParseFromString = msg_parse format, SerializeAsString = msg_serialize format\<rparr>"

section \<open>The server\<close>

record ServerFlags =
  server_ip :: string
  server_port :: string
  server_ost_limits :: string
  server_v :: bool

definition default_ServerFlags :: ServerFlags where
  "default_ServerFlags =
     \<lparr>server_ip = ''*'', server_port = ''5555'', server_ost_limits = [], server_v = False\<rparr>"

text \<open>
  What the process does once it serves: turns of the request loop, and passes of the monitor's
  thread between them (\<open>MonitorThreads\<close> has the finer interleaving).
\<close>

datatype 'w activity = Turn "'w Surroundings" | Pass "'w Env" "nat \<Rightarrow> time_point"

fun server_runs ::
  "'z Wire \<Rightarrow> 'w activity list \<Rightarrow> 'w Planner \<times> 'z \<Rightarrow> server_failure + 'w Planner \<times> 'z" where
  "server_runs wire [] st = Inr st"
| "server_runs wire (Turn sur # acts) st =
     (case Serve_turn sur wire st of Inl f \<Rightarrow> Inl f | Inr st1 \<Rightarrow> server_runs wire acts st1)"
| "server_runs wire (Pass env clock # acts) (p, z) =
     (case drain_ready env clock 0 (pl_monitor p) of
        None \<Rightarrow> Inl (ServeFailed Undefined)
      | Some m \<Rightarrow> server_runs wire acts (p\<lparr>pl_monitor := m\<rparr>, z))"

text \<open>
  \<open>main\<close>. The result of \<open>s.Init()\<close> is not used, and what follows \<open>s.Serve()\<close> is never
  reached, because \<open>Serve\<close> does not return.
\<close>

definition server_start ::
  "ServerFlags gflags \<Rightarrow> 'z libzmq \<Rightarrow> 'w Env \<Rightarrow> 'j Json \<Rightarrow> (string \<Rightarrow> string option)
    \<Rightarrow> ('w Monitor \<Rightarrow> 'w Monitor option) \<Rightarrow> string list \<Rightarrow> 'w \<Rightarrow> 'z \<Rightarrow> ('w Server \<times> 'z) outcome" where
  "server_start gflags lib env json read_file thread argv w z =
     (case gflags default_ServerFlags argv of
        None \<Rightarrow> Aborted
      | Some (flags, argv') \<Rightarrow>
          let ip_port = server_ip flags @ '':'' @ server_port flags in
          (case Planner_Init env json read_file thread (Planner_new [] (server_ost_limits flags) w) of
             Inl e \<Rightarrow> Aborted
           | Inr (planner_ok, p) \<Rightarrow>
               if \<not> planner_ok then Exit (- 1)
               else
                 (case Server_Init lib (Server_new ip_port [] p) z of
                    Inl e \<Rightarrow> Aborted
                  | Inr ((initialised, s), z1) \<Rightarrow> Serving (s, z1))))"

definition server_main ::
  "ServerFlags gflags \<Rightarrow> 'z libzmq \<Rightarrow> MsgWire \<Rightarrow> 'w Env \<Rightarrow> 'j Json \<Rightarrow> (string \<Rightarrow> string option)
    \<Rightarrow> ('w Monitor \<Rightarrow> 'w Monitor option) \<Rightarrow> string list \<Rightarrow> 'w \<Rightarrow> 'z \<Rightarrow> 'w activity list
    \<Rightarrow> ('w Planner \<times> 'z) outcome" where
  "server_main gflags lib format env json read_file thread argv w z acts =
     (case server_start gflags lib env json read_file thread argv w z of
        Exit c \<Rightarrow> Exit c
      | Aborted \<Rightarrow> Aborted
      | Serving (s, z1) \<Rightarrow>
          (case server_runs (zmq_wire lib (sv_server (srv_sockets s)) format) acts (srv_planner s, z1) of
             Inl f \<Rightarrow> Aborted
           | Inr st \<Rightarrow> Serving st))"

section \<open>The rule server\<close>

record OssFlags =
  oss_ip :: string
  oss_port :: string
  oss_v :: bool

definition default_OssFlags :: OssFlags where
  "default_OssFlags = \<lparr>oss_ip = ''*'', oss_port = ''5556'', oss_v = False\<rparr>"

definition oss_main ::
  "OssFlags gflags \<Rightarrow> 'z libzmq \<Rightarrow> OssWire \<Rightarrow> 'w popen \<Rightarrow> string list \<Rightarrow> nat \<Rightarrow> 'w \<Rightarrow> 'z
    \<Rightarrow> ('w \<times> 'z) outcome" where
  "oss_main gflags lib format popen argv n w z =
     (case gflags default_OssFlags argv of
        None \<Rightarrow> Aborted
      | Some (flags, argv') \<Rightarrow>
          let ip_port = oss_ip flags @ '':'' @ oss_port flags in
          (case OSS_Init lib (OSS_new ip_port) z of
             Inl e \<Rightarrow> Aborted
           | Inr ((ok, s), z1) \<Rightarrow>
               if \<not> ok then Exit (- 1)
               else
                 (case OSS_Serve popen format (zmq_responder lib (sv_server (oss_sockets s))) n (w, z1) of
                    None \<Rightarrow> Aborted
                  | Some st \<Rightarrow> Serving st)))"

section \<open>The client\<close>

record ClientFlags =
  FLAGS_ip :: string
  FLAGS_port :: string
  FLAGS_id :: string
  FLAGS_filenames :: string
  FLAGS_throughput :: "32 word"
  FLAGS_duration :: "32 word"
  FLAGS_storage_req_file :: string
  FLAGS_v :: bool

definition default_ClientFlags :: ClientFlags where
  "default_ClientFlags =
     \<lparr>FLAGS_ip = ''localhost'', FLAGS_port = ''5555'', FLAGS_id = [], FLAGS_filenames = [],
      FLAGS_throughput = 0, FLAGS_duration = 0, FLAGS_storage_req_file = [], FLAGS_v = False\<rparr>"

text \<open>\<open>execute\<close>: the exit code and what was printed to the standard output.\<close>

definition execute ::
  "'w ReqSocket \<Rightarrow> MsgWire \<Rightarrow> 'j JsonInt \<Rightarrow> (string \<Rightarrow> string option) \<Rightarrow> 32 word \<Rightarrow> string
    \<Rightarrow> ClientFlags \<Rightarrow> string \<Rightarrow> 'w \<Rightarrow> (int \<times> string \<times> 'w) option" where
  "execute sock wire json read_file uninit ipPort flags cmd w =
     map_option (\<lambda>(success, text, w1). (if success then 0 else - 1, text, w1))
       (if cmd = ''reserve'' then
          map_option (\<lambda>(ok, w1). (ok, [], w1))
            (TryReserveResources sock wire json read_file uninit ipPort (FLAGS_id flags)
               (FLAGS_filenames flags) (FLAGS_throughput flags) (FLAGS_duration flags)
               (FLAGS_storage_req_file flags) w)
        else if cmd = ''remove'' then
          map_option (\<lambda>(ok, w1). (ok, [], w1)) (RemoveReservation sock wire ipPort (FLAGS_id flags) w)
        else if cmd = ''ls'' then ListReservations sock wire ipPort w
        else Some (False, [], w))"

text \<open>\<open>main\<close>; the client object is destroyed after the command.\<close>

definition client_main ::
  "ClientFlags gflags \<Rightarrow> 'z libzmq \<Rightarrow> MsgWire \<Rightarrow> 'j JsonInt \<Rightarrow> (string \<Rightarrow> string option)
    \<Rightarrow> 32 word \<Rightarrow> string list \<Rightarrow> 'z \<Rightarrow> unit outcome \<times> string" where
  "client_main gflags lib wire json read_file uninit argv z =
     (case gflags default_ClientFlags argv of
        None \<Rightarrow> (Aborted, [])
      | Some (flags, argv') \<Rightarrow>
          if length argv' < 2 then (Exit (- 1), [])
          else
            let ipPort = FLAGS_ip flags @ '':'' @ FLAGS_port flags in
            (case Client_Init lib (Client_new ipPort) z of
               Inl e \<Rightarrow> (Aborted, [])
             | Inr ((initialised, c), z1) \<Rightarrow>
                 (case execute (zmq_requester lib (cl_context c)) wire json read_file uninit ipPort flags
                         (c_str (argv' ! 1)) (z1, cl_client c) of
                    None \<Rightarrow> (Aborted, [])
                  | Some (ret, text, (z2, s2)) \<Rightarrow>
                      (case Client_delete lib s2 z2 of
                         Inl e \<Rightarrow> (Aborted, text)
                       | Inr u \<Rightarrow> (Exit ret, text)))))"

section \<open>Lemmas\<close>

lemma server_runs_inv:
  "mon_inv (pl_monitor (fst st)) \<Longrightarrow> server_runs wire acts st = Inr st' \<Longrightarrow> mon_inv (pl_monitor (fst st'))"
proof (induction wire acts st arbitrary: st' rule: server_runs.induct)
  case (2 wire sur acts st)
  obtain p z where st: "st = (p, z)" by (cases st)
  obtain p1 z1 where t: "Serve_turn sur wire (p, z) = Inr (p1, z1)"
    and rest: "server_runs wire acts (p1, z1) = Inr st'"
    using "2.prems"(2) unfolding st by (cases "Serve_turn sur wire (p, z)") auto
  have "mon_inv (pl_monitor p)" using "2.prems"(1) unfolding st by simp
  from Serve_turn_inv [OF this t] have "mon_inv (pl_monitor (fst (p1, z1)))" by simp
  from "2.IH" [OF t [folded st] this rest] show ?case .
next
  case (3 wire env clock acts p z)
  have inv: "mon_inv (pl_monitor p)" using "3.prems"(1) by simp
  obtain m where m: "drain_ready env clock 0 (pl_monitor p) = Some m" "mon_inv m"
    using drain_ready_inv [OF inv, of env clock 0] by blast
  have keep: "mon_inv (pl_monitor (fst (p\<lparr>pl_monitor := m\<rparr>, z)))" using m(2) by simp
  have rest: "server_runs wire acts (p\<lparr>pl_monitor := m\<rparr>, z) = Inr st'"
    using "3.prems"(2) unfolding server_runs.simps m(1) option.case .
  from "3.IH" [OF m(1) keep rest] show ?case .
qed simp

lemma server_start_inv:
  assumes "server_start gflags lib env json read_file thread argv w z = Serving (s, z1)"
  shows "mon_inv (pl_monitor (srv_planner s)) \<and> sv_server (srv_sockets s) \<noteq> 0 \<and> srv_root_path s = []"
proof -
  obtain flags argv' where flags: "gflags default_ServerFlags argv = Some (flags, argv')"
    using assms by (auto simp: server_start_def split: option.splits)
  let ?p = "Planner_Init env json read_file thread (Planner_new [] (server_ost_limits flags) w)"
  obtain p where p: "?p = Inr (True, p)"
    using assms flags by (cases ?p) (auto simp: server_start_def Let_def split: if_splits prod.splits)
  let ?s = "Server_new (server_ip flags @ '':'' @ server_port flags) [] p"
  obtain ok where s: "Server_Init lib ?s z = Inr ((ok, s), z1)"
    using assms flags p by (cases "Server_Init lib ?s z") (auto simp: server_start_def Let_def)
  show ?thesis
    using Server_Init_shape [OF s] Planner_Init_inv(1) [OF p] by (simp add: Server_new_def)
qed

end
