(* ===== verification/InstalledRules.thy ===== *)
theory InstalledRules
  imports Mains
begin

text \<open>
  The rules on the OSSs while the server runs. \<open>MonitorInvariant\<close> ties the jobs to the map
  \<open>active_rules_\<close>; here that map is tied to what is installed outside the program, through
  every operation of the rule manager, the monitor, the planner and the request loop: the
  rules of a job are on its OSSs from its start to its stop.
\<close>

section \<open>What the setter and Lustre owe\<close>

text \<open>
  \<open>inst w\<close> are the pairs of OSS address and rule name that are installed. Setting or removing
  a rule on an OSS leaves every other pair alone, setting leaves the rule there when it
  succeeds, and the queries of Lustre take no rule away. Nothing is asked of calls that fail.
\<close>

definition keeps_rules :: "('w \<Rightarrow> (string \<times> string) set) \<Rightarrow> 'w Env \<Rightarrow> bool" where
  "keeps_rules inst env \<longleftrightarrow>
     (\<forall>w ip job rule mbs ok w'. SetRule (env_setter env) w ip job rule mbs = (ok, w') \<longrightarrow>
        inst w - {(ip, rule)} \<subseteq> inst w' \<and> (ok \<longrightarrow> (ip, rule) \<in> inst w')) \<and>
     (\<forall>w ip job rule ok w'. RemoveRule (env_setter env) w ip rule job = (ok, w') \<longrightarrow>
        inst w - {(ip, rule)} \<subseteq> inst w') \<and>
     (\<forall>w ok w'. lustre_Init (env_lustre env) w = (ok, w') \<longrightarrow> inst w \<subseteq> inst w') \<and>
     (\<forall>w path out ok out' w'. lustre_GetOstList (env_lustre env) w path out = (ok, out', w') \<longrightarrow>
        inst w \<subseteq> inst w') \<and>
     (\<forall>w file out ok out' w'. lustre_GetOstsForFile (env_lustre env) w file out = (ok, out', w') \<longrightarrow>
        inst w \<subseteq> inst w') \<and>
     (\<forall>w uuid ip ok ip' w'. lustre_GetIPOfOst (env_lustre env) w uuid ip = (ok, ip', w') \<longrightarrow>
        inst w \<subseteq> inst w')"

lemma keeps_rulesD:
  assumes "keeps_rules inst env"
  shows "SetRule (env_setter env) w ip job rule mbs = (ok, w') \<Longrightarrow>
      inst w - {(ip, rule)} \<subseteq> inst w' \<and> (ok \<longrightarrow> (ip, rule) \<in> inst w')"
    and "RemoveRule (env_setter env) w ip rule job = (ok, w') \<Longrightarrow> inst w - {(ip, rule)} \<subseteq> inst w'"
    and "lustre_GetOstList (env_lustre env) w path out = (ok, out1, w') \<Longrightarrow> inst w \<subseteq> inst w'"
    and "lustre_GetOstsForFile (env_lustre env) w path out2 = (ok, out3, w') \<Longrightarrow> inst w \<subseteq> inst w'"
    and "lustre_GetIPOfOst (env_lustre env) w uuid ip = (ok, ip', w') \<Longrightarrow> inst w \<subseteq> inst w'"
  using assms unfolding keeps_rules_def by (elim conjE, (simp | metis))+

section \<open>The rule manager\<close>

text \<open>Every entry of the map has the name made from its job and is installed on its OSSs.\<close>

definition rules_installed ::
  "('w \<Rightarrow> (string \<times> string) set) \<Rightarrow> (string \<rightharpoonup> RuleDefinition) \<Rightarrow> 'w \<Rightarrow> bool" where
  "rules_installed inst rules w \<longleftrightarrow>
     (\<forall>k d. rules k = Some d \<longrightarrow> rule_name d = lustre_tbf_rule_postfix @ k \<and>
        rules_at (ost_ips d) (rule_name d) \<subseteq> inst w)"

definition other_rules :: "(string \<times> string) set \<Rightarrow> string \<Rightarrow> (string \<times> string) set" where
  "other_rules S rule = {x \<in> S. snd x \<noteq> rule}"

lemma other_rules_mono: "S \<subseteq> T \<Longrightarrow> other_rules S rule \<subseteq> other_rules T rule"
  by (auto simp: other_rules_def)

lemma other_rules_idem: "other_rules S rule \<subseteq> T \<Longrightarrow> other_rules S rule \<subseteq> other_rules T rule"
  by (auto simp: other_rules_def)

lemma rules_installed_mono:
  "rules_installed inst rules w \<Longrightarrow> inst w \<subseteq> inst w' \<Longrightarrow> rules_installed inst rules w'"
  unfolding rules_installed_def by blast

text \<open>What happens to the rule of one job does not touch the rules of the others.\<close>

lemma rules_installed_others:
  assumes "rules_installed inst rules w"
    and "other_rules (inst w) (lustre_tbf_rule_postfix @ job) \<subseteq> inst w'"
  shows "rules_installed inst (rules(job := None)) w'"
  unfolding rules_installed_def
proof (intro allI impI)
  fix k d assume "(rules(job := None)) k = Some d"
  then have k: "k \<noteq> job" and d: "rules k = Some d" by (auto split: if_splits)
  with assms(1) have r: "rule_name d = lustre_tbf_rule_postfix @ k" "rules_at (ost_ips d) (rule_name d) \<subseteq> inst w"
    unfolding rules_installed_def by blast+
  from r(1) k have "rules_at (ost_ips d) (rule_name d) \<subseteq> other_rules (rules_at (ost_ips d) (rule_name d))
      (lustre_tbf_rule_postfix @ job)"
    by (auto simp: other_rules_def rules_at_def)
  also have "\<dots> \<subseteq> other_rules (inst w) (lustre_tbf_rule_postfix @ job)" using r(2) by (rule other_rules_mono)
  finally show "rule_name d = lustre_tbf_rule_postfix @ k \<and> rules_at (ost_ips d) (rule_name d) \<subseteq> inst w'"
    using r(1) assms(2) by blast
qed

lemma rules_installed_new:
  assumes "rules_installed inst rules w" and "rules_at ips (lustre_tbf_rule_postfix @ job) \<subseteq> inst w"
  shows "rules_installed inst (rules(job \<mapsto> \<lparr>rule_name = lustre_tbf_rule_postfix @ job, ost_ips = ips\<rparr>)) w"
  using assms unfolding rules_installed_def by (metis RuleDefinition.select_convs(1,2) fun_upd_apply option.inject)

lemma run_remove_tasks_others:
  assumes "keeps_rules inst env"
  shows "other_rules (inst w) rule \<subseteq> inst (run_remove_tasks (env_setter env) w ips rule job)"
proof (induction ips arbitrary: w)
  case (Cons ip ips)
  obtain ok w1 where r: "RemoveRule (env_setter env) w ip rule job = (ok, w1)"
    by (cases "RemoveRule (env_setter env) w ip rule job")
  from keeps_rulesD(2) [OF assms r] have "other_rules (inst w) rule \<subseteq> inst w1" by (auto simp: other_rules_def)
  from subset_trans [OF other_rules_idem [OF this] Cons.IH] r show ?case by simp
qed (auto simp: other_rules_def)

lemma run_set_tasks_others:
  assumes "keeps_rules inst env"
  shows "run_set_tasks (env_setter env) w es job rule = (oks, w') \<Longrightarrow>
    length oks = length es \<and> other_rules (inst w) rule \<subseteq> inst w' \<and>
    (False \<notin> set oks \<longrightarrow> inst w \<union> rules_at (map fst es) rule \<subseteq> inst w')"
proof (induction es arbitrary: w oks)
  case (Cons e es)
  obtain ip mbs where e: "e = (ip, mbs)" by (cases e)
  obtain ok w1 where s: "SetRule (env_setter env) w ip job rule mbs = (ok, w1)"
    by (cases "SetRule (env_setter env) w ip job rule mbs")
  with Cons.prems e obtain oks' where r: "run_set_tasks (env_setter env) w1 es job rule = (oks', w')"
    "oks = ok # oks'"
    by (auto split: prod.splits)
  note one = keeps_rulesD(1) [OF assms s]
  from one have "other_rules (inst w) rule \<subseteq> inst w1" by (auto simp: other_rules_def)
  from other_rules_idem [OF this] Cons.IH [OF r(1)] have "other_rules (inst w) rule \<subseteq> inst w'" by blast
  moreover have "inst w \<union> rules_at (map fst (e # es)) rule \<subseteq> inst w'" if "False \<notin> set oks"
  proof -
    from that r(2) have "ok" "False \<notin> set oks'" by auto
    with one Cons.IH [OF r(1)] e show ?thesis by (auto simp: rules_at_def)
  qed
  ultimately show ?case using Cons.IH [OF r(1)] r(2) by simp
qed (auto simp: other_rules_def rules_at_def)

lemma SetRulesAsync_installed:
  assumes keeps: "keeps_rules inst env"
    and run: "SetRulesAsync (env_setter env) w es job rule = (ok, w')"
  shows "other_rules (inst w) rule \<subseteq> inst w'"
    and "ok \<Longrightarrow> inst w \<union> rules_at (map fst es) rule \<subseteq> inst w'"
proof -
  obtain oks w1 where s: "run_set_tasks (env_setter env) w es job rule = (oks, w1)"
    by (cases "run_set_tasks (env_setter env) w es job rule")
  note set = run_set_tasks_others [OF keeps s]
  let ?failed = "map (fst \<circ> fst) (filter (\<lambda>(e, ok). \<not> ok) (zip es oks))"
  have ok: "ok = (?failed = [])" and w': "w' = run_remove_tasks (env_setter env) w1 ?failed rule job"
    using run s by (simp_all add: SetRulesAsync_def Let_def)
  from set have "other_rules (inst w) rule \<subseteq> inst w1" by blast
  from other_rules_idem [OF this] show "other_rules (inst w) rule \<subseteq> inst w'"
    unfolding w' using run_remove_tasks_others [OF keeps] by blast
  assume "ok"
  with ok have "?failed = []" by simp
  then have "\<forall>b \<in> set (map snd (zip es oks)). b" by (auto simp: filter_empty_conv)
  with set have "False \<notin> set oks" by auto
  with set show "inst w \<union> rules_at (map fst es) rule \<subseteq> inst w'"
    unfolding w' \<open>?failed = []\<close> by simp
qed

lemma determineOstIps_keeps:
  assumes keeps: "keeps_rules inst env"
  shows "determineOstIps (env_lustre env) rm w ids ips = (b, ips', rm', w') \<Longrightarrow> inst w \<subseteq> inst w'"
proof (induction ids arbitrary: rm w ips)
  case (Cons i ids)
  have "ToUUID (env_lustre env) c w0 i = (u, c', w1) \<Longrightarrow> inst w0 \<subseteq> inst w1" for c w0 i u c' w1
    by (auto simp: ToUUID_def UpdateCache_def split: option.splits prod.splits if_splits
        dest: keeps_rulesD(3) [OF keeps])
  moreover have "GetIp (env_lustre env) c w0 u = (ip, c', w1) \<Longrightarrow> inst w0 \<subseteq> inst w1" for c w0 u ip c' w1
    by (auto simp: GetIp_def split: option.splits prod.splits if_splits dest: keeps_rulesD(5) [OF keeps])
  ultimately show ?case
    using Cons by (fastforce simp: Let_def split: prod.splits if_splits)
qed simp

lemma SetRules_installed:
  assumes keeps: "keeps_rules inst env" and inv: "rules_installed inst (active_rules rm) w"
    and run: "SetRules (env_lustre env) (env_setter env) rm w ids job mbs = (ok, rm', w')"
  shows "rules_installed inst (active_rules rm') w'"
proof (cases "ids = [] \<or> active_rules rm job \<noteq> None")
  case True
  with run inv show ?thesis by (simp add: SetRules_def)
next
  case False
  then have free: "(active_rules rm)(job := None) = active_rules rm" by auto
  obtain found ips rm1 w1 where d: "determineOstIps (env_lustre env) rm w ids [] = (found, ips, rm1, w1)"
    by (cases "determineOstIps (env_lustre env) rm w ids []") auto
  have inv1: "rules_installed inst (active_rules rm1) w1" "active_rules rm1 = active_rules rm"
    using rules_installed_mono [OF inv determineOstIps_keeps [OF keeps d]] determineOstIps_active [OF d] by simp_all
  obtain es uniq where c: "computeOssToMBsAndCountUnique mbs ips [] [] = (es, uniq)"
    by (cases "computeOssToMBsAndCountUnique mbs ips [] []")
  obtain b w2 where s: "SetRulesAsync (env_setter env) w1 es job (lustre_tbf_rule_postfix @ job) = (b, w2)"
    by (cases "SetRulesAsync (env_setter env) w1 es job (lustre_tbf_rule_postfix @ job)")
  have inv2: "rules_installed inst (active_rules rm1) w2"
    using rules_installed_others [OF inv1(1) SetRulesAsync_installed(1) [OF keeps s]] inv1(2) free by simp
  show ?thesis
  proof (cases "found \<and> b")
    case True
    have "rules_at uniq (lustre_tbf_rule_postfix @ job) \<subseteq> inst w2"
      using SetRulesAsync_installed(2) [OF keeps s] True compute_keys [OF c] by simp
    from rules_installed_new [OF inv2 this] True run False d c s show ?thesis
      by (auto simp: SetRules_def Let_def)
  next
    case no: False
    with run False d c s inv1(1) inv2 show ?thesis
      by (auto simp: SetRules_def Let_def split: if_splits)
  qed
qed

lemma RemoveRules_installed:
  assumes keeps: "keeps_rules inst env" and inv: "rules_installed inst (active_rules rm) w"
    and run: "RemoveRules (env_setter env) rm w job = (ok, rm', w')"
  shows "rules_installed inst (active_rules rm') w'"
proof (cases "active_rules rm job")
  case None
  with run inv show ?thesis by (simp add: RemoveRules_def)
next
  case (Some d)
  with inv have "rule_name d = lustre_tbf_rule_postfix @ job" unfolding rules_installed_def by blast
  with run Some rules_installed_others [OF inv] run_remove_tasks_others [OF keeps, of w "rule_name d"]
  show ?thesis by (auto simp: RemoveRules_def RemoveRulesAsync_def Let_def)
qed

section \<open>The monitor\<close>

definition mon_installed :: "('w \<Rightarrow> (string \<times> string) set) \<Rightarrow> 'w Monitor \<Rightarrow> bool" where
  "mon_installed inst m \<longleftrightarrow> rules_installed inst (mrules m) (mon_world m)"

lemma mon_installed_updates [simp]:
  "mon_installed inst (m\<lparr>mon_schedule := s\<rparr>) = mon_installed inst m"
  "mon_installed inst (m\<lparr>job_priority_queue := q\<rparr>) = mon_installed inst m"
  "mon_installed inst (m\<lparr>in_flight_jobs := f\<rparr>) = mon_installed inst m"
  "mon_installed inst (m\<lparr>monitor_thread_started := b\<rparr>) = mon_installed inst m"
  "mon_installed inst (push_item k t e m) = mon_installed inst m"
  "mon_installed inst (UnblockJob m k) = mon_installed inst m"
  "mon_installed inst (RemoveJobFromPrioQueue m job) = mon_installed inst m"
  by (simp_all add: mon_installed_def UnblockJob_def RemoveJobFromPrioQueue_def split: prod.split)

lemma BlockJob_installed: "BlockJob m k = Some m' \<Longrightarrow> mon_installed inst m' = mon_installed inst m"
  by (auto simp: BlockJob_def split: if_splits)

lemma SetNrsRules_installed:
  assumes keeps: "keeps_rules inst env" and "SetNrsRules env m k = Some (ok, m')" and "mon_installed inst m"
  shows "mon_installed inst m'"
proof -
  let ?set = "\<lambda>ids mbs. SetRules (env_lustre env) (env_setter env) (mon_rules m) (mon_world m) ids k mbs"
  have "mon_installed inst (m\<lparr>mon_rules := fst (snd (?set ids mbs)), mon_world := snd (snd (?set ids mbs))\<rparr>)"
    for ids mbs
    using SetRules_installed [OF keeps, of "mon_rules m" "mon_world m" ids k mbs] assms(3)
    by (cases "?set ids mbs") (simp add: mon_installed_def)
  with assms(2,3) show ?thesis
    by (auto simp: SetNrsRules_def bind_eq_Some_conv case_prod_beta split: if_splits)
qed

lemma StartJob_installed:
  assumes keeps: "keeps_rules inst env" and "StartJob env m k = Some (ok, m')" and "mon_installed inst m"
  shows "mon_installed inst m'"
  using assms(2,3) by (auto simp: StartJob_def bind_eq_Some_conv Let_def split: if_splits
      dest: SetNrsRules_installed [OF keeps])

lemma StopJob_installed:
  assumes keeps: "keeps_rules inst env" and "StopJob env m k = Some (ok, m')" and "mon_installed inst m"
  shows "mon_installed inst m'"
proof -
  have "mon_installed inst (m\<lparr>mon_schedule := s, mon_rules := rm, mon_world := w\<rparr>)"
    if "RemoveRules (env_setter env) (mon_rules m) (mon_world m) k = (b, rm, w)" for b rm w s
    using RemoveRules_installed [OF keeps _ that] assms(3) by (simp add: mon_installed_def)
  with assms show ?thesis
    by (auto simp: StopJob_def bind_eq_Some_conv split: if_splits prod.split_asm)
qed

lemma Handle_installed:
  assumes keeps: "keeps_rules inst env" and "Handle env m k event = Some m'" and "mon_installed inst m"
  shows "mon_installed inst m'"
  using assms(2,3) by (cases event) (auto simp: Handle_def handle_event_def bind_eq_Some_conv BlockJob_installed
      dest: StartJob_installed [OF keeps] StopJob_installed [OF keeps])

lemma UnregisterJob_installed:
  assumes keeps: "keeps_rules inst env" and "UnregisterJob env m job = Some (ok, m')" and "mon_installed inst m"
  shows "mon_installed inst m'"
  using assms(2,3) by (auto simp: UnregisterJob_def bind_eq_Some_conv BlockJob_installed Let_def
      split: if_splits dest: StopJob_installed [OF keeps])

lemma drain_ready_installed:
  assumes keeps: "keeps_rules inst env"
  shows "drain_ready env clock n m = Some m' \<Longrightarrow> mon_installed inst m \<Longrightarrow> mon_installed inst m'"
proof (induction "queue_weight m" arbitrary: n m rule: less_induct)
  case less
  show ?case
  proof (cases "isThereAReadyJob m (clock n)")
    case False
    with less.prems show ?thesis by (simp add: drain_ready.simps [of env clock n m])
  next
    case True
    then obtain x q where pop: "Pop (job_priority_queue m) = (Some x, q)"
      using isThereAReadyJob_Pop by blast
    with less.prems(1) True obtain m1 where h:
      "Handle env (m\<lparr>job_priority_queue := q\<rparr>) (wi_jobid x) (eventType x) = Some m1"
      and rest: "drain_ready env clock (Suc n) m1 = Some m'"
      by (auto simp: drain_ready.simps [of env clock n m] split: option.splits)
    from Handle_installed [OF keeps h] less.prems(2) have "mon_installed inst m1" by simp
    from less.hyps [OF handle_weight [OF pop h] rest this] show ?thesis .
  qed
qed

section \<open>The server\<close>

lemma tryCompute_keeps:
  assumes keeps: "keeps_rules inst env"
  shows "tryComputeOstSetOfRequest (env_lustre env) w files S = (ok, S', w') \<Longrightarrow> inst w \<subseteq> inst w'"
proof (induction files arbitrary: w S)
  case (Cons f files)
  obtain b osts w1 where g: "lustre_GetOstsForFile (env_lustre env) w f [] = (b, osts, w1)"
    by (cases "lustre_GetOstsForFile (env_lustre env) w f []") auto
  from keeps_rulesD(4) [OF keeps g] Cons g show ?case by (fastforce split: if_splits)
qed simp

lemma Static_ScheduleJob_installed:
  assumes "Static_ScheduleJob limits uninit m j = Some (b, j', m')" and "mon_installed inst m"
  shows "mon_installed inst m'"
  using assms by (auto simp: Static_ScheduleJob_def add_and_register_def RegisterJob_def bind_eq_Some_conv
      Let_def split: if_splits)

lemma remove_ids_installed:
  assumes keeps: "keeps_rules inst env"
  shows "remove_ids env m ids = Some m' \<Longrightarrow> mon_installed inst m \<Longrightarrow> mon_installed inst m'"
proof (induction ids arbitrary: m)
  case (Cons i ids)
  then obtain b m1 where d: "delete_job env m i = Some (b, m1)" and rest: "remove_ids env m1 ids = Some m'"
    by (auto simp: bind_eq_Some_conv)
  from d Cons.prems(2) have "mon_installed inst m1"
    by (auto simp: delete_job_def bind_eq_Some_conv dest: UnregisterJob_installed [OF keeps])
  from Cons.IH [OF rest this] show ?case .
qed simp

lemma ServeJobSubmission_installed:
  assumes keeps: "keeps_rules inst env" and "ServeJobSubmission env uninit iterate now p msg = Inr (b, msg', p')"
    and "mon_installed inst (pl_monitor p)"
  shows "mon_installed inst (pl_monitor p')"
proof -
  let ?m = "pl_monitor p" and ?files = "rr_files (resourcerequest (request msg))"
  obtain ok osts w1 where t: "tryComputeOstSetOfRequest (env_lustre env) (mon_world ?m) ?files {} = (ok, osts, w1)"
    by (cases "tryComputeOstSetOfRequest (env_lustre env) (mon_world ?m) ?files {}") auto
  have "mon_installed inst (?m\<lparr>mon_world := w1\<rparr>)"
    using assms(3) rules_installed_mono [of inst _ "mon_world ?m" w1] tryCompute_keeps [OF keeps t]
    by (simp add: mon_installed_def)
  with assms(2,3) t show ?thesis
    by (auto simp: ServeJobSubmission_def Let_def split: if_splits option.splits
        dest: Static_ScheduleJob_installed)
qed

lemma ProcessMessage_installed:
  assumes "keeps_rules inst (sur_env sur)" and "ProcessMessage sur p msg = Inr (b, msg', p')"
    and "mon_installed inst (pl_monitor p)"
  shows "mon_installed inst (pl_monitor p')"
  using assms(2,3) remove_ids_installed [OF assms(1)] ServeJobSubmission_installed [OF assms(1)]
  by (cases "req_type (request msg)") (auto simp: ProcessMessage_def ServeJobRemove_def ServeListJobs_def Let_def
      split: option.splits)

lemma Serve_turn_installed:
  assumes "keeps_rules inst (sur_env sur)" and "Serve_turn sur wire (p, z) = Inr (p', z')"
    and "mon_installed inst (pl_monitor p)"
  shows "mon_installed inst (pl_monitor p')"
  using assms(2,3) by (auto simp: Serve_turn_def split: option.splits prod.splits sum.splits if_splits
      dest: ProcessMessage_installed [OF assms(1)])

fun activity_env :: "'w activity \<Rightarrow> 'w Env" where
  "activity_env (Turn sur) = sur_env sur"
| "activity_env (Pass env clock) = env"

lemma server_runs_installed:
  assumes "\<forall>a\<in>set acts. keeps_rules inst (activity_env a)"
  shows "server_runs wire acts (p, z) = Inr (p', z') \<Longrightarrow> mon_installed inst (pl_monitor p) \<Longrightarrow>
    mon_installed inst (pl_monitor p')"
  using assms
proof (induction acts arbitrary: p z)
  case (Cons a acts)
  show ?case
  proof (cases a)
    case (Turn sur)
    with Cons.prems(1) obtain p1 z1 where t: "Serve_turn sur wire (p, z) = Inr (p1, z1)"
      and rest: "server_runs wire acts (p1, z1) = Inr (p', z')"
      by (cases "Serve_turn sur wire (p, z)") auto
    have "keeps_rules inst (sur_env sur)" using Cons.prems(3) Turn by simp
    from Serve_turn_installed [OF this t Cons.prems(2)] Cons.IH [OF rest] Cons.prems(3) show ?thesis by simp
  next
    case (Pass env clock)
    with Cons.prems(1) obtain m where d: "drain_ready env clock 0 (pl_monitor p) = Some m"
      and rest: "server_runs wire acts (p\<lparr>pl_monitor := m\<rparr>, z) = Inr (p', z')"
      by (auto split: option.splits)
    have "keeps_rules inst env" using Cons.prems(3) Pass by simp
    from drain_ready_installed [OF this d Cons.prems(2)] Cons.IH [OF rest] Cons.prems(3) show ?thesis by simp
  qed
qed simp

text \<open>A server that starts has no rules.\<close>

lemma server_start_installed:
  assumes "server_start gflags lib env json read_file thread argv w z = Serving (s, z1)"
  shows "mon_installed inst (pl_monitor (srv_planner s))"
proof -
  obtain flags argv' where flags: "gflags default_ServerFlags argv = Some (flags, argv')"
    using assms by (auto simp: server_start_def split: option.splits)
  let ?p = "Planner_Init env json read_file thread (Planner_new [] (server_ost_limits flags) w)"
  obtain p where p: "?p = Inr (True, p)"
    using assms flags by (cases ?p) (auto simp: server_start_def Let_def split: if_splits prod.splits)
  let ?s = "Server_new (server_ip flags @ '':'' @ server_port flags) [] p"
  obtain ok where s: "Server_Init lib ?s z = Inr ((ok, s), z1)"
    using assms flags p by (cases "Server_Init lib ?s z") (auto simp: server_start_def Let_def)
  have "srv_planner s = p" using Server_Init_shape(1) [OF s] by (simp add: Server_new_def)
  moreover have "mjobs (pl_monitor p) = Map.empty" "mon_inv (pl_monitor p)"
    using Planner_Init_inv [OF p] by simp_all
  then have "mrules (pl_monitor p) k = None" for k
    using rules_iff_active [OF mon_invD(3), of "pl_monitor p" k] by (auto simp: is_active_def)
  then have "mon_installed inst (pl_monitor p)" by (simp add: mon_installed_def rules_installed_def)
  ultimately show ?thesis by simp
qed

text \<open>What the invariants say together of an active job.\<close>

lemma active_job_installed:
  assumes "mon_inv m" and "mon_installed inst m" and "mjobs m k = Some j" and "job_state j = ACTIVE"
  shows "\<exists>d. mrules m k = Some d \<and> rules_at (ost_ips d) (lustre_tbf_rule_postfix @ k) \<subseteq> inst (mon_world m)"
proof -
  have "is_active m k" using assms(3,4) by (simp add: is_active_def)
  then obtain d where "mrules m k = Some d" using rules_iff_active [OF mon_invD(3) [OF assms(1)], of k] by auto
  moreover from this assms(2) have "rule_name d = lustre_tbf_rule_postfix @ k"
    "rules_at (ost_ips d) (rule_name d) \<subseteq> inst (mon_world m)"
    unfolding mon_installed_def rules_installed_def by blast+
  ultimately show ?thesis by auto
qed

end
