(* ===== verification/JobLife.thy ===== *)
theory JobLife
  imports InstalledRules
begin

text \<open>
  A reservation from its acceptance to its end when nothing else is in the queue: the passes of
  the monitor that start and stop its job, and the rules on the OSSs meanwhile.
\<close>

lemma Pop_single: "Pop [x] = (Some x, [])"
  by (simp add: Pop_def)

lemma ready_single: "job_priority_queue m = [x] \<Longrightarrow> isThereAReadyJob m now \<longleftrightarrow> time_of_event x < now"
  by (simp add: isThereAReadyJob_def Peek_def)

lemma ready_empty: "job_priority_queue m = [] \<Longrightarrow> \<not> isThereAReadyJob m now"
  by (simp add: isThereAReadyJob_def Peek_def)

text \<open>A pass in which the only event is handled.\<close>

lemma drain_single:
  assumes "mon_inv m" and "job_priority_queue m = [x]" and "time_of_event x < clock n"
    and "Handle env (m\<lparr>job_priority_queue := []\<rparr>) (wi_jobid x) (eventType x) = Some m'"
    and "\<not> isThereAReadyJob m' (clock (Suc n))"
  shows "drain_ready env clock n m = Some m'" and "mon_inv m'"
proof -
  have pop: "Pop (job_priority_queue m) = (Some x, [])" using assms(2) by (simp add: Pop_single)
  show "drain_ready env clock n m = Some m'"
    using assms(3-5) ready_single [OF assms(2)] pop
    by (simp add: drain_ready.simps [of env clock n m] drain_ready.simps [of env clock "Suc n" m'])
  show "mon_inv m'" using Handle_inv [OF assms(1) pop, of env] assms(4) by auto
qed

lemma start_pass:
  assumes inv: "mon_inv m" and queue: "job_priority_queue m = [start_item k j]"
    and j: "mjobs m k = Some j"
    and set: "SetRules (env_lustre env) (env_setter env) (mon_rules m) (mon_world m) (job_osts j) k
      (job_throughput j) = (True, rm, w)"
    and clock: "job_tstart j < clock n" "clock (Suc n) \<le> job_tend j"
  shows "\<exists>m'. drain_ready env clock n m = Some m' \<and> mon_inv m' \<and>
    mjobs m' = (mjobs m)(k \<mapsto> j\<lparr>job_state := ACTIVE\<rparr>) \<and> job_priority_queue m' = [stop_item k j] \<and>
    mon_rules m' = rm \<and> mon_world m' = w"
proof -
  let ?x = "start_item k j"
  have pop: "Pop (job_priority_queue m) = (Some ?x, [])" using queue by (simp add: Pop_single)
  have x: "wi_jobid ?x = k" "eventType ?x = JOBSTART" "time_of_event ?x = job_tstart j"
    by (simp_all add: start_item_def)
  from Handle_start_effect [OF inv pop x(2), of env] j set x(1) obtain m' where m':
    "Handle env (m\<lparr>job_priority_queue := []\<rparr>) (wi_jobid ?x) (eventType ?x) = Some m'"
    "mon_rules m' = rm" "mon_world m' = w" "mjobs m' = (mjobs m)(k \<mapsto> j\<lparr>job_state := ACTIVE\<rparr>)"
    "mitems m' = {#stop_item k j#}"
    by auto
  then have q: "job_priority_queue m' = [stop_item k j]" by simp
  have "\<not> isThereAReadyJob m' (clock (Suc n))"
    using ready_single [OF q] clock(2) by (simp add: stop_item_def)
  moreover have "time_of_event ?x < clock n" using clock(1) x(3) by simp
  ultimately show ?thesis using drain_single [OF inv queue, of clock n env m'] m' q by auto
qed

lemma stop_pass:
  assumes inv: "mon_inv m" and queue: "job_priority_queue m = [stop_item k j]"
    and remove: "RemoveRules (env_setter env) (mon_rules m) (mon_world m) k = (b, rm, w)"
    and clock: "job_tend j < clock n"
  shows "\<exists>m'. drain_ready env clock n m = Some m' \<and> mon_inv m' \<and>
    mjobs m' = (mjobs m)(k := None) \<and> job_priority_queue m' = [] \<and> mon_rules m' = rm \<and> mon_world m' = w"
proof -
  let ?x = "stop_item k j"
  have pop: "Pop (job_priority_queue m) = (Some ?x, [])" using queue by (simp add: Pop_single)
  have x: "wi_jobid ?x = k" "eventType ?x = JOBSTOP" "time_of_event ?x = job_tend j"
    by (simp_all add: stop_item_def)
  from Handle_stop_effect [OF inv pop x(2), of env b rm w] remove x(1) obtain m' where m':
    "Handle env (m\<lparr>job_priority_queue := []\<rparr>) (wi_jobid ?x) (eventType ?x) = Some m'"
    "mjobs m' = (mjobs m)(k := None)" "mon_rules m' = rm" "mon_world m' = w" "job_priority_queue m' = []"
    by auto
  have "time_of_event ?x < clock n" using clock x(3) by simp
  with drain_single [OF inv queue, of clock n env m'] ready_empty [OF m'(5)] m' show ?thesis by auto
qed

lemma reservation_course:
  assumes inv: "mon_inv m" and queue: "job_priority_queue m = [start_item k j]"
    and j: "mjobs m k = Some j"
    and owes: "installs (env_setter env) inst" "only_queries (env_lustre env) inst"
    and set: "SetRules (env_lustre env) (env_setter env) (mon_rules m) (mon_world m) (job_osts j) k
      (job_throughput j) = (True, rm, w)"
    and new: "\<forall>ip. (ip, lustre_tbf_rule_postfix @ k) \<notin> inst (mon_world m)"
    and clock: "job_tstart j < clock1 0" "clock1 1 \<le> job_tend j" "job_tend j < clock2 0"
  shows "\<exists>m1 m2 d. drain_ready env clock1 0 m = Some m1 \<and>
    mjobs m1 = (mjobs m)(k \<mapsto> j\<lparr>job_state := ACTIVE\<rparr>) \<and> mrules m1 = (mrules m)(k \<mapsto> d) \<and>
    inst (mon_world m1) = inst (mon_world m) \<union> rules_at (ost_ips d) (rule_name d) \<and>
    drain_ready env clock2 0 m1 = Some m2 \<and> mon_inv m2 \<and> mjobs m2 = (mjobs m)(k := None) \<and>
    mrules m2 = mrules m \<and> job_priority_queue m2 = [] \<and> inst (mon_world m2) = inst (mon_world m)"
proof -
  obtain m1 where m1: "drain_ready env clock1 0 m = Some m1" "mon_inv m1"
    "mjobs m1 = (mjobs m)(k \<mapsto> j\<lparr>job_state := ACTIVE\<rparr>)" "job_priority_queue m1 = [stop_item k j]"
    "mon_rules m1 = rm" "mon_world m1 = w"
    using start_pass [OF inv queue j set, of clock1 0] clock by auto
  obtain d where d: "active_rules rm k = Some d" "inst w = inst (mon_world m) \<union> rules_at (ost_ips d) (rule_name d)"
    using SetRules_success [OF owes set] by blast
  have rules: "active_rules rm = (mrules m)(k \<mapsto> d)"
    using SetRules_active [OF set] d(1) by auto
  obtain rm2 w2 where r: "RemoveRules (env_setter env) rm w k = (True, rm2, w2)"
    "active_rules rm2 = mrules m" "inst w2 = inst (mon_world m)"
    using set_then_remove [OF owes set new] by blast
  obtain m2 where "drain_ready env clock2 0 m1 = Some m2" "mon_inv m2" "mjobs m2 = (mjobs m1)(k := None)"
    "job_priority_queue m2 = []" "mon_rules m2 = rm2" "mon_world m2 = w2"
    using stop_pass [OF m1(2,4), of env True rm2 w2 clock2 0] r(1) m1(5,6) clock(3) by auto
  with m1 d(2) rules r(2,3) show ?thesis by (intro exI [of _ m1] exI [of _ m2] exI [of _ d]) simp
qed

end
