(* ===== verification/AsyncRules.thy ===== *)
theory AsyncRules
  imports RuleManager
begin

text \<open>
  \<open>SetRulesAsync\<close> of \<open>src/src/common/RuleManager.cpp\<close> with its tasks run in any order: every
  \<open>SetRule\<close> is a task of its own, the caller waits for the results one after the other and
  starts a clean-up task at each failure, while later tasks may still run. A call of the rule
  setter is one step. \<open>SetRulesAsync\<close> in theory \<open>RuleManager\<close> is one of the orders.
\<close>

record 'w tasks =
  set_results :: "bool option list" \<comment> \<open>\<open>result_futures\<close>, \<open>None\<close> while the task runs\<close>
  collected :: nat \<comment> \<open>the \<open>index\<close> of the second loop\<close>
  cleanups :: "(string \<times> bool) list" \<comment> \<open>\<open>cleanup_tasks\<close>, with whether the task has ended\<close>
  task_world :: 'w

inductive async_step ::
  "'w RuleSetter \<Rightarrow> (string \<times> u32) list \<Rightarrow> string \<Rightarrow> string \<Rightarrow> 'w tasks \<Rightarrow> 'w tasks \<Rightarrow> bool"
  for setter es job rule where
  set_task: "i < length es \<Longrightarrow> set_results s ! i = None \<Longrightarrow>
    SetRule setter (task_world s) (fst (es ! i)) job rule (snd (es ! i)) = (ok, w') \<Longrightarrow>
    async_step setter es job rule s
      (s\<lparr>set_results := (set_results s)[i := Some ok], task_world := w'\<rparr>)"
| collect: "collected s < length es \<Longrightarrow> set_results s ! collected s = Some ok \<Longrightarrow>
    async_step setter es job rule s
      (s\<lparr>collected := Suc (collected s),
         cleanups := (if ok then cleanups s else cleanups s @ [(fst (es ! collected s), False)])\<rparr>)"
| remove_task: "j < length (cleanups s) \<Longrightarrow> cleanups s ! j = (ip, False) \<Longrightarrow>
    RemoveRule setter (task_world s) ip rule job = (ok, w') \<Longrightarrow>
    async_step setter es job rule s
      (s\<lparr>cleanups := (cleanups s)[j := (ip, True)], task_world := w'\<rparr>)"

definition async_start :: "(string \<times> u32) list \<Rightarrow> 'w \<Rightarrow> 'w tasks" where
  "async_start es w =
     \<lparr>set_results = map (\<lambda>e. None) es, collected = 0, cleanups = [], task_world = w\<rparr>"

text \<open>The call returns when all clean-up tasks have ended; its result.\<close>

definition async_done :: "(string \<times> u32) list \<Rightarrow> 'w tasks \<Rightarrow> bool" where
  "async_done es s \<longleftrightarrow> collected s = length es \<and> list_all snd (cleanups s)"

definition async_result :: "'w tasks \<Rightarrow> bool" where
  "async_result s \<longleftrightarrow> cleanups s = []"

section \<open>What every order keeps\<close>

text \<open>
  The rule is on an OSS exactly when its \<open>SetRule\<close> has succeeded; a clean-up is for an OSS
  whose \<open>SetRule\<close> has failed, and the caller has one for each failure it has seen.
\<close>

definition async_inv ::
  "('w \<Rightarrow> (string \<times> string) set) \<Rightarrow> (string \<times> u32) list \<Rightarrow> string \<Rightarrow> 'w \<Rightarrow> 'w tasks \<Rightarrow> bool" where
  "async_inv inst es rule w0 s \<longleftrightarrow>
     length (set_results s) = length es \<and> collected s \<le> length es \<and>
     (\<forall>i<collected s. set_results s ! i \<noteq> None) \<and>
     map fst (cleanups s) =
       map (\<lambda>i. fst (es ! i)) (filter (\<lambda>i. set_results s ! i = Some False) [0..<collected s]) \<and>
     inst (task_world s) = inst w0 \<union>
       {(fst (es ! i), rule) | i. i < length es \<and> set_results s ! i = Some True}"

lemma async_inv_start: "async_inv inst es rule w (async_start es w)"
  by (auto simp: async_inv_def async_start_def)

lemma async_step_inv:
  assumes inst: "installs setter inst" and dist: "distinct (map fst es)"
    and new: "\<forall>e \<in> set es. (fst e, rule) \<notin> inst w0"
    and step: "async_step setter es job rule s s'" and inv: "async_inv inst es rule w0 s"
  shows "async_inv inst es rule w0 s'"
  using step
proof cases
  case (set_task i ok w')
  have len: "length (set_results s) = length es" using inv by (simp add: async_inv_def)
  have i: "\<not> i < collected s" using inv set_task(3) unfolding async_inv_def by metis
  have "inst w' = (if ok then insert (fst (es ! i), rule) (inst (task_world s)) else inst (task_world s))"
    using inst set_task(4) unfolding installs_def by blast
  moreover have "{(fst (es ! k), rule) | k. k < length es \<and> (set_results s)[i := Some ok] ! k = Some True} =
      (if ok then {(fst (es ! i), rule)} else {}) \<union>
      {(fst (es ! k), rule) | k. k < length es \<and> set_results s ! k = Some True}"
  proof -
    have "(set_results s)[i := Some ok] ! k = Some True \<longleftrightarrow> k = i \<and> ok \<or> set_results s ! k = Some True" for k
      using set_task(2,3) len by (cases "k = i") auto
    with set_task(2) show ?thesis by (cases ok) auto
  qed
  moreover have "filter (\<lambda>k. (set_results s)[i := Some ok] ! k = Some False) [0..<collected s] =
      filter (\<lambda>k. set_results s ! k = Some False) [0..<collected s]"
    using i by (intro filter_cong) auto
  moreover have "\<forall>k<collected s. (set_results s)[i := Some ok] ! k \<noteq> None" using inv i
    by (auto simp: async_inv_def nth_list_update)
  ultimately show ?thesis using inv set_task(1) by (auto simp: async_inv_def)
next
  case (collect ok)
  then show ?thesis using inv by (auto simp: async_inv_def less_Suc_eq)
next
  case (remove_task j ip ok w')
  have j: "map fst (cleanups s) ! j = ip" using remove_task(2,3) by simp
  then have "ip \<in> set (map fst (cleanups s))" using remove_task(2) by (metis length_map nth_mem)
  then have "ip \<in> set (map (\<lambda>i. fst (es ! i)) (filter (\<lambda>i. set_results s ! i = Some False) [0..<collected s]))"
    using inv unfolding async_inv_def by metis
  then obtain k where k: "k < collected s" "set_results s ! k = Some False" "ip = fst (es ! k)"
    by auto
  have kl: "k < length es" using k(1) inv by (simp add: async_inv_def)
  have "(ip, rule) \<notin> inst (task_world s)"
  proof
    assume "(ip, rule) \<in> inst (task_world s)"
    moreover have "(ip, rule) \<notin> inst w0" using new k(3) kl by simp
    ultimately obtain i where i: "i < length es" "set_results s ! i = Some True" "fst (es ! i) = ip"
      using inv by (auto simp: async_inv_def)
    with k(3) kl dist have "i = k" by (metis length_map nth_eq_iff_index_eq nth_map)
    with i(2) k(2) show False by simp
  qed
  moreover have "inst w' = inst (task_world s) - {(ip, rule)}"
    using inst remove_task(4) unfolding installs_def by blast
  ultimately have "inst w' = inst (task_world s)" by blast
  moreover have "map fst ((cleanups s)[j := (ip, True)]) = map fst (cleanups s)"
    using list_update_id [of "map fst (cleanups s)" j] j by (simp add: map_update)
  ultimately show ?thesis using inv remove_task(1) by (simp add: async_inv_def)
qed

lemma async_run_inv:
  assumes "installs setter inst" and "distinct (map fst es)" and "\<forall>e \<in> set es. (fst e, rule) \<notin> inst w0"
    and "(async_step setter es job rule)\<^sup>*\<^sup>* (async_start es w0) s"
  shows "async_inv inst es rule w0 s"
  using assms(4)
proof (induction rule: rtranclp_induct)
  case (step s s')
  from async_step_inv [OF assms(1-3) step.hyps(2) step.IH] show ?case .
qed (rule async_inv_start)

text \<open>What holds when the call returns.\<close>

lemma async_done_result:
  assumes inv: "async_inv inst es rule w0 s" and "async_done es s"
  shows "async_result s \<longleftrightarrow> (\<forall>i<length es. set_results s ! i = Some True)"
    and "inst (task_world s) = inst w0 \<union>
      {(fst (es ! i), rule) | i. i < length es \<and> set_results s ! i = Some True}"
proof -
  have c: "collected s = length es" using assms(2) by (simp add: async_done_def)
  have "async_result s \<longleftrightarrow> map fst (cleanups s) = []" by (simp add: async_result_def)
  also have "\<dots> \<longleftrightarrow> (\<forall>i<length es. set_results s ! i \<noteq> Some False)"
    using inv c by (auto simp: async_inv_def filter_empty_conv)
  also have "\<dots> \<longleftrightarrow> (\<forall>i<length es. set_results s ! i = Some True)"
    using inv c by (auto simp: async_inv_def) (metis (full_types))
  finally show "async_result s \<longleftrightarrow> (\<forall>i<length es. set_results s ! i = Some True)" .
  show "inst (task_world s) = inst w0 \<union>
      {(fst (es ! i), rule) | i. i < length es \<and> set_results s ! i = Some True}"
    using inv by (simp add: async_inv_def)
qed

section \<open>The sequential function is one order\<close>

lemma run_set_tasks_steps:
  assumes "run_set_tasks setter w (drop k es) job rule = (oks, w')" and "k \<le> length es"
    and "length pre = k"
  shows "(async_step setter es job rule)\<^sup>*\<^sup>*
      \<lparr>set_results = pre @ map (\<lambda>e. None) (drop k es), collected = 0, cleanups = [], task_world = w\<rparr>
      \<lparr>set_results = pre @ map Some oks, collected = 0, cleanups = [], task_world = w'\<rparr>
    \<and> length oks = length es - k"
  using assms
proof (induction "length es - k" arbitrary: k w oks pre)
  case 0
  then show ?case by simp
next
  case (Suc n)
  then have k: "k < length es" by simp
  then have d: "drop k es = es ! k # drop (Suc k) es" by (simp add: Cons_nth_drop_Suc)
  obtain ok w1 where t: "SetRule setter w (fst (es ! k)) job rule (snd (es ! k)) = (ok, w1)"
    by (cases "SetRule setter w (fst (es ! k)) job rule (snd (es ! k))")
  obtain oks1 where r: "run_set_tasks setter w1 (drop (Suc k) es) job rule = (oks1, w')" "oks = ok # oks1"
    using Suc.prems(1) d t by (cases "es ! k") (auto split: prod.splits)
  let ?s = "\<lparr>set_results = pre @ map (\<lambda>e. None) (drop k es), collected = 0, cleanups = [], task_world = w\<rparr>"
  have "async_step setter es job rule ?s
      (?s\<lparr>set_results := (set_results ?s)[k := Some ok], task_world := w1\<rparr>)"
    using k t Suc.prems(3) by (intro async_step.set_task) (simp_all add: nth_append)
  moreover have "(pre @ map (\<lambda>e. None) (drop k es))[k := Some ok] =
      (pre @ [Some ok]) @ map (\<lambda>e. None) (drop (Suc k) es)"
    using Suc.prems(3) d by (simp add: list_update_append)
  moreover have "n = length es - Suc k" using Suc.hyps(2) by simp
  note Suc.hyps(1) [OF this r(1), of "pre @ [Some ok]"]
  ultimately show ?case
    using k r(2) Suc.prems(3) by (auto intro: converse_rtranclp_into_rtranclp)
qed

lemma collect_steps:
  assumes "length oks = length es" and "n \<le> length es"
  shows "(async_step setter es job rule)\<^sup>*\<^sup>*
      \<lparr>set_results = map Some oks, collected = 0, cleanups = [], task_world = w\<rparr>
      \<lparr>set_results = map Some oks, collected = n,
        cleanups = map (\<lambda>e. (fst (fst e), False)) (filter (\<lambda>(e, ok). \<not> ok) (zip (take n es) (take n oks))),
        task_world = w\<rparr>"
  using assms(2)
proof (induction n)
  case (Suc n)
  then have n: "n < length es" by simp
  let ?s = "\<lambda>n. \<lparr>set_results = map Some oks, collected = n,
      cleanups = map (\<lambda>e. (fst (fst e), False)) (filter (\<lambda>(e, ok). \<not> ok) (zip (take n es) (take n oks))),
      task_world = w\<rparr>"
  have "zip (take (Suc n) es) (take (Suc n) oks) = zip (take n es) (take n oks) @ [(es ! n, oks ! n)]"
    using n assms(1) by (simp add: take_Suc_conv_app_nth)
  then have "?s (Suc n) = (?s n)\<lparr>collected := Suc (collected (?s n)),
      cleanups := (if oks ! n then cleanups (?s n) else cleanups (?s n) @ [(fst (es ! collected (?s n)), False)])\<rparr>"
    by simp
  moreover have "async_step setter es job rule (?s n) ((?s n)\<lparr>collected := Suc (collected (?s n)),
      cleanups := (if oks ! n then cleanups (?s n) else cleanups (?s n) @ [(fst (es ! collected (?s n)), False)])\<rparr>)"
    using n assms(1) by (intro async_step.collect) simp_all
  ultimately have "async_step setter es job rule (?s n) (?s (Suc n))" by (simp only:)
  with Suc n show ?case by simp
qed simp

lemma run_remove_tasks_steps:
  "(async_step setter es job rule)\<^sup>*\<^sup>*
      \<lparr>set_results = rs, collected = n, cleanups = map (\<lambda>ip. (ip, True)) done' @ map (\<lambda>ip. (ip, False)) ips,
        task_world = w\<rparr>
      \<lparr>set_results = rs, collected = n, cleanups = map (\<lambda>ip. (ip, True)) (done' @ ips),
        task_world = run_remove_tasks setter w ips rule job\<rparr>"
proof (induction ips arbitrary: done' w)
  case (Cons ip ips)
  obtain ok w1 where r: "RemoveRule setter w ip rule job = (ok, w1)"
    by (cases "RemoveRule setter w ip rule job")
  let ?s = "\<lparr>set_results = rs, collected = n,
      cleanups = map (\<lambda>ip. (ip, True)) done' @ map (\<lambda>ip. (ip, False)) (ip # ips), task_world = w\<rparr>"
  have "async_step setter es job rule ?s
      (?s\<lparr>cleanups := (cleanups ?s)[length done' := (ip, True)], task_world := w1\<rparr>)"
    using r by (intro async_step.remove_task) (simp_all add: nth_append)
  with Cons.IH [of "done' @ [ip]" w1] r show ?case
    by (auto simp: list_update_append intro: converse_rtranclp_into_rtranclp)
qed simp

lemma SetRulesAsync_is_a_run:
  assumes "SetRulesAsync setter w es job rule = (ok, w')"
  shows "\<exists>s. (async_step setter es job rule)\<^sup>*\<^sup>* (async_start es w) s \<and> async_done es s \<and>
    async_result s = ok \<and> task_world s = w'"
proof -
  obtain oks w1 where r: "run_set_tasks setter w es job rule = (oks, w1)"
    by (cases "run_set_tasks setter w es job rule")
  let ?failed = "map (fst \<circ> fst) (filter (\<lambda>(e, ok). \<not> ok) (zip es oks))"
  let ?s = "\<lparr>set_results = map Some oks, collected = length es, cleanups = map (\<lambda>ip. (ip, True)) ?failed,
    task_world = run_remove_tasks setter w1 ?failed rule job\<rparr>"
  have set: "(async_step setter es job rule)\<^sup>*\<^sup>* (async_start es w)
      \<lparr>set_results = map Some oks, collected = 0, cleanups = [], task_world = w1\<rparr>"
    and len: "length oks = length es"
    using run_set_tasks_steps [of setter w 0 es job rule oks w1 "[]"] r by (simp_all add: async_start_def)
  note set
  also have "(async_step setter es job rule)\<^sup>*\<^sup>*
      \<lparr>set_results = map Some oks, collected = 0, cleanups = [], task_world = w1\<rparr>
      \<lparr>set_results = map Some oks, collected = length es,
        cleanups = map (\<lambda>ip. (ip, False)) ?failed, task_world = w1\<rparr>"
    using collect_steps [OF len le_refl, of setter job rule w1] len by (simp add: comp_def)
  also have "(async_step setter es job rule)\<^sup>*\<^sup>*
      \<lparr>set_results = map Some oks, collected = length es,
        cleanups = map (\<lambda>ip. (ip, False)) ?failed, task_world = w1\<rparr> ?s"
    using run_remove_tasks_steps [of setter es job rule "map Some oks" "length es" "[]" ?failed w1] by simp
  finally have "(async_step setter es job rule)\<^sup>*\<^sup>* (async_start es w) ?s" .
  moreover have "async_done es ?s" by (simp add: async_done_def list_all_iff)
  moreover have "async_result ?s = ok" "task_world ?s = w'"
    using assms r by (auto simp: async_result_def SetRulesAsync_def Let_def)
  ultimately show ?thesis by blast
qed

section \<open>No order gets stuck, and every order ends\<close>

definition tasks_left :: "(string \<times> u32) list \<Rightarrow> 'w tasks \<Rightarrow> nat" where
  "tasks_left es s = count_list (set_results s) None + 2 * (length es - collected s) +
     count_list (map snd (cleanups s)) False"

lemma count_list_update:
  "i < length xs \<Longrightarrow> xs ! i = x \<Longrightarrow> y \<noteq> x \<Longrightarrow> Suc (count_list (xs[i := y]) x) = count_list xs x"
  by (induction xs arbitrary: i) (auto split: nat.splits simp: nth_Cons)

lemma async_step_decreases:
  assumes "async_step setter es job rule s s'" and "length (set_results s) = length es"
  shows "tasks_left es s' < tasks_left es s \<and> length (set_results s') = length es"
  using assms(1)
proof cases
  case (set_task i ok w')
  then show ?thesis
    using count_list_update [of i "set_results s" None "Some ok"] assms(2) by (simp add: tasks_left_def)
next
  case (collect ok)
  then show ?thesis using assms(2) by (auto simp: tasks_left_def)
next
  case (remove_task j ip ok w')
  then show ?thesis
    using count_list_update [of j "map snd (cleanups s)" False True] assms(2)
    by (simp add: tasks_left_def map_update)
qed

lemma async_progress:
  assumes "length (set_results s) = length es" and "collected s \<le> length es" and "\<not> async_done es s"
  shows "\<exists>s'. async_step setter es job rule s s'"
proof (cases "collected s < length es")
  case True
  show ?thesis
  proof (cases "set_results s ! collected s")
    case None
    obtain ok w' where "SetRule setter (task_world s) (fst (es ! collected s)) job rule (snd (es ! collected s)) = (ok, w')"
      by (cases "SetRule setter (task_world s) (fst (es ! collected s)) job rule (snd (es ! collected s))")
    from async_step.set_task [OF True None this] show ?thesis by blast
  next
    case (Some ok)
    from async_step.collect [OF True Some] show ?thesis by blast
  qed
next
  case False
  with assms have "\<not> list_all snd (cleanups s)" by (simp add: async_done_def)
  then obtain j where j: "j < length (cleanups s)" "\<not> snd (cleanups s ! j)"
    by (auto simp: list_all_length)
  obtain ok w' where r: "RemoveRule setter (task_world s) (fst (cleanups s ! j)) rule job = (ok, w')"
    by (cases "RemoveRule setter (task_world s) (fst (cleanups s ! j)) rule job")
  have "cleanups s ! j = (fst (cleanups s ! j), False)" using j(2) by (cases "cleanups s ! j") auto
  from async_step.remove_task [OF j(1) this r] show ?thesis by blast
qed

lemma async_run_length:
  "(async_step setter es job rule ^^ n) (async_start es w) s \<Longrightarrow>
     n + tasks_left es s \<le> 3 * length es \<and> length (set_results s) = length es"
proof (induction n arbitrary: s)
  case 0
  have "count_list (map (\<lambda>e. None :: bool option) es) None = length es" by (induction es) auto
  with 0 show ?case by (auto simp: async_start_def tasks_left_def)
next
  case (Suc n)
  then obtain u where u: "(async_step setter es job rule ^^ n) (async_start es w) u"
    "async_step setter es job rule u s" by auto
  from Suc.IH [OF u(1)] async_step_decreases [OF u(2)] show ?case by auto
qed

end
