(* ===== verification/MonitorThreads.thy ===== *)
theory MonitorThreads
  imports MonitorInvariant
begin

text \<open>
  The two threads of the server, interleaved. \<open>src/src/common/JobMonitor.cpp\<close> runs its
  monitor thread beside the thread that serves requests; each step below is one section that
  a mutex makes atomic (a method of the schedule, an access to the queue, an access to the
  in-flight set) or one call of the rule manager, which has no mutex. The monitor thread's
  program counter says what it does next and holds the locals it still needs:
  \<open>Monitor\<close> (\<open>MEnter\<close> to \<open>MPopped\<close>, \<open>MLeave\<close>), \<open>Handle\<close> (\<open>MSwitch\<close>, \<open>MErase\<close>, \<open>MUnblock\<close>),
  \<open>StartJob\<close> (\<open>MRate\<close> to \<open>MPush\<close>) and \<open>StopJob\<close> (\<open>MRemoveRules\<close>, \<open>MFinish\<close>). The other
  thread adds and registers a job (\<open>ScheduleJob\<close>), unregisters and removes one
  (\<open>ServeJobRemove\<close>), or tears the monitor down.
\<close>

datatype mon_pc = MEnter | MOuter | MTest | MPopped string JobEvent | MSwitch string JobEvent
  | MRate string | MOsts string u32 | MSet string u32 "string list" | MActivate string
  | MEnd string | MPush string time_point
  | MRemoveRules string | MFinish string | MErase string | MUnblock string | MLeave | MDone

datatype srv_pc = SIdle | SAdd Job | SRegister Job
  | SBlock string | SDequeue string | SStatus string | SStopStatus string | SRemoveRules string
  | SFinish string | SUnblock string | SErase string
  | STearDown | STearWait | SJoin | SDown

type_synonym 'w threads = "mon_pc \<times> srv_pc \<times> 'w Monitor"

section \<open>Steps\<close>

text \<open>\<open>None\<close>: the thread cannot step, because it waits or because the step is undefined.\<close>

definition pop_or_wait :: "time_point \<Rightarrow> 'w Monitor \<Rightarrow> (mon_pc \<times> 'w Monitor) option" where
  "pop_or_wait now m =
     (if isThereAReadyJob m now then
        (case Pop (job_priority_queue m) of
           (None, q) \<Rightarrow> None
         | (Some x, q) \<Rightarrow> Some (MPopped (wi_jobid x) (eventType x), m\<lparr>job_priority_queue := q\<rparr>))
      else Some (MOuter, m))"

fun mon_step ::
  "'w Env \<Rightarrow> time_point \<Rightarrow> mon_pc \<Rightarrow> 'w Monitor \<Rightarrow> (mon_pc \<times> 'w Monitor) option" where
  "mon_step env now MEnter m = Some (MOuter, Monitor_enter m)"
| "mon_step env now MOuter m = Some (if monitor_thread_exit_flag m then MLeave else MTest, m)"
| "mon_step env now MTest m = pop_or_wait now m"
| "mon_step env now (MPopped k e) m = map_option (\<lambda>m1. (MSwitch k e, m1)) (BlockJob m k)"
| "mon_step env now (MSwitch k JOBSTART) m =
     map_option (\<lambda>(found, st). (if \<not> found \<or> st \<noteq> SCHEDULED then MUnblock k else MRate k, m))
       (GetJobStatus (mon_schedule m) k INITIALIZED)"
| "mon_step env now (MSwitch k JOBSTOP) m =
     map_option (\<lambda>(found, st). (if \<not> found \<or> st \<noteq> ACTIVE then MErase k else MRemoveRules k, m))
       (GetJobStatus (mon_schedule m) k INITIALIZED)"
| "mon_step env now (MRate k) m =
     map_option (\<lambda>(found, mbs). (if found then MOsts k mbs else MUnblock k, m))
       (GetJobThroughput (mon_schedule m) k 0)"
| "mon_step env now (MOsts k mbs) m =
     map_option (\<lambda>(found, osts). (MSet k mbs osts, m)) (GetJobOstIds (mon_schedule m) k [])"
| "mon_step env now (MSet k mbs osts) m =
     (case SetRules (env_lustre env) (env_setter env) (mon_rules m) (mon_world m) osts k mbs of
        (ok, rm, w) \<Rightarrow>
          Some (if ok then MActivate k else MUnblock k, m\<lparr>mon_rules := rm, mon_world := w\<rparr>))"
| "mon_step env now (MActivate k) m =
     map_option (\<lambda>(ok, s). (if ok then MEnd k else MUnblock k, m\<lparr>mon_schedule := s\<rparr>))
       (UpdateJob (mon_schedule m) k ACTIVE)"
| "mon_step env now (MEnd k) m =
     map_option (\<lambda>(ok, tend). (if ok then MPush k tend else MUnblock k, m))
       (GetJobEnd (mon_schedule m) k 0)"
| "mon_step env now (MPush k tend) m = Some (MUnblock k, push_item k tend JOBSTOP m)"
| "mon_step env now (MRemoveRules k) m =
     (case RemoveRules (env_setter env) (mon_rules m) (mon_world m) k of
        (removed, rm, w) \<Rightarrow> Some (MFinish k, m\<lparr>mon_rules := rm, mon_world := w\<rparr>))"
| "mon_step env now (MFinish k) m =
     map_option (\<lambda>(ok, s). (MErase k, m\<lparr>mon_schedule := s\<rparr>)) (UpdateJob (mon_schedule m) k DONE)"
| "mon_step env now (MErase k) m =
     map_option (\<lambda>(ok, s). (MUnblock k, m\<lparr>mon_schedule := s\<rparr>)) (RemoveJob (mon_schedule m) k)"
| "mon_step env now (MUnblock k) m = Some (MTest, UnblockJob m k)"
| "mon_step env now MLeave m = Some (MDone, Monitor_exit m)"
| "mon_step env now MDone m = None"

fun srv_step :: "'w Env \<Rightarrow> srv_pc \<Rightarrow> 'w Monitor \<Rightarrow> (srv_pc \<times> 'w Monitor) option" where
  "srv_step env SIdle m = None"
| "srv_step env (SAdd j) m =
     map_option (\<lambda>(ok, s). (if ok then SRegister j else SIdle, m\<lparr>mon_schedule := s\<rparr>))
       (AddJob (mon_schedule m) (job_id j) j (job_osts j))"
| "srv_step env (SRegister j) m = Some (SIdle, snd (RegisterJob m j))"
| "srv_step env (SBlock k) m = map_option (\<lambda>m1. (SDequeue k, m1)) (BlockJob m k)"
| "srv_step env (SDequeue k) m = Some (SStatus k, RemoveJobFromPrioQueue m (job_of_id k))"
| "srv_step env (SStatus k) m =
     map_option (\<lambda>(found, st). (if found \<and> st = ACTIVE then SStopStatus k else SUnblock k, m))
       (GetJobStatus (mon_schedule m) k INITIALIZED)"
| "srv_step env (SStopStatus k) m =
     map_option (\<lambda>(found, st). (if \<not> found \<or> st \<noteq> ACTIVE then SUnblock k else SRemoveRules k, m))
       (GetJobStatus (mon_schedule m) k INITIALIZED)"
| "srv_step env (SRemoveRules k) m =
     (case RemoveRules (env_setter env) (mon_rules m) (mon_world m) k of
        (removed, rm, w) \<Rightarrow> Some (SFinish k, m\<lparr>mon_rules := rm, mon_world := w\<rparr>))"
| "srv_step env (SFinish k) m =
     map_option (\<lambda>(ok, s). (SUnblock k, m\<lparr>mon_schedule := s\<rparr>)) (UpdateJob (mon_schedule m) k DONE)"
| "srv_step env (SUnblock k) m = Some (SErase k, UnblockJob m k)"
| "srv_step env (SErase k) m =
     map_option (\<lambda>(ok, s). (SIdle, m\<lparr>mon_schedule := s\<rparr>)) (RemoveJob (mon_schedule m) k)"
| "srv_step env STearDown m = Some (STearWait, TearDown_signal m)"
| "srv_step env STearWait m = (if TearDown_may_return m then Some (SJoin, m) else None)"
| "srv_step env SJoin m = None"
| "srv_step env SDown m = None"

inductive thread_step :: "'w Env \<Rightarrow> 'w threads \<Rightarrow> 'w threads \<Rightarrow> bool" for env where
  monitor: "mon_step env now mp m = Some (mp', m') \<Longrightarrow> thread_step env (mp, sp, m) (mp', sp, m')"
| server: "srv_step env sp m = Some (sp', m') \<Longrightarrow> thread_step env (mp, sp, m) (mp, sp', m')"
| submit: "job_state j = SCHEDULED \<Longrightarrow> thread_step env (mp, SIdle, m) (mp, SAdd j, m)"
| remove: "thread_step env (mp, SIdle, m) (mp, SBlock k, m)"
| tear_down: "thread_step env (mp, SIdle, m) (mp, STearDown, m)"
| join: "thread_step env (MDone, SJoin, m) (MDone, SDown, m)"

inductive_cases thread_stepE: "thread_step env (mp, sp, m) t"

inductive_simps thread_step_done: "thread_step env (MDone, SDown, m) t"

definition start_threads :: "'w \<Rightarrow> 'w threads" where
  "start_threads w = (MEnter, SIdle, (new_monitor empty_state empty_rules w)\<lparr>monitor_thread_started := True\<rparr>)"

definition reachable :: "'w Env \<Rightarrow> 'w \<Rightarrow> 'w threads \<Rightarrow> bool" where
  "reachable env w t \<longleftrightarrow> (thread_step env)\<^sup>*\<^sup>* (start_threads w) t"

section \<open>Who holds which job\<close>

fun mon_holds :: "mon_pc \<Rightarrow> string set" where
  "mon_holds (MSwitch k e) = {k}"
| "mon_holds (MRate k) = {k}"
| "mon_holds (MOsts k mbs) = {k}"
| "mon_holds (MSet k mbs osts) = {k}"
| "mon_holds (MActivate k) = {k}"
| "mon_holds (MEnd k) = {k}"
| "mon_holds (MPush k t) = {k}"
| "mon_holds (MRemoveRules k) = {k}"
| "mon_holds (MFinish k) = {k}"
| "mon_holds (MErase k) = {k}"
| "mon_holds (MUnblock k) = {k}"
| "mon_holds _ = {}"

fun srv_holds :: "srv_pc \<Rightarrow> string set" where
  "srv_holds (SDequeue k) = {k}"
| "srv_holds (SStatus k) = {k}"
| "srv_holds (SStopStatus k) = {k}"
| "srv_holds (SRemoveRules k) = {k}"
| "srv_holds (SFinish k) = {k}"
| "srv_holds (SUnblock k) = {k}"
| "srv_holds _ = {}"

definition thread_inv :: "'w threads \<Rightarrow> bool" where
  "thread_inv t = (case t of (mp, sp, m) \<Rightarrow>
     mwf m \<and> mon_holds mp \<union> srv_holds sp = in_flight_jobs m \<and>
     mon_holds mp \<inter> srv_holds sp = {} \<and>
     (monitor_thread_is_active m \<longrightarrow> mp \<noteq> MEnter \<and> mp \<noteq> MDone) \<and>
     (sp = SDown \<longrightarrow> mp = MDone))"

lemma wf_after:
  "wf_state s \<Longrightarrow> UpdateJob s k st = Some (ok, s') \<Longrightarrow> wf_state s'"
  "wf_state s \<Longrightarrow> RemoveJob s k = Some (ok, s') \<Longrightarrow> wf_state s'"
  "wf_state s \<Longrightarrow> AddJob s k j os = Some (ok, s') \<Longrightarrow> wf_state s'"
proof -
  show "wf_state s \<Longrightarrow> UpdateJob s k st = Some (ok, s') \<Longrightarrow> wf_state s'"
    using mss.upd_law [of s k st] by (elim meta_impE exE conjE) simp_all
  show "wf_state s \<Longrightarrow> RemoveJob s k = Some (ok, s') \<Longrightarrow> wf_state s'"
    using mss.rem_law [of s k] by (elim meta_impE exE conjE) simp_all
  show "wf_state s \<Longrightarrow> AddJob s k j os = Some (ok, s') \<Longrightarrow> wf_state s'"
    using mss.add_law [of s k j os] by (elim meta_impE exE conjE) simp_all
qed

lemma defined_after:
  assumes "wf_state s"
  shows "UpdateJob s k st \<noteq> None" "RemoveJob s k \<noteq> None" "AddJob s k j os \<noteq> None"
    "GetJobStatus s k o0 \<noteq> None" "GetJobThroughput s k t \<noteq> None" "GetJobOstIds s k l \<noteq> None"
    "GetJobEnd s k e \<noteq> None"
proof -
  show "UpdateJob s k st \<noteq> None" using mss.upd_law [OF assms, of k st] by blast
  show "RemoveJob s k \<noteq> None" using mss.rem_law [OF assms, of k] by blast
  show "AddJob s k j os \<noteq> None" using mss.add_law [OF assms, of k j os] by blast
qed (simp_all add: store_laws assms)

lemmas mon_updates = Monitor_enter_def Monitor_exit_def TearDown_signal_def UnblockJob_def
  BlockJob_def RemoveJobFromPrioQueue_def RegisterJob_def push_item_def

lemma pop_or_wait_cases:
  assumes "pop_or_wait now m = Some (mp', m')"
  shows "(mp' = MOuter \<or> (\<exists>k e. mp' = MPopped k e)) \<and> (\<exists>q. m' = m\<lparr>job_priority_queue := q\<rparr>)"
proof (cases "isThereAReadyJob m now")
  case True
  then obtain x q where "Pop (job_priority_queue m) = (Some x, q)"
    using isThereAReadyJob_Pop by blast
  with True assms show ?thesis by (auto simp: pop_or_wait_def)
next
  case False
  with assms show ?thesis by (auto simp: pop_or_wait_def intro: exI [of _ "job_priority_queue m"])
qed

text \<open>What a step does to the in-flight set, the active flag and the well-formedness.\<close>

lemma mon_step_effect:
  assumes step: "mon_step env now mp m = Some (mp', m')" and wf: "mwf m"
    and held: "mon_holds mp \<subseteq> in_flight_jobs m"
  shows "mwf m'"
    and "in_flight_jobs m' = (in_flight_jobs m - mon_holds mp) \<union> mon_holds mp'"
    and "mon_holds mp' \<subseteq> mon_holds mp \<or> mon_holds mp' \<inter> in_flight_jobs m = {}"
    and "monitor_thread_is_active m' =
      (if mp = MEnter then True else if mp = MLeave then False else monitor_thread_is_active m)"
    and "mp' \<noteq> MEnter" and "mp' = MDone \<longleftrightarrow> mp = MLeave" and "mp \<noteq> MDone"
proof -
  have "mwf m' \<and> in_flight_jobs m' = (in_flight_jobs m - mon_holds mp) \<union> mon_holds mp' \<and>
    (mon_holds mp' \<subseteq> mon_holds mp \<or> mon_holds mp' \<inter> in_flight_jobs m = {}) \<and>
    monitor_thread_is_active m' =
      (if mp = MEnter then True else if mp = MLeave then False else monitor_thread_is_active m) \<and>
    mp' \<noteq> MEnter \<and> (mp' = MDone \<longleftrightarrow> mp = MLeave) \<and> mp \<noteq> MDone"
  proof (cases mp)
    case MTest
    with step have "pop_or_wait now m = Some (mp', m')" by simp
    from pop_or_wait_cases [OF this] wf show ?thesis using MTest by auto
  next
    case (MSwitch k e)
    with step wf held show ?thesis by (cases e) (auto split: if_splits)
  next
    case (MSet k mbs osts)
    with step wf held show ?thesis by (auto split: prod.splits if_splits)
  next
    case (MRemoveRules k)
    with step wf held show ?thesis by (auto split: prod.splits)
  qed (use step wf held in \<open>auto simp: mon_updates split: if_splits dest: wf_after\<close>)
  then show "mwf m'"
    "in_flight_jobs m' = (in_flight_jobs m - mon_holds mp) \<union> mon_holds mp'"
    "mon_holds mp' \<subseteq> mon_holds mp \<or> mon_holds mp' \<inter> in_flight_jobs m = {}"
    "monitor_thread_is_active m' =
      (if mp = MEnter then True else if mp = MLeave then False else monitor_thread_is_active m)"
    "mp' \<noteq> MEnter" "mp' = MDone \<longleftrightarrow> mp = MLeave" "mp \<noteq> MDone" by blast+
qed

lemma srv_step_effect:
  assumes step: "srv_step env sp m = Some (sp', m')" and wf: "mwf m"
    and held: "srv_holds sp \<subseteq> in_flight_jobs m"
  shows "mwf m'"
    and "in_flight_jobs m' = (in_flight_jobs m - srv_holds sp) \<union> srv_holds sp'"
    and "srv_holds sp' \<subseteq> srv_holds sp \<or> srv_holds sp' \<inter> in_flight_jobs m = {}"
    and "monitor_thread_is_active m' = monitor_thread_is_active m" and "sp' \<noteq> SDown"
proof -
  have "mwf m' \<and> in_flight_jobs m' = (in_flight_jobs m - srv_holds sp) \<union> srv_holds sp' \<and>
    (srv_holds sp' \<subseteq> srv_holds sp \<or> srv_holds sp' \<inter> in_flight_jobs m = {}) \<and>
    monitor_thread_is_active m' = monitor_thread_is_active m \<and> sp' \<noteq> SDown"
  proof (cases sp)
    case (SDequeue k)
    with step wf held show ?thesis by (auto simp: RemoveJobFromPrioQueue_def split: prod.splits)
  next
    case (SRemoveRules k)
    with step wf held show ?thesis by (auto split: prod.splits)
  qed (use step wf held in \<open>auto simp: mon_updates split: if_splits dest: wf_after\<close>)
  then show "mwf m'"
    "in_flight_jobs m' = (in_flight_jobs m - srv_holds sp) \<union> srv_holds sp'"
    "srv_holds sp' \<subseteq> srv_holds sp \<or> srv_holds sp' \<inter> in_flight_jobs m = {}"
    "monitor_thread_is_active m' = monitor_thread_is_active m" "sp' \<noteq> SDown" by blast+
qed

lemma thread_inv_iff:
  "thread_inv (mp, sp, m) \<longleftrightarrow>
     mwf m \<and> mon_holds mp \<union> srv_holds sp = in_flight_jobs m \<and> mon_holds mp \<inter> srv_holds sp = {} \<and>
     (monitor_thread_is_active m \<longrightarrow> mp \<noteq> MEnter \<and> mp \<noteq> MDone) \<and> (sp = SDown \<longrightarrow> mp = MDone)"
  by (simp add: thread_inv_def)

lemma mon_step_thread_inv:
  assumes inv: "thread_inv (mp, sp, m)" and step: "mon_step env now mp m = Some (mp', m')"
  shows "thread_inv (mp', sp, m')"
proof -
  note i = inv [unfolded thread_inv_iff]
  have held: "mon_holds mp \<subseteq> in_flight_jobs m" using i by blast
  note e = mon_step_effect [OF step conjunct1 [OF i] held]
  have "mon_holds mp' \<union> srv_holds sp = in_flight_jobs m'" "mon_holds mp' \<inter> srv_holds sp = {}"
    using i e(2,3) by blast+
  moreover have "monitor_thread_is_active m' \<longrightarrow> mp' \<noteq> MDone" using e(4,6) by auto
  moreover have "sp \<noteq> SDown" using i e(7) by blast
  ultimately show ?thesis using e(1,5) by (simp add: thread_inv_iff)
qed

lemma srv_step_thread_inv:
  assumes inv: "thread_inv (mp, sp, m)" and step: "srv_step env sp m = Some (sp', m')"
  shows "thread_inv (mp, sp', m')"
proof -
  note i = inv [unfolded thread_inv_iff]
  have held: "srv_holds sp \<subseteq> in_flight_jobs m" using i by blast
  note e = srv_step_effect [OF step conjunct1 [OF i] held]
  have "mon_holds mp \<union> srv_holds sp' = in_flight_jobs m'" "mon_holds mp \<inter> srv_holds sp' = {}"
    using i e(2,3) by blast+
  with e i show ?thesis by (simp add: thread_inv_iff)
qed

lemma thread_inv_start: "thread_inv (start_threads w)"
  by (simp add: thread_inv_def start_threads_def new_monitor_def)

lemma thread_step_inv: "thread_step env t t' \<Longrightarrow> thread_inv t \<Longrightarrow> thread_inv t'"
proof (induction rule: thread_step.induct)
  case (monitor now mp m mp' m' sp)
  then show ?case by (blast intro: mon_step_thread_inv)
next
  case (server sp m sp' m' mp)
  then show ?case by (blast intro: srv_step_thread_inv)
qed (simp_all add: thread_inv_iff)

lemma reachable_inv: "reachable env w t \<Longrightarrow> thread_inv t"
  unfolding reachable_def
  by (induction rule: rtranclp_induct) (auto intro: thread_inv_start thread_step_inv)

section \<open>No thread is stuck in a handler\<close>

lemma mon_step_None:
  assumes "mwf m" and "mon_step env now mp m = None"
  shows "mp = MDone \<or> (\<exists>k e. mp = MPopped k e \<and> k \<in> in_flight_jobs m)"
proof (cases mp)
  case MTest
  with assms(2) have "pop_or_wait now m = None" by simp
  then show ?thesis
    using isThereAReadyJob_Pop [of m now] by (auto simp: pop_or_wait_def split: if_splits)
next
  case (MPopped k e)
  with assms(2) show ?thesis by (auto simp: BlockJob_def split: if_splits)
next
  case (MSwitch k e)
  with assms show ?thesis by (cases e) (auto simp: defined_after dest: defined_after(4))
next
  case (MSet k mbs osts)
  with assms show ?thesis by (auto split: prod.splits)
next
  case (MRemoveRules k)
  with assms show ?thesis by (auto split: prod.splits)
qed (use assms in \<open>auto dest: defined_after\<close>)

lemma srv_step_None:
  assumes "mwf m" and "srv_step env sp m = None"
  shows "sp \<in> {SIdle, SJoin, SDown} \<or> (\<exists>k. sp = SBlock k \<and> k \<in> in_flight_jobs m) \<or>
    sp = STearWait \<and> monitor_thread_is_active m"
proof (cases sp)
  case (SBlock k)
  with assms(2) show ?thesis by (auto simp: BlockJob_def split: if_splits)
next
  case (SRemoveRules k)
  with assms show ?thesis by (auto split: prod.splits)
next
  case STearWait
  with assms(2) show ?thesis by (auto simp: TearDown_may_return_def split: if_splits)
qed (use assms in \<open>auto dest: defined_after\<close>)

lemma blocked_waits_for_holder:
  assumes inv: "thread_inv (mp, sp, m)"
  shows "mp = MPopped k e \<Longrightarrow> mon_step env now mp m = None \<Longrightarrow>
      k \<in> srv_holds sp \<and> srv_step env sp m \<noteq> None"
    and "sp = SBlock k \<Longrightarrow> srv_step env sp m = None \<Longrightarrow>
      k \<in> mon_holds mp \<and> mon_step env now mp m \<noteq> None"
proof -
  note i = inv [unfolded thread_inv_iff]
  assume mp: "mp = MPopped k e" and none: "mon_step env now mp m = None"
  then have "k \<in> in_flight_jobs m" by (auto simp: BlockJob_def split: if_splits)
  with i mp have k: "k \<in> srv_holds sp" by auto
  then have "sp \<notin> {SIdle, SJoin, SDown, STearWait}" "sp \<noteq> SBlock k'" for k' by auto
  with srv_step_None [of m env sp] i k show "k \<in> srv_holds sp \<and> srv_step env sp m \<noteq> None" by blast
next
  note i = inv [unfolded thread_inv_iff]
  assume sp: "sp = SBlock k" and none: "srv_step env sp m = None"
  then have "k \<in> in_flight_jobs m" by (auto simp: BlockJob_def split: if_splits)
  with i sp have k: "k \<in> mon_holds mp" by auto
  then have "mp \<noteq> MDone" "mp \<noteq> MPopped k' e'" for k' e' by auto
  with mon_step_None [of m env now mp] i k show "k \<in> mon_holds mp \<and> mon_step env now mp m \<noteq> None"
    by blast
qed

section \<open>The calls of the other theories are runs of one thread\<close>

definition mon_runs :: "'w Env \<Rightarrow> mon_pc \<times> 'w Monitor \<Rightarrow> mon_pc \<times> 'w Monitor \<Rightarrow> bool" where
  "mon_runs env = (\<lambda>(mp, m) t. \<exists>now. mon_step env now mp m = Some t)\<^sup>*\<^sup>*"

definition srv_runs :: "'w Env \<Rightarrow> srv_pc \<times> 'w Monitor \<Rightarrow> srv_pc \<times> 'w Monitor \<Rightarrow> bool" where
  "srv_runs env = (\<lambda>(sp, m) t. srv_step env sp m = Some t)\<^sup>*\<^sup>*"

lemma mon_runs_refl [simp]: "mon_runs env t t"
  by (simp add: mon_runs_def)

lemma mon_runs_step:
  "mon_step env 0 mp m = Some t \<Longrightarrow> mon_runs env t u \<Longrightarrow> mon_runs env (mp, m) u"
  unfolding mon_runs_def by (rule converse_rtranclp_into_rtranclp) auto

lemma srv_runs_refl [simp]: "srv_runs env t t"
  by (simp add: srv_runs_def)

lemma srv_runs_step: "srv_step env sp m = Some t \<Longrightarrow> srv_runs env t u \<Longrightarrow> srv_runs env (sp, m) u"
  unfolding srv_runs_def by (rule converse_rtranclp_into_rtranclp) auto

lemma SetNrsRules_runs:
  assumes s: "SetNrsRules env m k = Some (ok, m1)"
    and last: "mon_runs env (if ok then MActivate k else MUnblock k, m1) u"
  shows "mon_runs env (MRate k, m) u"
proof -
  obtain f mbs where t: "GetJobThroughput (mon_schedule m) k 0 = Some (f, mbs)"
    using s by (auto simp: SetNrsRules_def bind_eq_Some_conv)
  show ?thesis
  proof (cases f)
    case False
    with s t have "ok = False" "m1 = m" by (auto simp: SetNrsRules_def)
    with False t have "mon_step env 0 (MRate k) m = Some (MUnblock k, m)" by simp
    from mon_runs_step [OF this] last \<open>ok = False\<close> \<open>m1 = m\<close> show ?thesis by simp
  next
    case True
    with s t obtain ig osts where ids: "GetJobOstIds (mon_schedule m) k [] = Some (ig, osts)"
      by (auto simp: SetNrsRules_def bind_eq_Some_conv)
    obtain b rm w where r: "SetRules (env_lustre env) (env_setter env) (mon_rules m)
        (mon_world m) osts k mbs = (b, rm, w)"
      by (cases "SetRules (env_lustre env) (env_setter env) (mon_rules m) (mon_world m) osts k mbs")
    from s t True ids r have m1: "ok = b" "m1 = m\<lparr>mon_rules := rm, mon_world := w\<rparr>"
      by (auto simp: SetNrsRules_def)
    have "mon_step env 0 (MRate k) m = Some (MOsts k mbs, m)" using t True by simp
    moreover have "mon_step env 0 (MOsts k mbs) m = Some (MSet k mbs osts, m)" using ids by simp
    moreover have "mon_step env 0 (MSet k mbs osts) m =
        Some (if ok then MActivate k else MUnblock k, m1)" using r m1 by simp
    ultimately show ?thesis using last by (blast intro: mon_runs_step)
  qed
qed

lemma activate_runs:
  assumes u: "UpdateJob (mon_schedule m) k ACTIVE = Some (upd, s)"
    and e: "upd \<Longrightarrow> GetJobEnd s k 0 = Some (end_ok, tend)"
  shows "mon_runs env (MActivate k, m) (MUnblock k,
    if upd \<and> end_ok then push_item k tend JOBSTOP (m\<lparr>mon_schedule := s\<rparr>) else m\<lparr>mon_schedule := s\<rparr>)"
proof (cases upd)
  case False
  with u have "mon_step env 0 (MActivate k) m = Some (MUnblock k, m\<lparr>mon_schedule := s\<rparr>)" by simp
  from mon_runs_step [OF this mon_runs_refl] False show ?thesis by simp
next
  case True
  let ?m = "m\<lparr>mon_schedule := s\<rparr>"
  have act: "mon_step env 0 (MActivate k) m = Some (MEnd k, ?m)" using u True by simp
  show ?thesis
  proof (cases end_ok)
    case False
    with e [OF True] have "mon_step env 0 (MEnd k) ?m = Some (MUnblock k, ?m)" by simp
    from mon_runs_step [OF act mon_runs_step [OF this mon_runs_refl]] False show ?thesis by simp
  next
    case ok: True
    with e [OF True] have "mon_step env 0 (MEnd k) ?m = Some (MPush k tend, ?m)" by simp
    moreover have "mon_step env 0 (MPush k tend) ?m = Some (MUnblock k, push_item k tend JOBSTOP ?m)"
      by simp
    ultimately have "mon_runs env (MActivate k, m) (MUnblock k, push_item k tend JOBSTOP ?m)"
      using act by (blast intro: mon_runs_step mon_runs_refl)
    with ok True show ?thesis by simp
  qed
qed

lemma StartJob_runs:
  assumes s: "StartJob env m k = Some (ok, m')"
  shows "mon_runs env (MSwitch k JOBSTART, m) (MUnblock k, m')"
proof -
  obtain found st where g: "GetJobStatus (mon_schedule m) k INITIALIZED = Some (found, st)"
    using s by (auto simp: StartJob_def bind_eq_Some_conv)
  show ?thesis
  proof (cases "found \<and> st = SCHEDULED")
    case False
    with s g have "m' = m" by (auto simp: StartJob_def split: if_splits)
    with False g have "mon_step env 0 (MSwitch k JOBSTART) m = Some (MUnblock k, m')" by auto
    from mon_runs_step [OF this mon_runs_refl] show ?thesis .
  next
    case True
    with s g obtain set_ok m1 where r: "SetNrsRules env m k = Some (set_ok, m1)"
      by (auto simp: StartJob_def bind_eq_Some_conv)
    have "mon_runs env (if set_ok then MActivate k else MUnblock k, m1) (MUnblock k, m')"
    proof (cases set_ok)
      case False
      with s g True r show ?thesis by (auto simp: StartJob_def)
    next
      case ok: True
      with s g True r obtain upd s2 where u: "UpdateJob (mon_schedule m1) k ACTIVE = Some (upd, s2)"
        by (auto simp: StartJob_def bind_eq_Some_conv)
      obtain end_ok tend where e: "upd \<Longrightarrow> GetJobEnd s2 k 0 = Some (end_ok, tend)"
        using s g True r ok u by (cases upd) (auto simp: StartJob_def bind_eq_Some_conv Let_def)
      have "m' = (if upd \<and> end_ok then push_item k tend JOBSTOP (m1\<lparr>mon_schedule := s2\<rparr>)
          else m1\<lparr>mon_schedule := s2\<rparr>)"
        using s g True r ok u e by (cases upd; cases end_ok) (auto simp: StartJob_def)
      with activate_runs [OF u e] ok show ?thesis by simp
    qed
    note last = SetNrsRules_runs [OF r this]
    from True g have "mon_step env 0 (MSwitch k JOBSTART) m = Some (MRate k, m)" by simp
    from mon_runs_step [OF this last] show ?thesis .
  qed
qed

lemma StopJob_runs:
  assumes s: "StopJob env m k = Some (ok, m')"
  shows "mon_runs env (MSwitch k JOBSTOP, m) (MErase k, m')"
    and "srv_runs env (SStopStatus k, m) (SUnblock k, m')"
proof -
  obtain found st where g: "GetJobStatus (mon_schedule m) k INITIALIZED = Some (found, st)"
    using s by (auto simp: StopJob_def bind_eq_Some_conv)
  have "mon_runs env (MSwitch k JOBSTOP, m) (MErase k, m') \<and>
    srv_runs env (SStopStatus k, m) (SUnblock k, m')"
  proof (cases "found \<and> st = ACTIVE")
    case False
    with s g have "m' = m" by (auto simp: StopJob_def split: if_splits)
    with False g have "mon_step env 0 (MSwitch k JOBSTOP) m = Some (MErase k, m')"
      "srv_step env (SStopStatus k) m = Some (SUnblock k, m')" by auto
    then show ?thesis by (blast intro: mon_runs_step mon_runs_refl srv_runs_step srv_runs_refl)
  next
    case True
    obtain b rm w where r: "RemoveRules (env_setter env) (mon_rules m) (mon_world m) k = (b, rm, w)"
      by (cases "RemoveRules (env_setter env) (mon_rules m) (mon_world m) k")
    with s g True obtain upd s2 where u: "UpdateJob (mon_schedule m) k DONE = Some (upd, s2)"
      "m' = m\<lparr>mon_schedule := s2, mon_rules := rm, mon_world := w\<rparr>"
      by (auto simp: StopJob_def bind_eq_Some_conv)
    let ?m = "m\<lparr>mon_rules := rm, mon_world := w\<rparr>"
    from True g r u have "mon_step env 0 (MSwitch k JOBSTOP) m = Some (MRemoveRules k, m)"
      "mon_step env 0 (MRemoveRules k) m = Some (MFinish k, ?m)"
      "mon_step env 0 (MFinish k) ?m = Some (MErase k, m')"
      "srv_step env (SStopStatus k) m = Some (SRemoveRules k, m)"
      "srv_step env (SRemoveRules k) m = Some (SFinish k, ?m)"
      "srv_step env (SFinish k) ?m = Some (SUnblock k, m')" by simp_all
    then show ?thesis by (blast intro: mon_runs_step mon_runs_refl srv_runs_step srv_runs_refl)
  qed
  then show "mon_runs env (MSwitch k JOBSTOP, m) (MErase k, m')"
    "srv_runs env (SStopStatus k, m) (SUnblock k, m')" by auto
qed

lemma mon_runs_trans: "mon_runs env t u \<Longrightarrow> mon_runs env u v \<Longrightarrow> mon_runs env t v"
  unfolding mon_runs_def by (rule rtranclp_trans)

lemma srv_runs_trans: "srv_runs env t u \<Longrightarrow> srv_runs env u v \<Longrightarrow> srv_runs env t v"
  unfolding srv_runs_def by (rule rtranclp_trans)

lemma Handle_runs:
  assumes "Handle env m k e = Some m'"
  shows "mon_runs env (MPopped k e, m) (MTest, m')"
proof -
  obtain m1 m2 where b: "BlockJob m k = Some m1" and h: "handle_event env m1 k e = Some m2"
    and m': "m' = UnblockJob m2 k"
    using assms by (auto simp: Handle_def bind_eq_Some_conv)
  have "mon_runs env (MSwitch k e, m1) (MUnblock k, m2)"
  proof (cases e)
    case JOBSTART
    with h StartJob_runs show ?thesis by (auto simp: handle_event_def bind_eq_Some_conv)
  next
    case JOBSTOP
    with h obtain ok m3 ok' s where s: "StopJob env m1 k = Some (ok, m3)"
      "RemoveJob (mon_schedule m3) k = Some (ok', s)" "m2 = m3\<lparr>mon_schedule := s\<rparr>"
      by (auto simp: handle_event_def bind_eq_Some_conv)
    then have "mon_step env 0 (MErase k) m3 = Some (MUnblock k, m2)" by simp
    from mon_runs_step [OF this mon_runs_refl]
    have "mon_runs env (MErase k, m3) (MUnblock k, m2)" .
    with mon_runs_trans [OF StopJob_runs(1) [OF s(1)]] JOBSTOP show ?thesis by simp
  qed
  moreover have "mon_step env 0 (MUnblock k) m2 = Some (MTest, m')" using m' by simp
  from mon_runs_step [OF this mon_runs_refl] have "mon_runs env (MUnblock k, m2) (MTest, m')" .
  ultimately have last: "mon_runs env (MSwitch k e, m1) (MTest, m')" by (rule mon_runs_trans)
  have "mon_step env 0 (MPopped k e) m = Some (MSwitch k e, m1)" using b by simp
  from mon_runs_step [OF this last] show ?thesis .
qed

lemma delete_job_runs:
  assumes "delete_job env m k = Some (removed, m')"
  shows "srv_runs env (SBlock k, m) (SIdle, m')"
proof -
  obtain ok m1 s where u: "UnregisterJob env m (job_of_id k) = Some (ok, m1)"
    and r: "RemoveJob (mon_schedule m1) k = Some (removed, s)" and m': "m' = m1\<lparr>mon_schedule := s\<rparr>"
    using assms by (auto simp: delete_job_def bind_eq_Some_conv)
  obtain m2 where b: "BlockJob m k = Some m2"
    using u by (auto simp: UnregisterJob_def bind_eq_Some_conv)
  let ?m3 = "RemoveJobFromPrioQueue m2 (job_of_id k)"
  obtain found st where g: "GetJobStatus (mon_schedule ?m3) k INITIALIZED = Some (found, st)"
    using u b by (auto simp: UnregisterJob_def bind_eq_Some_conv Let_def)
  have "\<exists>m4. srv_runs env (SStatus k, ?m3) (SUnblock k, m4) \<and> m1 = UnblockJob m4 k"
  proof (cases "found \<and> st = ACTIVE")
    case False
    with u b g have "m1 = UnblockJob ?m3 k"
      by (auto simp: UnregisterJob_def Let_def split: if_splits)
    have "srv_step env (SStatus k) ?m3 = Some (SUnblock k, ?m3)" using False g by auto
    from srv_runs_step [OF this srv_runs_refl] \<open>m1 = UnblockJob ?m3 k\<close> show ?thesis by blast
  next
    case True
    with u b g obtain stopped m4 where s: "StopJob env ?m3 k = Some (stopped, m4)" "m1 = UnblockJob m4 k"
      by (auto simp: UnregisterJob_def Let_def bind_eq_Some_conv split: if_splits)
    from True g have "srv_step env (SStatus k) ?m3 = Some (SStopStatus k, ?m3)" by simp
    from srv_runs_step [OF this StopJob_runs(2) [OF s(1)]] s(2) show ?thesis by blast
  qed
  then obtain m4 where m4: "srv_runs env (SStatus k, ?m3) (SUnblock k, m4)" "m1 = UnblockJob m4 k"
    by blast
  have "srv_step env (SUnblock k) m4 = Some (SErase k, m1)"
    "srv_step env (SErase k) m1 = Some (SIdle, m')"
    "srv_step env (SBlock k) m = Some (SDequeue k, m2)"
    "srv_step env (SDequeue k) m2 = Some (SStatus k, ?m3)" using m4(2) r m' b by simp_all
  with m4(1) show ?thesis by (blast intro: srv_runs_step srv_runs_refl srv_runs_trans)
qed

end
