(* ===== verification/MonitorRaces.thy ===== *)
theory MonitorRaces
  imports MonitorThreads
begin

text \<open>
  Interleavings of \<open>MonitorThreads\<close> that end badly, run step by step: a scheduler's choices
  are a list, \<open>run_threads\<close> executes it, and a run is a path of \<open>thread_step\<close>.
\<close>

datatype choice = RunMonitor time_point | RunServer | Submit Job | Remove_request string

fun run_choice :: "'w Env \<Rightarrow> choice \<Rightarrow> 'w threads \<Rightarrow> 'w threads option" where
  "run_choice env (RunMonitor now) (mp, sp, m) =
     (case mon_step env now mp m of None \<Rightarrow> None | Some (mp', m') \<Rightarrow> Some (mp', sp, m'))"
| "run_choice env RunServer (mp, sp, m) =
     (case srv_step env sp m of None \<Rightarrow> None | Some (sp', m') \<Rightarrow> Some (mp, sp', m'))"
| "run_choice env (Submit j) (mp, sp, m) =
     (if sp = SIdle \<and> job_state j = SCHEDULED then Some (mp, SAdd j, m) else None)"
| "run_choice env (Remove_request k) (mp, sp, m) =
     (if sp = SIdle then Some (mp, SBlock k, m) else None)"

fun run_threads :: "'w Env \<Rightarrow> choice list \<Rightarrow> 'w threads \<Rightarrow> 'w threads option" where
  "run_threads env [] t = Some t"
| "run_threads env (c # cs) t =
     (case run_choice env c t of None \<Rightarrow> None | Some t' \<Rightarrow> run_threads env cs t')"

lemma run_choice_step: "run_choice env c t = Some t' \<Longrightarrow> thread_step env t t'"
  by (cases t; cases c)
    (auto split: option.splits prod.splits if_splits intro: thread_step.intros)

lemma run_threads_reachable:
  "run_threads env cs t = Some t' \<Longrightarrow> reachable env w t \<Longrightarrow> reachable env w t'"
proof (induction cs arbitrary: t)
  case (Cons c cs)
  then obtain t1 where t1: "run_choice env c t = Some t1" "run_threads env cs t1 = Some t'"
    by (auto split: option.splits)
  with Cons.prems(2) have "reachable env w t1"
    by (auto simp: reachable_def dest: run_choice_step intro: rtranclp.rtrancl_into_rtrancl)
  with Cons.IH t1(2) show ?case by blast
qed simp

lemma reachable_start: "reachable env w (start_threads w)"
  by (simp add: reachable_def)

section \<open>A small world\<close>

text \<open>One OST, number 0, on one OSS; every command succeeds.\<close>

definition demo_lustre :: "unit Lustre" where
  "demo_lustre =
     \<lparr>lustre_Init = \<lambda>w. (True, w), lustre_MBsToRPCs = \<lambda>x. x, lustre_RPCsToMBs = \<lambda>x. x,
      lustre_GetOstList = \<lambda>w path out.
        (True, out @ [\<lparr>ost_number = ''0'', ost_uuid = ''fs-OST0000_UUID'', ost_status = ''ACTIVE''\<rparr>], w),
      lustre_GetOstsForFile = \<lambda>w file osts. (True, osts @ [''0''], w),
      lustre_GetIPOfOst = \<lambda>w uuid ip. (True, ''10.0.0.1'', w)\<rparr>"

definition demo_env :: "unit Env" where
  "demo_env =
     \<lparr>env_lustre = demo_lustre,
      env_setter = \<lparr>SetRule = \<lambda>w ip job rule mbs. (True, w), RemoveRule = \<lambda>w ip rule job. (True, w)\<rparr>\<rparr>"

definition demo_job :: "string \<Rightarrow> time_point \<Rightarrow> time_point \<Rightarrow> Job" where
  "demo_job jobid tstart tend =
     (new_job jobid tstart tend 5)\<lparr>job_state := SCHEDULED, job_osts := [''0'']\<rparr>"

text \<open>Submit a job, let the monitor pop its start event, and remove the job before it is handled.\<close>

definition leak_schedule :: "choice list" where
  "leak_schedule =
     [Submit (demo_job ''a'' 10 20), RunServer, RunServer] @ replicate 3 (RunMonitor 11) @
     [Remove_request ''a''] @ replicate 4 RunServer @ replicate 5 (RunMonitor 12) @
     [RunServer] @ replicate 3 (RunMonitor 13)"

text \<open>Start one job; then set the rules of a second one while the first is stopped.\<close>

definition rules_schedule :: "choice list" where
  "rules_schedule =
     [Submit (demo_job ''a'' 10 20), RunServer, RunServer] @ replicate 14 (RunMonitor 11) @
     [Submit (demo_job ''b'' 30 40), RunServer, RunServer] @ replicate 5 (RunMonitor 31) @
     [Remove_request ''a''] @ replicate 4 RunServer"

definition leaked :: "'w threads \<Rightarrow> bool" where
  "leaked t = (case t of (mp, sp, m) \<Rightarrow>
     mp = MOuter \<and> sp = SIdle \<and> ms_jobs (mon_schedule m) = [] \<and> job_priority_queue m = [] \<and>
     in_flight_jobs m = {} \<and> mrules m ''a'' \<noteq> None)"

definition both_in_rule_manager :: "'w threads \<Rightarrow> bool" where
  "both_in_rule_manager t = (case t of (mp, sp, m) \<Rightarrow>
     (case mp of MSet k mbs osts \<Rightarrow> True | MRemoveRules k \<Rightarrow> True | _ \<Rightarrow> False) \<and>
     (case sp of SRemoveRules k \<Rightarrow> True | _ \<Rightarrow> False))"

text \<open>The monitor waits for a job the other thread is removing.\<close>

definition wait_schedule :: "choice list" where
  "wait_schedule = take 8 leak_schedule"

definition monitor_waits :: "unit threads \<Rightarrow> bool" where
  "monitor_waits t = (case t of (mp, sp, m) \<Rightarrow>
     mp = MPopped ''a'' JOBSTART \<and> mon_step demo_env 0 mp m = None)"

lemma leak_run:
  "case run_threads demo_env leak_schedule (start_threads ()) of None \<Rightarrow> False | Some t \<Rightarrow> leaked t"
  by code_simp

lemma rules_run:
  "case run_threads demo_env rules_schedule (start_threads ()) of None \<Rightarrow> False
   | Some t \<Rightarrow> both_in_rule_manager t"
  by code_simp

lemma wait_run:
  "case run_threads demo_env wait_schedule (start_threads ()) of None \<Rightarrow> False | Some t \<Rightarrow> monitor_waits t"
  by code_simp

lemma run_reaches:
  assumes "case run_threads env cs (start_threads w) of None \<Rightarrow> False | Some t \<Rightarrow> P t"
  shows "\<exists>t. reachable env w t \<and> P t"
proof -
  from assms obtain t where "run_threads env cs (start_threads w) = Some t" "P t"
    by (auto split: option.splits)
  with run_threads_reachable [OF this(1) reachable_start] show ?thesis by blast
qed

end
