(* ===== verification/Regex.thy ===== *)
theory Regex
  imports Prelude
begin

text \<open>
  The part of \<open>std::regex\<close> (ECMAScript grammar) that \<open>src/src/common/Lustre.cpp\<close> uses. Its expressions are sequences of characters, greedy
  repetitions of one character class, and groups that are not nested. \<open>rx_match\<close> backtracks
  in the order ECMAScript prescribes, the longest repetition first, and returns what the
  groups captured; \<open>regex_match\<close> asks for the whole string.
\<close>

datatype atom = One "char \<Rightarrow> bool" | Plus "char \<Rightarrow> bool" | Many "char \<Rightarrow> bool"
  | GroupBegin | GroupEnd | Eol

function (sequential) rx_match ::
  "atom list \<Rightarrow> string option \<Rightarrow> string list \<Rightarrow> string \<Rightarrow> string list option" where
  "rx_match [] open captures s = (if s = [] then Some captures else None)"
| "rx_match (One P # r) open captures [] = None"
| "rx_match (One P # r) open captures (c # s) =
     (if P c then rx_match r (map_option (\<lambda>x. x @ [c]) open) captures s else None)"
| "rx_match (Plus P # r) open captures [] = None"
| "rx_match (Plus P # r) open captures (c # s) =
     (if P c then rx_match (Many P # r) (map_option (\<lambda>x. x @ [c]) open) captures s else None)"
| "rx_match (Many P # r) open captures [] = rx_match r open captures []"
| "rx_match (Many P # r) open captures (c # s) =
     (if P c then
        (case rx_match (Many P # r) (map_option (\<lambda>x. x @ [c]) open) captures s of
           Some m \<Rightarrow> Some m
         | None \<Rightarrow> rx_match r open captures (c # s))
      else rx_match r open captures (c # s))"
| "rx_match (GroupBegin # r) open captures s = rx_match r (Some []) captures s"
| "rx_match (GroupEnd # r) open captures s =
     rx_match r None (case open of None \<Rightarrow> captures | Some x \<Rightarrow> captures @ [x]) s"
| "rx_match (Eol # r) open captures s = (if s = [] then rx_match r open captures s else None)"
  by pat_completeness auto
termination
  by (relation "measure (\<lambda>(r, open, captures, s). length r + length s)") auto

definition regex_match :: "atom list \<Rightarrow> string \<Rightarrow> string list option" where
  "regex_match r s = rx_match r None [] s"

text \<open>Character classes: \<open>.\<close> is anything but a line terminator.\<close>

definition any_char :: "char \<Rightarrow> bool" where
  "any_char c \<longleftrightarrow> c \<noteq> CHR 0x0A \<and> c \<noteq> CHR 0x0D"

definition is_digit :: "char \<Rightarrow> bool" where
  "is_digit c \<longleftrightarrow> (48::nat) \<le> of_char c \<and> of_char c \<le> (57::nat)"

definition is_alpha :: "char \<Rightarrow> bool" where
  "is_alpha c \<longleftrightarrow> (65::nat) \<le> of_char c \<and> of_char c \<le> (90::nat) \<or>
     (97::nat) \<le> of_char c \<and> of_char c \<le> (122::nat)"

definition is_alnum :: "char \<Rightarrow> bool" where
  "is_alnum c \<longleftrightarrow> is_digit c \<or> is_alpha c"

definition literal :: "string \<Rightarrow> atom list" where
  "literal s = map (\<lambda>c. One (\<lambda>x. x = c)) s"

section \<open>Lemmas\<close>

lemma rx_match_literal:
  "rx_match (literal l @ r) None captures (l @ s) = rx_match r None captures s"
  by (induction l) (auto simp: literal_def)

lemma rx_match_literal_cases:
  "rx_match (literal l @ r) None captures s =
     (if take (length l) s = l then rx_match r None captures (drop (length l) s) else None)"
proof (induction l arbitrary: s)
  case (Cons a l)
  then show ?case by (cases s) (auto simp: literal_def)
qed (simp add: literal_def)

text \<open>A run of class characters that the class ends by itself is taken whole.\<close>

lemma rx_match_Many_run:
  "\<forall>c \<in> set run. P c \<Longrightarrow> s = [] \<or> \<not> P (hd s) \<Longrightarrow>
   rx_match r (map_option (\<lambda>x. x @ run) open) captures s = Some m \<Longrightarrow>
   rx_match (Many P # r) open captures (run @ s) = Some m"
proof (induction run arbitrary: "open")
  case Nil
  then show ?case by (cases s) (auto simp: option.map_ident)
next
  case (Cons c run)
  have "map_option (\<lambda>x. x @ run) (map_option (\<lambda>x. x @ [c]) open) = map_option (\<lambda>x. x @ c # run) open"
    by (cases "open") auto
  with Cons.IH [of "map_option (\<lambda>x. x @ [c]) open"] Cons.prems show ?case by simp
qed

lemma rx_match_Plus_run:
  "run \<noteq> [] \<Longrightarrow> \<forall>c \<in> set run. P c \<Longrightarrow> s = [] \<or> \<not> P (hd s) \<Longrightarrow>
   rx_match r (map_option (\<lambda>x. x @ run) open) captures s = Some m \<Longrightarrow>
   rx_match (Plus P # r) open captures (run @ s) = Some m"
proof (cases run)
  case (Cons c run')
  assume *: "\<forall>c \<in> set run. P c" "s = [] \<or> \<not> P (hd s)"
    "rx_match r (map_option (\<lambda>x. x @ run) open) captures s = Some m"
  have "map_option (\<lambda>x. x @ run') (map_option (\<lambda>x. x @ [c]) open) = map_option (\<lambda>x. x @ run) open"
    using Cons by (cases "open") auto
  with * Cons rx_match_Many_run [of run' P s r "map_option (\<lambda>x. x @ [c]) open" captures m]
  show ?thesis by simp
qed simp

text \<open>A repetition may stop later, and may be skipped.\<close>

lemma rx_match_Many_prefix:
  "\<forall>c \<in> set u. P c \<Longrightarrow>
   rx_match (Many P # r) (map_option (\<lambda>x. x @ u) open) captures s = Some m \<Longrightarrow>
   rx_match (Many P # r) open captures (u @ s) = Some m"
proof (induction u arbitrary: "open")
  case (Cons c u)
  have "map_option (\<lambda>x. x @ u) (map_option (\<lambda>x. x @ [c]) open) = map_option (\<lambda>x. x @ c # u) open"
    by (cases "open") auto
  with Cons.IH [of "map_option (\<lambda>x. x @ [c]) open"] Cons.prems show ?case by simp
qed (simp add: option.map_ident)

lemma rx_match_Many_skip:
  "rx_match r open captures s \<noteq> None \<Longrightarrow> rx_match (Many P # r) open captures s \<noteq> None"
  by (cases s) (auto split: option.split)

lemma rx_match_Plus_some:
  assumes "u \<noteq> []" and "\<forall>c \<in> set u. P c" and "rx_match r None captures s \<noteq> None"
  shows "rx_match (Plus P # r) None captures (u @ s) \<noteq> None"
proof (cases u)
  case (Cons c u')
  obtain m where "rx_match (Many P # r) None captures s = Some m"
    using rx_match_Many_skip [OF assms(3), of P] by blast
  with rx_match_Many_prefix [of u' P r None captures s m] assms(2) Cons show ?thesis by simp
qed (use assms(1) in simp)

lemma rx_match_captures:
  "rx_match r None captures s = Some m \<Longrightarrow> GroupBegin \<notin> set r \<Longrightarrow> m = captures"
  by (induction r "None :: string option" captures s rule: rx_match.induct)
    (auto split: if_splits option.splits)

text \<open>An expression cannot match with fewer occurrences of a character than it spells out.\<close>

lemma rx_match_needs:
  "rx_match r open captures s = Some m \<Longrightarrow>
   length (filter (\<lambda>a. a = One (\<lambda>x. x = c)) r) \<le> count_list s c"
proof (induction r "open" captures s rule: rx_match.induct)
  case (3 P r "open" captures c' s)
  have "One P = One (\<lambda>x. x = c) \<Longrightarrow> P c' \<Longrightarrow> c' = c" by simp
  with 3 show ?case by (auto split: if_splits)
qed (auto split: if_splits option.splits)

section \<open>Deterministic repetitions\<close>

text \<open>
  When what follows a repetition cannot start with a character of its class, backtracking
  never helps: the repetition is a scan.
\<close>

definition starts_outside :: "(char \<Rightarrow> bool) \<Rightarrow> atom list \<Rightarrow> bool" where
  "starts_outside P r \<longleftrightarrow> (\<forall>open captures c s. P c \<longrightarrow> rx_match r open captures (c # s) = None)"

lemma starts_outside_Nil [simp]: "starts_outside P []"
  by (simp add: starts_outside_def)

lemma starts_outside_One [simp]: "(\<And>c. P c \<Longrightarrow> \<not> Q c) \<Longrightarrow> starts_outside P (One Q # r)"
  by (simp add: starts_outside_def)

lemma starts_outside_GroupEnd [simp]: "starts_outside P r \<Longrightarrow> starts_outside P (GroupEnd # r)"
  by (simp add: starts_outside_def)

lemma rx_match_Many_scan:
  "starts_outside P r \<Longrightarrow> rx_match (Many P # r) open captures s =
     rx_match r (map_option (\<lambda>x. x @ takeWhile P s) open) captures (dropWhile P s)"
proof (induction s arbitrary: "open")
  case (Cons c s)
  have "map_option (\<lambda>x. x @ takeWhile P s) (map_option (\<lambda>x. x @ [c]) open) =
      map_option (\<lambda>x. x @ c # takeWhile P s) open"
    by (cases "open") auto
  with Cons.IH [OF Cons.prems, of "map_option (\<lambda>x. x @ [c]) open"] Cons.prems
  show ?case
    by (auto simp: starts_outside_def option.map_ident split: option.split)
qed (simp add: option.map_ident)

lemma rx_match_Plus_scan:
  assumes "starts_outside P r"
  shows "rx_match (Plus P # r) open captures s =
     (if takeWhile P s = [] then None
      else rx_match r (map_option (\<lambda>x. x @ takeWhile P s) open) captures (dropWhile P s))"
proof (cases s)
  case (Cons c s')
  have "map_option (\<lambda>x. x @ takeWhile P s') (map_option (\<lambda>x. x @ [c]) open) =
      map_option (\<lambda>x. x @ c # takeWhile P s') open"
    by (cases "open") auto
  with Cons rx_match_Many_scan [OF assms, of "map_option (\<lambda>x. x @ [c]) open" captures s']
  show ?thesis by simp
qed simp

end
