(* ===== verification/LocalLustre.thy ===== *)
theory LocalLustre
  imports LustreInterface Regex
begin

text \<open>
  \<open>src/src/common/Lustre.h/.cpp\<close>: the Lustre object of the server, which runs the command
  line tools \<open>lctl\<close> and \<open>lfs\<close> and parses what they print. Parameters: the shell \<open>popen\<close> and
  the system call \<open>stat\<close>, both functions of the world.
\<close>

definition TAB :: char where "TAB = CHR 0x09"

definition getstripe_regex :: "atom list" where
  "getstripe_regex =
     literal [TAB] @ [Plus any_char, GroupBegin, Plus is_digit, GroupEnd] @ literal [TAB] @
     [Plus any_char] @ literal [TAB] @ [Plus any_char] @ literal [TAB] @ [Many any_char]"

definition lfs_osts_regex :: "atom list" where
  "lfs_osts_regex =
     [GroupBegin, Plus is_digit, GroupEnd] @ literal '': '' @
     [GroupBegin, Plus (\<lambda>c. c = CHR ''_'' \<or> is_alnum c \<or> c = CHR ''-''), GroupEnd] @ literal '' '' @
     [GroupBegin, Plus is_alnum, GroupEnd]"

text \<open>
  \<open>".+" + ost_id + ".+ost_conn_uuid=(.+)@tcp$"\<close>: the id becomes a part of the expression.
  The characters of a Lustre name stand for themselves and a dot for any character; what an
  id with another special character means is left to the parameter \<open>special\<close> of the parser.
\<close>

definition special_chars :: string where
  "special_chars = ''^$*+?()[]{}|'' @ [CHR 0x5C]"

definition id_atoms :: "string \<Rightarrow> atom list" where
  "id_atoms ost_id = map (\<lambda>c. if c = CHR ''.'' then One any_char else One (\<lambda>x. x = c)) ost_id"

definition conn_uuid_regex :: "string \<Rightarrow> atom list" where
  "conn_uuid_regex ost_id =
     [Plus any_char] @ id_atoms ost_id @ [Plus any_char] @ literal ''ost_conn_uuid='' @
     [GroupBegin, Plus any_char, GroupEnd] @ literal ''@tcp'' @ [Eol]"

section \<open>Parsers\<close>

fun ParseOstsFromGetStripe_lines :: "string list \<Rightarrow> string list \<Rightarrow> string list" where
  "ParseOstsFromGetStripe_lines [] osts = osts"
| "ParseOstsFromGetStripe_lines (line # ls) osts =
     ParseOstsFromGetStripe_lines ls
       (case regex_match getstripe_regex line of
          Some [number] \<Rightarrow> osts @ [number]
        | _ \<Rightarrow> osts)"

definition ParseOstsFromGetStripe :: "string \<Rightarrow> string list \<Rightarrow> string list" where
  "ParseOstsFromGetStripe lfs_out osts = ParseOstsFromGetStripe_lines (getlines lfs_out) osts"

fun ParseOstsFromLfsOsts_lines :: "string list \<Rightarrow> getOstsResults list \<Rightarrow> getOstsResults list" where
  "ParseOstsFromLfsOsts_lines [] out = out"
| "ParseOstsFromLfsOsts_lines (line # ls) out =
     ParseOstsFromLfsOsts_lines ls
       (case regex_match lfs_osts_regex line of
          Some [number, uuid, status] \<Rightarrow>
            out @ [\<lparr>ost_number = number, ost_uuid = uuid, ost_status = status\<rparr>]
        | _ \<Rightarrow> out)"

definition ParseOstsFromLfsOsts :: "string \<Rightarrow> getOstsResults list \<Rightarrow> getOstsResults list" where
  "ParseOstsFromLfsOsts lfs_out out = ParseOstsFromLfsOsts_lines (getlines lfs_out) out"

fun ParseOstIp_lines :: "(string \<Rightarrow> string list option) \<Rightarrow> string list \<Rightarrow> string \<Rightarrow> string" where
  "ParseOstIp_lines matcher [] ip_address = ip_address"
| "ParseOstIp_lines matcher (line # ls) ip_address =
     (case matcher line of
        Some [ip] \<Rightarrow> ip
      | _ \<Rightarrow> ParseOstIp_lines matcher ls ip_address)"

definition ParseOstIpFromGetParamOsc ::
  "(string \<Rightarrow> string \<Rightarrow> string list option) \<Rightarrow> string \<Rightarrow> string \<Rightarrow> string \<Rightarrow> string" where
  "ParseOstIpFromGetParamOsc special to_parse ost_id ip_address =
     ParseOstIp_lines
       (if list_all (\<lambda>c. c \<notin> set special_chars) ost_id
        then regex_match (conn_uuid_regex ost_id) else special ost_id)
       (getlines to_parse) ip_address"

section \<open>The methods\<close>

definition tbf_command :: string where
  "tbf_command = ''lctl set_param ost.OSS.ost_io.nrs_tbf_rule='' @ [CHR 0x22]"

definition StartJobTbfRule ::
  "'w popen \<Rightarrow> 'w \<Rightarrow> string \<Rightarrow> string \<Rightarrow> u32 \<Rightarrow> bool \<times> 'w" where
  "StartJobTbfRule popen w jobid rule rpc_rate_limit =
     (let cmd = tbf_command @ ''start '' @ rule @ '' {'' @ jobid @ ''} '' @
            to_string rpc_rate_limit @ [CHR 0x22]
      in case exec popen w cmd [] of (ok, out, w') \<Rightarrow> if \<not> ok then (False, w') else (True, w'))"

definition ChangeJobTbfRule ::
  "'w popen \<Rightarrow> 'w \<Rightarrow> string \<Rightarrow> string \<Rightarrow> u32 \<Rightarrow> bool \<times> 'w" where
  "ChangeJobTbfRule popen w jobid rule new_rpc_rate_limit =
     (let cmd = tbf_command @ ''change '' @ rule @ '' '' @ to_string new_rpc_rate_limit @ [CHR 0x22]
      in case exec popen w cmd [] of (ok, out, w') \<Rightarrow> if \<not> ok then (False, w') else (True, w'))"

definition StopJobTbfRule :: "'w popen \<Rightarrow> 'w \<Rightarrow> string \<Rightarrow> string \<Rightarrow> bool \<times> 'w" where
  "StopJobTbfRule popen w jobid rule =
     (let cmd = tbf_command @ ''stop '' @ rule @ [CHR 0x22]
      in case exec popen w cmd [] of (ok, out, w') \<Rightarrow> if \<not> ok then (False, w') else (True, w'))"

definition max_rpc_size :: u32 where
  "max_rpc_size = 1"

definition MBsToRPCs :: "u32 \<Rightarrow> u32" where
  "MBsToRPCs mb_per_sec = mb_per_sec div max_rpc_size"

definition RPCsToMBs :: "u32 \<Rightarrow> u32" where
  "RPCsToMBs rpc_per_sec = rpc_per_sec * max_rpc_size"

definition LocalLustre_Init :: "'w \<Rightarrow> bool \<times> 'w" where
  "LocalLustre_Init w = (True, w)"

text \<open>\<open>GetOstsForFile\<close> for one file; \<open>stat\<close> says whether the file exists.\<close>

definition GetOstsForFile ::
  "'w popen \<Rightarrow> ('w \<Rightarrow> string \<Rightarrow> bool) \<Rightarrow> 'w \<Rightarrow> string \<Rightarrow> string list \<Rightarrow> bool \<times> string list \<times> 'w" where
  "GetOstsForFile popen stat w file osts =
     (if \<not> stat w (c_str file) then (False, osts, w)
      else
        (case exec popen w (''lfs getstripe '' @ file) [] of
           (ok, getstripe_out, w') \<Rightarrow>
             if \<not> ok then (False, osts, w')
             else (True, ParseOstsFromGetStripe (c_str getstripe_out) osts, w')))"

text \<open>
  \<open>GetOstsForFile\<close> for a vector of files: the command is built from \<open>osts\<close>, the output
  parameter, not from \<open>files\<close>. \<open>iterate\<close> is the traversal of the \<open>unordered_set\<close> that
  removes duplicates.
\<close>

definition GetOstsForFiles ::
  "'w popen \<Rightarrow> (string set \<Rightarrow> string list) \<Rightarrow> 'w \<Rightarrow> string list \<Rightarrow> string list
    \<Rightarrow> bool \<times> string list \<times> 'w" where
  "GetOstsForFiles popen iterate w files osts =
     (let names = (if osts \<noteq> [] then concat (map (\<lambda>o'. o' @ '' '') osts) else []);
          cmd = ''lfs getstripe '' @ names
      in case exec popen w cmd [] of
           (ok, getstripe_out, w') \<Rightarrow>
             if \<not> ok then (False, osts, w')
             else
               let osts1 = ParseOstsFromGetStripe (c_str getstripe_out) osts
               in (True, iterate (set osts1), w'))"

definition GetOstList ::
  "'w popen \<Rightarrow> 'w \<Rightarrow> string \<Rightarrow> getOstsResults list \<Rightarrow> bool \<times> getOstsResults list \<times> 'w" where
  "GetOstList popen w path output =
     (case exec popen w (''lfs osts '' @ path) [] of
        (ok, cmd_out, w') \<Rightarrow>
          if \<not> ok then (False, output, w')
          else (True, ParseOstsFromLfsOsts cmd_out output, w'))"

text \<open>\<open>ost_uuid.find("_UUID")\<close> and \<open>substr(0, pos)\<close>.\<close>

fun before_UUID :: "string \<Rightarrow> string" where
  "before_UUID s =
     (if take 5 s = ''_UUID'' then []
      else (case s of [] \<Rightarrow> [] | c # s' \<Rightarrow> c # before_UUID s'))"

declare before_UUID.simps [simp del]

definition GetIPOfOst ::
  "'w popen \<Rightarrow> (string \<Rightarrow> string \<Rightarrow> string list option) \<Rightarrow> 'w \<Rightarrow> string \<Rightarrow> string
    \<Rightarrow> bool \<times> string \<times> 'w" where
  "GetIPOfOst popen special w uuid ip_address =
     (let shortened_id = before_UUID uuid;
          cmd = ''lctl get_param osc.'' @ shortened_id @ ''*.ost_conn_uuid''
      in case exec popen w cmd [] of
           (ok, cmd_out, w') \<Rightarrow>
             if \<not> ok then (False, ip_address, w')
             else (True, ParseOstIpFromGetParamOsc special cmd_out shortened_id ip_address, w'))"

definition LocalLustre ::
  "'w popen \<Rightarrow> ('w \<Rightarrow> string \<Rightarrow> bool) \<Rightarrow> (string \<Rightarrow> string \<Rightarrow> string list option) \<Rightarrow> 'w Lustre" where
  "LocalLustre popen stat special =
     \<lparr>lustre_Init = LocalLustre_Init, lustre_MBsToRPCs = MBsToRPCs, lustre_RPCsToMBs = RPCsToMBs,
      lustre_GetOstList = GetOstList popen, lustre_GetOstsForFile = GetOstsForFile popen stat,
      lustre_GetIPOfOst = GetIPOfOst popen special\<rparr>"

section \<open>What the parsers return\<close>

subsection \<open>\<open>lfs osts\<close>\<close>

definition ost_line :: "getOstsResults \<Rightarrow> string" where
  "ost_line r = ost_number r @ '': '' @ ost_uuid r @ '' '' @ ost_status r"

definition uuid_char :: "char \<Rightarrow> bool" where
  "uuid_char c \<longleftrightarrow> c = CHR ''_'' \<or> is_alnum c \<or> c = CHR ''-''"

definition ost_result_ok :: "getOstsResults \<Rightarrow> bool" where
  "ost_result_ok r \<longleftrightarrow>
     ost_number r \<noteq> [] \<and> list_all is_digit (ost_number r) \<and>
     ost_uuid r \<noteq> [] \<and> list_all uuid_char (ost_uuid r) \<and>
     ost_status r \<noteq> [] \<and> list_all is_alnum (ost_status r)"

lemma lfs_osts_regex_line:
  assumes "ost_result_ok r"
  shows "regex_match lfs_osts_regex (ost_line r) = Some [ost_number r, ost_uuid r, ost_status r]"
proof -
  note ok = assms [unfolded ost_result_ok_def list_all_iff]
  let ?third = "[GroupBegin, Plus is_alnum, GroupEnd]"
  let ?second = "[GroupBegin, Plus uuid_char, GroupEnd] @ literal '' '' @ ?third"
  have third: "rx_match ?third None cs (ost_status r) = Some (cs @ [ost_status r])" for cs
    using rx_match_Plus_run [of "ost_status r" is_alnum "[]" "[GroupEnd]" "Some []" cs] ok by simp
  have second: "rx_match ?second None cs (ost_uuid r @ '' '' @ ost_status r) =
      Some (cs @ [ost_uuid r, ost_status r])" for cs
  proof -
    have "rx_match (GroupEnd # literal '' '' @ ?third) (Some (ost_uuid r)) cs ('' '' @ ost_status r) =
        Some (cs @ [ost_uuid r, ost_status r])"
      using third [of "cs @ [ost_uuid r]"]
        rx_match_literal [of "'' ''" ?third "cs @ [ost_uuid r]" "ost_status r"] by simp
    from rx_match_Plus_run [of "ost_uuid r" uuid_char "'' '' @ ost_status r" _ "Some []" cs] this ok
    show ?thesis by (simp add: uuid_char_def is_alnum_def is_digit_def is_alpha_def)
  qed
  have "rx_match (GroupEnd # literal '': '' @ ?second) (Some (ost_number r)) []
      ('': '' @ ost_uuid r @ '' '' @ ost_status r) = Some [ost_number r, ost_uuid r, ost_status r]"
    using second [of "[ost_number r]"]
      rx_match_literal [of "'': ''" ?second "[ost_number r]" "ost_uuid r @ '' '' @ ost_status r"]
    by simp
  from rx_match_Plus_run [of "ost_number r" is_digit "'': '' @ ost_uuid r @ '' '' @ ost_status r" _
      "Some []" "[]"] this ok
  show ?thesis
    by (simp add: regex_match_def lfs_osts_regex_def ost_line_def is_digit_def uuid_char_def [abs_def])
qed

text \<open>
  A reference for the parser: a scan of the line from left to right, without an expression
  and without backtracking.
\<close>

definition scan_ost_line :: "string \<Rightarrow> getOstsResults option" where
  "scan_ost_line line =
     (let number = takeWhile is_digit line; r1 = dropWhile is_digit line;
          uuid = takeWhile uuid_char (drop 2 r1); r2 = dropWhile uuid_char (drop 2 r1);
          status = drop 1 r2
      in if number \<noteq> [] \<and> take 2 r1 = '': '' \<and> uuid \<noteq> [] \<and> take 1 r2 = '' '' \<and>
            status \<noteq> [] \<and> list_all is_alnum status
         then Some \<lparr>ost_number = number, ost_uuid = uuid, ost_status = status\<rparr> else None)"

lemma class_ends [simp]:
  "\<not> is_digit (CHR '':'')" "\<not> uuid_char (CHR '' '')" "\<not> is_digit (CHR '' '')"
  by (simp_all add: is_digit_def uuid_char_def is_alnum_def is_alpha_def)

lemma dropWhile_all: "list_all P s \<Longrightarrow> takeWhile P s = s \<and> dropWhile P s = []"
  by (auto simp: list_all_iff)

lemma third_group_scan:
  "rx_match [GroupBegin, Plus is_alnum, GroupEnd] None captures s =
     (if s \<noteq> [] \<and> list_all is_alnum s then Some (captures @ [s]) else None)"
proof (cases "list_all is_alnum s")
  case True
  then have "takeWhile is_alnum s = s" "dropWhile is_alnum s = []" by (simp_all add: dropWhile_all)
  with True rx_match_Plus_scan [of is_alnum "[GroupEnd]" "Some []" captures s] show ?thesis by simp
next
  case False
  then show ?thesis by (auto simp: list_all_iff rx_match_Plus_scan)
qed

lemma regex_match_lfs_osts_scan:
  "regex_match lfs_osts_regex line =
     map_option (\<lambda>r. [ost_number r, ost_uuid r, ost_status r]) (scan_ost_line line)"
proof -
  define third where "third = [GroupBegin, Plus is_alnum, GroupEnd]"
  let ?second = "[GroupBegin, Plus uuid_char, GroupEnd] @ literal '' '' @ third"
  have third: "rx_match third None cs s =
      (if s \<noteq> [] \<and> list_all is_alnum s then Some (cs @ [s]) else None)" for cs s
    unfolding third_def by (rule third_group_scan)
  have second: "rx_match ?second None cs s =
     (if takeWhile uuid_char s \<noteq> [] \<and> take 1 (dropWhile uuid_char s) = '' '' \<and>
         drop 1 (dropWhile uuid_char s) \<noteq> [] \<and> list_all is_alnum (drop 1 (dropWhile uuid_char s))
      then Some (cs @ [takeWhile uuid_char s, drop 1 (dropWhile uuid_char s)]) else None)" for cs s
  proof -
    have "starts_outside uuid_char (GroupEnd # literal '' '' @ third)"
      by (simp add: literal_def) (rule starts_outside_GroupEnd, rule starts_outside_One, auto)
    from rx_match_Plus_scan [OF this, of "Some []" cs s] show ?thesis
      using rx_match_literal_cases [of "'' ''" third "cs @ [takeWhile uuid_char s]" "dropWhile uuid_char s"]
      by (simp add: third)
  qed
  have digits: "starts_outside is_digit (GroupEnd # literal '': '' @ ?second)"
    by (simp add: literal_def) (rule starts_outside_GroupEnd, rule starts_outside_One, auto)
  have eq: "lfs_osts_regex = GroupBegin # Plus is_digit # GroupEnd # literal '': '' @ ?second"
    by (simp add: lfs_osts_regex_def third_def uuid_char_def [abs_def])
  have "regex_match lfs_osts_regex line =
     (if takeWhile is_digit line = [] then None
      else rx_match (literal '': '' @ ?second) None [takeWhile is_digit line] (dropWhile is_digit line))"
    using rx_match_Plus_scan [OF digits, of "Some []" "[]" line]
    by (simp add: regex_match_def eq)
  also have "\<dots> = map_option (\<lambda>r. [ost_number r, ost_uuid r, ost_status r]) (scan_ost_line line)"
    unfolding rx_match_literal_cases second by (simp add: scan_ost_line_def Let_def numeral_2_eq_2)
  finally show ?thesis .
qed

text \<open>The scan accepts exactly the well-formed lines.\<close>

lemma scan_ost_line_iff: "scan_ost_line line = Some r \<longleftrightarrow> ost_result_ok r \<and> line = ost_line r"
proof
  assume ok: "ost_result_ok r \<and> line = ost_line r"
  then have "regex_match lfs_osts_regex line = Some [ost_number r, ost_uuid r, ost_status r]"
    using lfs_osts_regex_line by blast
  then obtain r' where "scan_ost_line line = Some r'" "ost_number r' = ost_number r"
    "ost_uuid r' = ost_uuid r" "ost_status r' = ost_status r"
    by (auto simp: regex_match_lfs_osts_scan)
  then show "scan_ost_line line = Some r" by simp
next
  assume some: "scan_ost_line line = Some r"
  let ?r1 = "dropWhile is_digit line"
  let ?r2 = "dropWhile uuid_char (drop 2 ?r1)"
  from some have r: "ost_number r = takeWhile is_digit line" "ost_uuid r = takeWhile uuid_char (drop 2 ?r1)"
    "ost_status r = drop 1 ?r2" "takeWhile is_digit line \<noteq> []" "take 2 ?r1 = '': ''"
    "takeWhile uuid_char (drop 2 ?r1) \<noteq> []" "take 1 ?r2 = '' ''" "drop 1 ?r2 \<noteq> []"
    "list_all is_alnum (drop 1 ?r2)"
    by (auto simp: scan_ost_line_def Let_def split: if_splits)
  have all: "list_all P (takeWhile P s)" for P :: "char \<Rightarrow> bool" and s
    by (auto simp: list_all_iff dest: set_takeWhileD)
  have "?r2 = '' '' @ drop 1 ?r2" using r(7) by (metis append_take_drop_id)
  moreover have "?r1 = '': '' @ drop 2 ?r1" using r(5) by (metis append_take_drop_id)
  ultimately have "line = ost_line r"
    unfolding ost_line_def r(1-3) by (metis takeWhile_dropWhile_id)
  then show "ost_result_ok r \<and> line = ost_line r" using r all by (simp add: ost_result_ok_def)
qed

lemma ParseOstsFromLfsOsts_scan:
  "ParseOstsFromLfsOsts lfs_out out = out @ List.map_filter scan_ost_line (getlines lfs_out)"
proof -
  have "ParseOstsFromLfsOsts_lines ls out = out @ List.map_filter scan_ost_line ls" for ls
    by (induction ls arbitrary: out)
      (auto simp: regex_match_lfs_osts_scan split: option.split)
  then show ?thesis by (simp add: ParseOstsFromLfsOsts_def)
qed

lemma ost_line_no_newline:
  assumes "ost_result_ok r"
  shows "CHR 0x0A \<notin> set (ost_line r)"
proof -
  have "\<not> uuid_char (CHR 0x0A)" "\<not> is_alnum (CHR 0x0A)" "\<not> is_digit (CHR 0x0A)"
    by (simp_all add: uuid_char_def is_alnum_def is_digit_def is_alpha_def)
  with assms show ?thesis by (auto simp: ost_result_ok_def ost_line_def list_all_iff)
qed

lemma ost_line_no_zero:
  assumes "ost_result_ok r"
  shows "CHR 0x00 \<notin> set (ost_line r)"
proof -
  have "\<not> uuid_char (CHR 0x00)" "\<not> is_alnum (CHR 0x00)" "\<not> is_digit (CHR 0x00)"
    by (simp_all add: uuid_char_def is_alnum_def is_digit_def is_alpha_def)
  with assms show ?thesis by (auto simp: ost_result_ok_def ost_line_def list_all_iff)
qed

lemma ParseOstsFromLfsOsts_ok:
  assumes "\<forall>r \<in> set rs. ost_result_ok r"
  shows "ParseOstsFromLfsOsts (concat (map (\<lambda>r. ost_line r @ [CHR 0x0A]) rs)) out = out @ rs"
proof -
  have "getlines (concat (map (\<lambda>l. l @ [CHR 0x0A]) (map ost_line rs))) = map ost_line rs"
    using assms ost_line_no_newline by (intro getlines_unlines) auto
  then have "getlines (concat (map (\<lambda>r. ost_line r @ [CHR 0x0A]) rs)) = map ost_line rs"
    by (simp add: comp_def)
  moreover have "ParseOstsFromLfsOsts_lines (map ost_line rs) out = out @ rs"
    using assms by (induction rs arbitrary: out) (simp_all add: lfs_osts_regex_line)
  ultimately show ?thesis by (simp add: ParseOstsFromLfsOsts_def)
qed

subsection \<open>\<open>lfs getstripe\<close>\<close>

definition field_char :: "char \<Rightarrow> bool" where
  "field_char c \<longleftrightarrow> any_char c \<and> c \<noteq> TAB"

definition stripe_line :: "string \<Rightarrow> string \<Rightarrow> string \<Rightarrow> string \<Rightarrow> string" where
  "stripe_line obdidx objid objid_hex grp =
     TAB # obdidx @ TAB # objid @ TAB # objid_hex @ TAB # grp"

text \<open>
  The expression's first \<open>.+\<close> is greedy: of the index it leaves the group the last digit.
\<close>

lemma getstripe_regex_last_digit:
  assumes a: "a \<noteq> []" "list_all field_char a" and d: "is_digit d"
    and b: "b \<noteq> []" "list_all field_char b" and c: "c \<noteq> []" "list_all field_char c"
    and e: "list_all field_char e"
  shows "regex_match getstripe_regex (stripe_line (a @ [d]) b c e) = Some [[d]]"
proof -
  let ?r3 = "[Plus any_char] @ literal [TAB] @ [Many any_char]"
  let ?r2 = "[Plus any_char] @ literal [TAB] @ ?r3"
  let ?r1 = "[GroupBegin, Plus is_digit, GroupEnd] @ literal [TAB] @ ?r2"
  let ?rest = "b @ TAB # c @ TAB # e"
  have any: "\<forall>x \<in> set l. any_char x" if "list_all field_char l" for l
    using that by (auto simp: list_all_iff field_char_def)
  have tabs: "count_list l TAB = 0" if "list_all field_char l" for l
    using that by (auto simp: list_all_iff field_char_def count_list_0_iff)
  have r3: "rx_match ?r3 None [[d]] (c @ TAB # e) \<noteq> None"
  proof -
    have "rx_match [Many any_char] None [[d]] e \<noteq> None"
      using rx_match_Many_run [of e any_char "[]" "[]" None "[[d]]" "[[d]]"] any [OF e] by simp
    then have "rx_match (literal [TAB] @ [Many any_char]) None [[d]] (TAB # e) \<noteq> None"
      by (simp add: literal_def)
    from rx_match_Plus_some [OF c(1) any [OF c(2)] this] show ?thesis by simp
  qed
  have r2: "rx_match ?r2 None [[d]] ?rest \<noteq> None"
  proof -
    have "rx_match (literal [TAB] @ ?r3) None [[d]] (TAB # c @ TAB # e) \<noteq> None"
      using r3 by (simp add: literal_def)
    from rx_match_Plus_some [OF b(1) any [OF b(2)] this] show ?thesis by simp
  qed
  then have "rx_match ?r2 None [[d]] ?rest = Some [[d]]"
    using rx_match_captures [of ?r2 "[[d]]" ?rest] by (auto simp: literal_def)
  moreover have "\<not> is_digit TAB" "any_char TAB" by (simp_all add: is_digit_def TAB_def any_char_def)
  ultimately have hit: "rx_match ?r1 None [] (d # TAB # ?rest) = Some [[d]]"
    using d by (simp add: literal_def)
  have miss: "rx_match (Many any_char # ?r1) None [] (TAB # ?rest) = None"
  proof -
    have "rx_match (Many any_char # ?r1) None [] ?rest = None"
    proof (rule ccontr)
      assume "\<not> ?thesis"
      then obtain m where "rx_match (Many any_char # ?r1) None [] ?rest = Some m" by blast
      from rx_match_needs [OF this, of TAB] show False
        using tabs [OF b(2)] tabs [OF c(2)] tabs [OF e] by (simp add: literal_def)
    qed
    with \<open>\<not> is_digit TAB\<close> \<open>any_char TAB\<close> show ?thesis by simp
  qed
  have "any_char d" using d by (auto simp: any_char_def is_digit_def)
  with hit miss have "rx_match (Many any_char # ?r1) None [] (d # TAB # ?rest) = Some [[d]]" by simp
  then have "rx_match (Many any_char # ?r1) None [] (tl a @ d # TAB # ?rest) = Some [[d]]"
    using any [OF a(2)] a(1) by (intro rx_match_Many_prefix) (auto dest: list.set_sel(2))
  moreover have "any_char (hd a)" using any [OF a(2)] a(1) by simp
  ultimately have "rx_match (Plus any_char # ?r1) None [] (a @ d # TAB # ?rest) = Some [[d]]"
    using a(1) by (cases a) auto
  then show ?thesis
    by (simp add: regex_match_def getstripe_regex_def stripe_line_def literal_def)
qed

text \<open>A whole output: one line per stripe, each with its four fields.\<close>

definition stripe_text :: "string \<times> string \<times> string \<times> string \<Rightarrow> string" where
  "stripe_text s = (case s of (obdidx, objid, objid_hex, grp) \<Rightarrow> stripe_line obdidx objid objid_hex grp)"

definition stripe_field :: "string \<Rightarrow> bool" where
  "stripe_field f \<longleftrightarrow> list_all field_char f \<and> CHR 0x00 \<notin> set f"

definition stripe_ok :: "string \<times> string \<times> string \<times> string \<Rightarrow> bool" where
  "stripe_ok s = (case s of (obdidx, objid, objid_hex, grp) \<Rightarrow>
     2 \<le> length obdidx \<and> is_digit (last obdidx) \<and> objid \<noteq> [] \<and> objid_hex \<noteq> [] \<and>
     stripe_field obdidx \<and> stripe_field objid \<and> stripe_field objid_hex \<and> stripe_field grp)"

lemma stripe_field_newline: "stripe_field f \<Longrightarrow> CHR 0x0A \<notin> set f"
  by (auto simp: stripe_field_def list_all_iff field_char_def any_char_def)

lemma stripe_text_chars:
  assumes "stripe_ok s"
  shows "CHR 0x00 \<notin> set (stripe_text s)" and "CHR 0x0A \<notin> set (stripe_text s)"
proof -
  obtain i b c e where s: "s = (i, b, c, e)" by (cases s) auto
  then have f: "stripe_field i" "stripe_field b" "stripe_field c" "stripe_field e"
    using assms by (simp_all add: stripe_ok_def)
  then show "CHR 0x0A \<notin> set (stripe_text s)"
    using f [THEN stripe_field_newline] by (simp add: s stripe_text_def stripe_line_def TAB_def)
  from f show "CHR 0x00 \<notin> set (stripe_text s)"
    by (simp add: s stripe_text_def stripe_line_def TAB_def stripe_field_def)
qed

lemma getstripe_regex_stripe:
  assumes "stripe_ok s"
  shows "regex_match getstripe_regex (stripe_text s) = Some [[last (fst s)]]"
proof -
  obtain i b c e where s: "s = (i, b, c, e)" by (cases s) auto
  have ok: "2 \<le> length i" "is_digit (last i)" "b \<noteq> []" "c \<noteq> []"
    "list_all field_char i" "list_all field_char b" "list_all field_char c" "list_all field_char e"
    using assms unfolding s stripe_ok_def stripe_field_def prod.case by blast+
  have "length (butlast i) \<noteq> 0" using ok(1) by simp
  then have "butlast i \<noteq> []" by blast
  moreover have "list_all field_char (butlast i)" using ok(5) by (auto simp: list_all_iff dest: in_set_butlastD)
  ultimately have "regex_match getstripe_regex (stripe_line (butlast i @ [last i]) b c e) = Some [[last i]]"
    using ok by (intro getstripe_regex_last_digit) auto
  moreover have "butlast i @ [last i] = i" using ok(1) by (intro append_butlast_last_id) auto
  ultimately show ?thesis by (simp add: s stripe_text_def)
qed

lemma ParseOstsFromGetStripe_stripes:
  assumes "\<forall>s \<in> set stripes. stripe_ok s"
  shows "ParseOstsFromGetStripe (concat (map (\<lambda>s. stripe_text s @ [CHR 0x0A]) stripes)) osts =
    osts @ map (\<lambda>s. [last (fst s)]) stripes"
proof -
  have "getlines (concat (map (\<lambda>l. l @ [CHR 0x0A]) (map stripe_text stripes))) = map stripe_text stripes"
    using assms stripe_text_chars(2) by (intro getlines_unlines) auto
  then have "getlines (concat (map (\<lambda>s. stripe_text s @ [CHR 0x0A]) stripes)) = map stripe_text stripes"
    by (simp add: comp_def)
  moreover have "ParseOstsFromGetStripe_lines (map stripe_text stripes) osts =
      osts @ map (\<lambda>s. [last (fst s)]) stripes"
    using assms by (induction stripes arbitrary: osts) (simp_all add: getstripe_regex_stripe)
  ultimately show ?thesis by (simp add: ParseOstsFromGetStripe_def)
qed

end
