(* ===== verification/ClusterState.thy ===== *)
theory ClusterState
  imports LustreInterface
begin

text \<open>
  \<open>src/src/common/ClusterState.h/.cpp\<close>: the measured workload of every OST. Each method
  but \<open>UpdateNode\<close> runs under \<open>state_mut_\<close>; the update thread is given by its atomic
  sections \<open>update_thread_enter\<close>, \<open>Update\<close> and \<open>update_thread_leave\<close>.
\<close>

record OSTWorkload =
  ow_ost :: string
  currentRpcSec :: u32
  maxRpcSec :: u32

record MemoryClusterState =
  ost_state_map :: "(string \<times> OSTWorkload) list"
  update_thread_started :: bool
  update_thread_exit_flag :: bool
  update_thread_is_active :: bool

definition default_rpc_rate :: u32 where
  "default_rpc_rate = 500"

definition new_cluster_state :: MemoryClusterState where
  "new_cluster_state =
     \<lparr>ost_state_map = [], update_thread_started = False, update_thread_exit_flag = False,
      update_thread_is_active = False\<rparr>"

definition getOstState ::
  "MemoryClusterState \<Rightarrow> string \<Rightarrow> OSTWorkload \<Rightarrow> bool \<times> OSTWorkload" where
  "getOstState cs ost state =
     (case map_of (ost_state_map cs) ost of
        None \<Rightarrow> (False, state)
      | Some load \<Rightarrow> (True, load))"

definition GetOSTList :: "MemoryClusterState \<Rightarrow> string list" where
  "GetOSTList cs = map (ow_ost \<circ> snd) (ost_state_map cs)"

definition UpdateNode :: "MemoryClusterState \<Rightarrow> string \<Rightarrow> OSTWorkload \<Rightarrow> MemoryClusterState" where
  "UpdateNode cs name node_state =
     cs\<lparr>ost_state_map := smap_put name node_state (ost_state_map cs)\<rparr>"

fun insert_results ::
  "getOstsResults list \<Rightarrow> (string \<times> OSTWorkload) list \<Rightarrow> (string \<times> OSTWorkload) list" where
  "insert_results [] m = m"
| "insert_results (it # r) m =
     insert_results r
       (smap_put (ost_number it)
         \<lparr>ow_ost = ost_uuid it, currentRpcSec = 0, maxRpcSec = default_rpc_rate\<rparr> m)"

definition ClusterState_Update ::
  "'w Lustre \<Rightarrow> MemoryClusterState \<Rightarrow> 'w \<Rightarrow> bool \<times> MemoryClusterState \<times> 'w" where
  "ClusterState_Update lustre cs w =
     (case lustre_GetOstList lustre w [] [] of
        (ok, r, w') \<Rightarrow>
          if \<not> ok then (False, cs, w')
          else (True, cs\<lparr>ost_state_map := insert_results r (ost_state_map cs)\<rparr>, w'))"

definition ClusterState_Init ::
  "'w Lustre \<Rightarrow> MemoryClusterState \<Rightarrow> 'w \<Rightarrow> bool \<times> MemoryClusterState \<times> 'w" where
  "ClusterState_Init lustre cs w =
     (case ClusterState_Update lustre cs w of
        (ok, cs1, w1) \<Rightarrow>
          if \<not> ok then (False, cs1, w1)
          else if \<not> update_thread_started cs1 then (True, cs1\<lparr>update_thread_started := True\<rparr>, w1)
          else (False, cs1, w1))"

text \<open>The first section of \<open>updateRepeatedly\<close>: \<open>False\<close> when the thread returns at once.\<close>

definition update_thread_enter :: "MemoryClusterState \<Rightarrow> bool \<times> MemoryClusterState" where
  "update_thread_enter cs =
     (if update_thread_exit_flag cs then (False, cs)
      else (True, cs\<lparr>update_thread_is_active := True\<rparr>))"

definition update_thread_leave :: "MemoryClusterState \<Rightarrow> MemoryClusterState" where
  "update_thread_leave cs = cs\<lparr>update_thread_is_active := False\<rparr>"

text \<open>
  \<open>updateRepeatedly\<close>: one element of \<open>interference\<close> per turn of the loop, what other
  threads do to the state while the thread sleeps. \<open>None\<close> when the turns run out before
  the exit flag is seen.
\<close>

fun update_turns ::
  "'w Lustre \<Rightarrow> (MemoryClusterState \<Rightarrow> MemoryClusterState) list \<Rightarrow> MemoryClusterState \<Rightarrow> 'w
    \<Rightarrow> (MemoryClusterState \<times> 'w) option" where
  "update_turns lustre interference cs w =
     (if update_thread_exit_flag cs then Some (update_thread_leave cs, w)
      else (case interference of
              [] \<Rightarrow> None
            | f # fs \<Rightarrow>
                (case ClusterState_Update lustre cs w of
                   (ok, cs1, w1) \<Rightarrow> update_turns lustre fs (f cs1) w1)))"

declare update_turns.simps [simp del]

definition updateRepeatedly ::
  "'w Lustre \<Rightarrow> (MemoryClusterState \<Rightarrow> MemoryClusterState) list \<Rightarrow> MemoryClusterState \<Rightarrow> 'w
    \<Rightarrow> (MemoryClusterState \<times> 'w) option" where
  "updateRepeatedly lustre interference cs w =
     (case update_thread_enter cs of
        (go, cs1) \<Rightarrow> if \<not> go then Some (cs1, w) else update_turns lustre interference cs1 w)"

text \<open>\<open>TearDown\<close> sets the flag and then waits until the thread is inactive.\<close>

definition ClusterState_TearDown_signal :: "MemoryClusterState \<Rightarrow> MemoryClusterState" where
  "ClusterState_TearDown_signal cs = cs\<lparr>update_thread_exit_flag := True\<rparr>"

text \<open>The whole call; \<open>thread\<close> is what the update thread still does after the flag is set.\<close>

definition ClusterState_TearDown ::
  "(MemoryClusterState \<Rightarrow> MemoryClusterState option) \<Rightarrow> MemoryClusterState
    \<Rightarrow> (bool \<times> MemoryClusterState) option" where
  "ClusterState_TearDown thread cs =
     (case thread (ClusterState_TearDown_signal cs) of
        None \<Rightarrow> None
      | Some cs1 \<Rightarrow> if \<not> update_thread_is_active cs1 then Some (True, cs1) else None)"

section \<open>Lemmas\<close>

lemma getOstState_UpdateNode:
  "getOstState (UpdateNode cs name load) ost st =
     (if ost = name then (True, load) else getOstState cs ost st)"
  by (simp add: getOstState_def UpdateNode_def smap_simps)

lemma map_of_insert_results:
  "map_of (insert_results r m) k =
     (case map_of (rev (map (\<lambda>it. (ost_number it, ost_uuid it)) r)) k of
        None \<Rightarrow> map_of m k
      | Some uuid \<Rightarrow> Some \<lparr>ow_ost = uuid, currentRpcSec = 0, maxRpcSec = default_rpc_rate\<rparr>)"
  by (induction r arbitrary: m) (auto simp: smap_simps map_add_def split: option.splits)

lemma smap_ok_insert_results: "smap_ok m \<Longrightarrow> smap_ok (insert_results r m)"
  by (induction r arbitrary: m) (auto intro: smap.ok_put)

lemma update_turns_flags:
  "update_turns lustre fs cs w = Some (cs', w') \<Longrightarrow> \<not> update_thread_is_active cs'"
  by (induction lustre fs cs w rule: update_turns.induct)
    (auto simp: update_turns.simps [of _ _ cs w for cs w] update_thread_leave_def
      split: if_splits list.splits prod.splits)

lemma updateRepeatedly_inactive:
  assumes "\<not> update_thread_is_active cs" and "updateRepeatedly lustre fs cs w = Some (cs', w')"
  shows "\<not> update_thread_is_active cs'"
  using assms by (auto simp: updateRepeatedly_def update_thread_enter_def
      split: if_splits dest: update_turns_flags)

end
