(* ===== verification/JobSchedulerDynWorkloads.thy ===== *)
theory JobSchedulerDynWorkloads
  imports JobScheduler ClusterState
begin

text \<open>
  \<open>src/src/common/JobSchedulerDynWorkloads.h/.cpp\<close>: the scheduler that compares a job with
  the RPC rates of the cluster state. It has the load function of the static scheduler,
  with the same out parameter that stays unwritten (\<open>uninit\<close>), and it stores the job in
  the state the caller gave it, without setting it to \<open>SCHEDULED\<close>.
\<close>

definition no_workload :: OSTWorkload where
  "no_workload = \<lparr>ow_ost = [], currentRpcSec = 0, maxRpcSec = 0\<rparr>"

definition Dyn_GetMaxLoadInTimeInterval ::
  "MemoryClusterState \<Rightarrow> MemoryScheduleState \<Rightarrow> string \<Rightarrow> time_point \<Rightarrow> time_point \<Rightarrow> u32
    \<Rightarrow> (bool \<times> u32) option" where
  "Dyn_GetMaxLoadInTimeInterval cs s ost start fin maxLoadMBSec =
     (case getOstState cs ost no_workload of
        (known, node_state) \<Rightarrow>
          if \<not> known then Some (False, maxLoadMBSec)
          else (case GetOSTState s ost of
                  None \<Rightarrow> Some (True, 0)
                | Some job_list \<Rightarrow>
                    do { max_load_mb_sec \<leftarrow> sum_load (ms_heap s) start fin job_list 0;
                         Some (True, maxLoadMBSec) }))"

definition Dyn_AreEnoughResAvail :: "'w Lustre \<Rightarrow> Job \<Rightarrow> u32 \<Rightarrow> OSTWorkload \<Rightarrow> bool" where
  "Dyn_AreEnoughResAvail lustre job max_ost_mb_sec node_state \<longleftrightarrow>
     max_ost_mb_sec + job_throughput job \<le> lustre_RPCsToMBs lustre (maxRpcSec node_state)"

fun Dyn_check_osts ::
  "'w Lustre \<Rightarrow> MemoryClusterState \<Rightarrow> (nat \<Rightarrow> u32) \<Rightarrow> MemoryScheduleState \<Rightarrow> Job \<Rightarrow> nat
    \<Rightarrow> string list \<Rightarrow> bool option" where
  "Dyn_check_osts lustre cs uninit s job n [] = Some True"
| "Dyn_check_osts lustre cs uninit s job n (ost # osts) =
     do {
       (ok, max_ost_mb_sec) \<leftarrow>
         Dyn_GetMaxLoadInTimeInterval cs s ost (job_tstart job) (job_tend job) (uninit n);
       if \<not> ok then Some False
       else (case getOstState cs ost no_workload of
               (known, node_state) \<Rightarrow>
                 if \<not> known then Some False
                 else if \<not> Dyn_AreEnoughResAvail lustre job max_ost_mb_sec node_state then Some False
                 else Dyn_check_osts lustre cs uninit s job (Suc n) osts)
     }"

definition Dyn_ScheduleJob ::
  "'w Lustre \<Rightarrow> MemoryClusterState \<Rightarrow> (nat \<Rightarrow> u32) \<Rightarrow> 'w Monitor \<Rightarrow> Job
    \<Rightarrow> (bool \<times> Job \<times> 'w Monitor) option" where
  "Dyn_ScheduleJob lustre cs uninit m job =
     do {
       enough \<leftarrow> Dyn_check_osts lustre cs uninit (mon_schedule m) job 0 (job_osts job);
       if \<not> enough then Some (False, job, m)
       else do { (ok, m') \<leftarrow> add_and_register m job; Some (ok, job, m') }
     }"

definition Dyn_RemoveJob :: "'w Env \<Rightarrow> 'w Monitor \<Rightarrow> string \<Rightarrow> (bool \<times> 'w Monitor) option" where
  "Dyn_RemoveJob env m jobid = scheduler_RemoveJob env m jobid"

definition Dyn_Init :: "bool \<Rightarrow> bool \<Rightarrow> bool \<Rightarrow> bool" where
  "Dyn_Init schedule_set job_monitor_set lustre_set =
     (if \<not> schedule_set \<or> \<not> job_monitor_set \<or> \<not> lustre_set then False else True)"

definition Dyn_Teardown :: "'w Monitor \<Rightarrow> bool \<times> 'w Monitor" where
  "Dyn_Teardown m = (True, m)"

section \<open>Lemmas\<close>

lemma Dyn_GetMaxLoad_value:
  assumes "wf_state s"
  shows "Dyn_GetMaxLoadInTimeInterval cs s ost start fin out =
    Some (map_of (ost_state_map cs) ost \<noteq> None,
      if map_of (ost_state_map cs) ost \<noteq> None \<and> GetOSTState s ost = None then 0 else out)"
  using GetOSTState_allocated [OF assms]
  by (auto simp: Dyn_GetMaxLoadInTimeInterval_def getOstState_def sum_load_value split: option.split)

lemma Dyn_check_osts_value:
  "wf_state s \<Longrightarrow> Dyn_check_osts lustre cs uninit s job n osts = Some
     (\<forall>i<length osts. \<exists>load. map_of (ost_state_map cs) (osts ! i) = Some load \<and>
        Dyn_AreEnoughResAvail lustre job
          (if GetOSTState s (osts ! i) = None then 0 else uninit (n + i)) load)"
proof (induction osts arbitrary: n)
  case (Cons ost osts)
  then show ?case
    by (cases "map_of (ost_state_map cs) ost")
      (simp_all add: Dyn_GetMaxLoad_value getOstState_def All_less_Suc2)
qed simp

lemma Dyn_ScheduleJob_law:
  assumes wf: "mwf m"
  shows "\<exists>b j' m'. Dyn_ScheduleJob lustre cs uninit m j = Some (b, j', m') \<and> mwf m' \<and> frame m m' \<and>
    mon_rules m' = mon_rules m \<and> mon_world m' = mon_world m \<and>
    (if b then mjobs m (job_id j) = None \<and> mjobs m' = (mjobs m)(job_id j \<mapsto> j) \<and>
       mitems m' = add_mset (start_item (job_id j) j) (mitems m)
     else mjobs m' = mjobs m \<and> job_priority_queue m' = job_priority_queue m)"
proof (cases "Dyn_check_osts lustre cs uninit (mon_schedule m) j 0 (job_osts j) = Some True")
  case True
  with add_and_register_spec [OF wf, of j] show ?thesis
    by (auto simp: Dyn_ScheduleJob_def split: if_splits)
next
  case False
  with Dyn_check_osts_value [OF wf, of lustre cs uninit j 0 "job_osts j"] wf show ?thesis
    by (intro exI [of _ False] exI [of _ j] exI [of _ m]) (simp add: Dyn_ScheduleJob_def)
qed

interpretation dyn: job_scheduler "Dyn_ScheduleJob lustre cs uninit" Dyn_RemoveJob "\<lambda>j. j"
  for lustre :: "'w Lustre" and cs uninit
proof unfold_locales
  fix m :: "'w Monitor" and j assume "mwf m"
  then show "\<exists>b j' m'. Dyn_ScheduleJob lustre cs uninit m j = Some (b, j', m') \<and> mwf m' \<and> frame m m' \<and>
    mon_rules m' = mon_rules m \<and> mon_world m' = mon_world m \<and>
    (if b then mjobs m (job_id j) = None \<and> mjobs m' = (mjobs m)(job_id j \<mapsto> j) \<and>
       mitems m' = add_mset (start_item (job_id j) j) (mitems m)
     else mjobs m' = mjobs m \<and> job_priority_queue m' = job_priority_queue m)"
    by (rule Dyn_ScheduleJob_law)
next
  fix m :: "'w Monitor" and env k assume "mwf m" and "k \<notin> in_flight_jobs m"
  then show "\<exists>m'. Dyn_RemoveJob env m k = Some (mjobs m k \<noteq> None, m') \<and> mwf m' \<and> frame m m' \<and>
    mjobs m' = (mjobs m)(k := None) \<and>
    job_priority_queue m' = (if mjobs m k = None then job_priority_queue m
      else snd (Remove (job_priority_queue m) k)) \<and>
    mrules m' = (if is_active m k then (mrules m)(k := None) else mrules m)"
    unfolding Dyn_RemoveJob_def by (rule scheduler_RemoveJob_spec)
qed

text \<open>A job of this scheduler never starts: \<open>StartJob\<close> wants \<open>SCHEDULED\<close>.\<close>

lemma Dyn_job_never_starts:
  assumes "mwf m" and "Dyn_ScheduleJob lustre cs uninit m j = Some (True, j', m')"
    and "job_state j = INITIALIZED"
  shows "StartJob env m' (job_id j) = Some (False, m')"
  using dyn.accepted [OF assms(1,2)] assms(3) by (intro StartJob_refuses) auto

end
