(* ===== verification/Examples.thy ===== *)
theory Examples
  imports Mains AsyncRules MonitorRaces LocalLustre JobSchedulerDynWorkloads
begin

text \<open>
  Concrete states and environments, built with the model's own operations, at which the
  properties of the root theory are instantiated. \<open>demo_env\<close> of \<open>MonitorRaces\<close> is the
  environment: one OST on one OSS, every command succeeds.
\<close>

definition demo_limits :: limits where
  "demo_limits = [''0'' \<mapsto> 100]"

definition demo_initialized_job :: "string \<Rightarrow> time_point \<Rightarrow> time_point \<Rightarrow> Job" where
  "demo_initialized_job jobid tstart tend = (new_job jobid tstart tend 5)\<lparr>job_osts := [''0'']\<rparr>"

definition demo_empty :: "unit Monitor" where
  "demo_empty = new_monitor empty_state empty_rules ()"

text \<open>The monitor after job \<open>a\<close> was accepted: its start event is queued.\<close>

definition demo_monitor :: "unit Monitor" where
  "demo_monitor = snd (the (add_and_register demo_empty (demo_job ''a'' 10 20)))"

lemma mon_inv_demo_empty: "mon_inv demo_empty"
  unfolding demo_empty_def by (rule mon_inv_new)

lemma demo_enough:
  "Static_AreEnoughResAvail demo_limits (demo_initialized_job ''a'' s e) ''0'' 0"
  using AreEnoughResAvail_exact [of demo_limits "''0''" 100 0 "demo_initialized_job ''a'' s e"]
  by (simp add: demo_limits_def demo_initialized_job_def new_job_def)

lemma demo_scheduled:
  "Static_ScheduleJob demo_limits (\<lambda>n. 0) demo_empty (demo_initialized_job ''a'' 10 20) =
   Some (True, demo_job ''a'' 10 20, demo_monitor)"
proof -
  let ?j = "demo_initialized_job ''a'' 10 20"
  have job: "?j\<lparr>job_state := SCHEDULED\<rparr> = demo_job ''a'' 10 20"
    by (simp add: demo_initialized_job_def demo_job_def new_job_def)
  have "Static_check_osts demo_limits (\<lambda>n. 0) (mon_schedule demo_empty) ?j 0 (job_osts ?j) = Some True"
    using Static_check_osts_value [OF mon_invD(1) [OF mon_inv_demo_empty], of demo_limits "\<lambda>n. 0" ?j 0
        "job_osts ?j"] demo_enough [of 10 20]
    by (simp add: demo_initialized_job_def)
  moreover obtain m where m: "add_and_register demo_empty (demo_job ''a'' 10 20) = Some (True, m)"
    using add_and_register_spec [OF mon_invD(1) [OF mon_inv_demo_empty], of "demo_job ''a'' 10 20"]
    by (auto simp: demo_empty_def new_monitor_def)
  ultimately show ?thesis
    by (simp add: Static_ScheduleJob_def job demo_monitor_def)
qed

lemma mon_inv_demo_monitor: "mon_inv demo_monitor"
  using schedule_inv [OF mon_inv_demo_empty demo_scheduled] .

text \<open>The queue of that state, and the state after its start event was handled.\<close>

definition start_a :: WaitingItem where
  "start_a = \<lparr>wi_jobid = ''a'', time_of_event = 10, eventType = JOBSTART\<rparr>"

definition stop_a :: WaitingItem where
  "stop_a = \<lparr>wi_jobid = ''a'', time_of_event = 20, eventType = JOBSTOP\<rparr>"

lemma demo_queue: "job_priority_queue demo_monitor = [start_a]"
  by code_simp

lemma demo_pop: "Pop (job_priority_queue demo_monitor) = (Some start_a, [])"
  by code_simp

definition demo_active :: "unit Monitor" where
  "demo_active =
     (case Handle demo_env (demo_monitor\<lparr>job_priority_queue := []\<rparr>) ''a'' JOBSTART of
        None \<Rightarrow> demo_monitor | Some m \<Rightarrow> m)"

lemma mon_inv_demo_active: "mon_inv demo_active"
  using Handle_inv [OF mon_inv_demo_monitor demo_pop, of demo_env]
  by (auto simp: demo_active_def start_a_def)

lemma demo_active_pop: "Pop (job_priority_queue demo_active) = (Some stop_a, [])"
  by code_simp

text \<open>The planner around it, and requests to it.\<close>

definition demo_planner :: "unit Planner" where
  "demo_planner = \<lparr>pl_monitor = demo_monitor, pl_limits = demo_limits, pl_ost_limits_file = []\<rparr>"

lemma mon_inv_demo_planner: "mon_inv (pl_monitor demo_planner)"
  by (simp add: demo_planner_def mon_inv_demo_monitor)

definition demo_reserve :: Message where
  "demo_reserve = snd (TryBuildReserveMessage ''b'' ''f'' 7 60 default_Message)"

definition demo_remove :: Message where
  "demo_remove = mutable_request (\<lambda>r. snd (Remove_BuildRequest ''a'' default_Request)) default_Message"

definition demo_list :: Message where
  "demo_list = mutable_request (\<lambda>r. snd (List_BuildRequest default_Request)) default_Message"

definition demo_surroundings :: "unit Surroundings" where
  "demo_surroundings =
     \<lparr>sur_env = demo_env, sur_uninit = \<lambda>n. 0, sur_iterate = sorted_list_of_set, sur_now = 1000,
      sur_compile = \<lambda>e. Some (\<lambda>s. True), sur_put_time = \<lambda>t. ''then''\<rparr>"

text \<open>A socket that delivers the given requests and keeps the answers, and a wire format of names.\<close>

definition demo_wire :: "(string list \<times> string list \<times> bool) Wire" where
  "demo_wire =
     \<lparr>wire_recv = \<lambda>(ins, outs, waiting).
        (case ins of [] \<Rightarrow> None | r # rs \<Rightarrow> if waiting then None else Some (r, rs, outs, True)),
      wire_send = \<lambda>(ins, outs, waiting) raw. if waiting then Some (ins, outs @ [raw], False) else None,
      ParseFromString = \<lambda>raw.
        if raw = ''reserve'' then (True, demo_reserve)
        else if raw = ''remove'' then (True, demo_remove)
        else if raw = ''ls'' then (True, demo_list)
        else if raw = ''reply'' then (True, default_Message\<lparr>msg_type := REPLY\<rparr>)
        else (False, default_Message),
      SerializeAsString = \<lambda>msg. ''answer''\<rparr>"

text \<open>The same socket with messages that hold a request of no type.\<close>

definition no_type_wire :: "(string list \<times> string list \<times> bool) Wire" where
  "no_type_wire = demo_wire\<lparr>ParseFromString := \<lambda>raw. (True, mutable_request (\<lambda>r. r) default_Message)\<rparr>"

lemma demo_wire_rep: "rep_socket demo_wire (\<lambda>(ins, outs, waiting). waiting)"
  by (auto simp: rep_socket_def demo_wire_def split: list.splits if_splits)

text \<open>
  A world that is the set of installed rules; the OSS \<open>bad\<close> refuses every rule. Its Lustre
  knows two OSTs, each on an OSS of its own.
\<close>

definition set_setter :: "string \<Rightarrow> (string \<times> string) set RuleSetter" where
  "set_setter bad =
     \<lparr>SetRule = \<lambda>w ip job rule mbs. if ip = bad then (False, w) else (True, insert (ip, rule) w),
      RemoveRule = \<lambda>w ip rule job. (True, w - {(ip, rule)})\<rparr>"

definition set_lustre :: "(string \<times> string) set Lustre" where
  "set_lustre =
     \<lparr>lustre_Init = \<lambda>w. (True, w), lustre_MBsToRPCs = \<lambda>x. x, lustre_RPCsToMBs = \<lambda>x. x,
      lustre_GetOstList = \<lambda>w path out.
        (True, out @ [\<lparr>ost_number = ''0'', ost_uuid = ''u0'', ost_status = ''ACTIVE''\<rparr>,
                      \<lparr>ost_number = ''1'', ost_uuid = ''u1'', ost_status = ''ACTIVE''\<rparr>], w),
      lustre_GetOstsForFile = \<lambda>w file osts. (True, osts @ [''0''], w),
      lustre_GetIPOfOst = \<lambda>w uuid ip. (True, if uuid = ''u0'' then ''ip0'' else ''ip1'', w)\<rparr>"

lemma set_setter_installs: "installs (set_setter bad) (\<lambda>w. w)"
  by (auto simp: installs_def set_setter_def split: if_splits)

lemma set_lustre_queries: "only_queries set_lustre (\<lambda>w. w)"
  by (auto simp: only_queries_def set_lustre_def)

text \<open>A JSON library: objects and arrays over numbers and strings; it knows one text.\<close>

datatype demo_json = JNum rat | JStr string | JObj "(string \<times> demo_json) list" | JArr "demo_json list"

definition demo_limits_json :: demo_json where
  "demo_limits_json =
     JArr [JObj [(''name'', JStr ''0''), (''max_mbs'', JNum 100)],
           JObj [(''name'', JStr ''1''), (''max_mbs'', JNum 50)]]"

definition demo_json_library :: "demo_json Json" where
  "demo_json_library =
     \<lparr>json_parse = \<lambda>s. if s = ''limits'' then Some demo_limits_json else None,
      json_empty = \<lambda>j. (case j of JObj m \<Rightarrow> m = [] | JArr l \<Rightarrow> l = [] | _ \<Rightarrow> False),
      json_elements = \<lambda>j. (case j of JArr l \<Rightarrow> l | JObj m \<Rightarrow> map snd m | _ \<Rightarrow> [j]),
      json_find = \<lambda>j k. (case j of JObj m \<Rightarrow> map_of m k | _ \<Rightarrow> None),
      json_string = \<lambda>j. (case j of JStr s \<Rightarrow> Some s | _ \<Rightarrow> None),
      json_double = \<lambda>j. (case j of JNum x \<Rightarrow> Some x | _ \<Rightarrow> None)\<rparr>"

text \<open>A \<open>REQ\<close> socket that nobody answers; its world is what was sent.\<close>

definition silent_socket :: "string list ReqSocket" where
  "silent_socket =
     \<lparr>req_reset = \<lambda>w a. Some w, req_send = \<lambda>w s. Some (w @ [s]), req_poll = \<lambda>w. Some (False, w),
      req_recv = \<lambda>w. None\<rparr>"

text \<open>
  A \<open>REQ\<close> socket with the rule server of an OSS behind it: sending makes the server take one
  turn of its loop, and its answer is there to be received.
\<close>

definition served_by :: "'w popen \<Rightarrow> OssWire \<Rightarrow> ('w \<times> string option) ReqSocket" where
  "served_by popen wire =
     \<lparr>req_reset = \<lambda>(w, r) a. Some (w, None),
      req_send = \<lambda>(w, r) raw. (case OSS_Serve_turn popen wire w raw of (answer, w') \<Rightarrow> Some (w', answer)),
      req_poll = \<lambda>(w, r). Some (r \<noteq> None, (w, r)),
      req_recv = \<lambda>(w, r). (case r of None \<Rightarrow> None | Some raw \<Rightarrow> Some (raw, (w, None)))\<rparr>"

text \<open>A wire format for the rule server, one letter per case, and a shell that records commands.\<close>

definition word_text :: "32 word \<Rightarrow> string" where
  "word_text x = map (\<lambda>i. if bit x i then CHR ''1'' else CHR ''0'') [0..<32]"

definition word_of_text :: "string \<Rightarrow> 32 word" where
  "word_of_text s = horner_sum of_bool 2 (map (\<lambda>c. c = CHR ''1'') s)"

lemma word_of_text: "word_of_text (word_text x) = x"
proof -
  have "map (\<lambda>c. c = CHR ''1'') (word_text x) = map (bit x) [0..<32]"
    by (simp add: word_text_def)
  then show ?thesis by (simp add: word_of_text_def horner_sum_bit_eq_take_bit take_bit_word_eq_self)
qed

definition demo_oss_wire :: OssWire where
  "demo_oss_wire =
     \<lparr>oss_parse = \<lambda>s. (True,
        \<lparr>ocm_type = if take 1 s = ''q'' then OSS_REQUEST else OSS_REPLY,
         ocm_rq = if take 1 (drop 1 s) = ''c'' then kCommandRequest (drop 2 s)
           else if take 1 (drop 1 s) = ''a'' then
             kCommandReply \<lparr>ocr_rc = word_of_text (take 32 (drop 2 s)), ocr_return_msg = drop 34 s\<rparr>
           else OSS_RQ_NOT_SET\<rparr>),
      oss_serialize = \<lambda>m. (if ocm_type m = OSS_REQUEST then ''q'' else ''r'') @
        (case ocm_rq m of OSS_RQ_NOT_SET \<Rightarrow> [] | kCommandRequest c \<Rightarrow> ''c'' @ c
         | kCommandReply r \<Rightarrow> ''a'' @ word_text (ocr_rc r) @ ocr_return_msg r)\<rparr>"

lemma demo_oss_wire_ok: "oss_wire_ok demo_oss_wire"
proof -
  have "length (word_text x) = 32" for x by (simp add: word_text_def)
  then have "oss_parse demo_oss_wire (oss_serialize demo_oss_wire m) = (True, m)" if "oss_plain m" for m
    using that by (cases m; cases "ocm_rq m")
      (auto simp: demo_oss_wire_def oss_plain_def word_of_text split: OssRqCase.splits)
  then show ?thesis by (simp add: oss_wire_ok_def)
qed

definition demo_popen :: "string list popen" where
  "demo_popen w cmd = (Some [], w @ [cmd])"

end
