(* ===== verification/MonitorTearDown.thy ===== *)
theory MonitorTearDown
  imports MonitorThreads
begin

text \<open>
  \<open>TearDown\<close> in \<open>src/src/common/JobMonitor.cpp\<close> comes back. Once it has set the exit flag,
  the number of steps both threads together can still take is bounded, whatever the clock
  shows: the monitor's thread may go on handling events that are due, but every event it
  takes leaves the queue, a start event is worth more steps than the stop event it may put
  in, and the thread reads the flag when nothing is due.
\<close>

section \<open>The number of steps left\<close>

text \<open>An event in the queue is worth 20 steps for each unit of its weight.\<close>

fun mon_rank :: "mon_pc \<Rightarrow> nat" where
  "mon_rank MDone = 0"
| "mon_rank MLeave = 1"
| "mon_rank MOuter = 2"
| "mon_rank MEnter = 3"
| "mon_rank MTest = 4"
| "mon_rank (MUnblock k) = 5"
| "mon_rank (MErase k) = 6"
| "mon_rank (MFinish k) = 7"
| "mon_rank (MRemoveRules k) = 8"
| "mon_rank (MPush k t) = 26"
| "mon_rank (MEnd k) = 27"
| "mon_rank (MActivate k) = 28"
| "mon_rank (MSet k mbs osts) = 29"
| "mon_rank (MOsts k mbs) = 30"
| "mon_rank (MRate k) = 31"
| "mon_rank (MSwitch k e) = (case e of JOBSTART \<Rightarrow> 32 | JOBSTOP \<Rightarrow> 9)"
| "mon_rank (MPopped k e) = (case e of JOBSTART \<Rightarrow> 33 | JOBSTOP \<Rightarrow> 10)"

fun tear_rank :: "srv_pc \<Rightarrow> nat" where
  "tear_rank STearWait = 2"
| "tear_rank SJoin = 1"
| "tear_rank _ = 0"

definition steps_left :: "'w threads \<Rightarrow> nat" where
  "steps_left t = (case t of (mp, sp, m) \<Rightarrow> 20 * queue_weight m + mon_rank mp + tear_rank sp)"

lemma pop_or_wait_rank:
  assumes "pop_or_wait now m = Some (mp', m')"
  shows "20 * queue_weight m' + mon_rank mp' < 20 * queue_weight m + mon_rank MTest"
proof (cases "isThereAReadyJob m now")
  case True
  then obtain x q where pop: "Pop (job_priority_queue m) = (Some x, q)"
    using isThereAReadyJob_Pop by blast
  with True assms have "mp' = MPopped (wi_jobid x) (eventType x)" "m' = m\<lparr>job_priority_queue := q\<rparr>"
    by (simp_all add: pop_or_wait_def)
  with mset_Pop [OF pop] show ?thesis
    by (cases "eventType x") (simp_all add: queue_weight_def)
next
  case False
  with assms show ?thesis by (auto simp: pop_or_wait_def)
qed

lemma push_item_weight:
  "queue_weight (push_item k t e m) =
     queue_weight m + (case e of JOBSTART \<Rightarrow> 2 | JOBSTOP \<Rightarrow> 1)"
  by (cases e) (simp_all add: queue_weight_def push_item_def mset_Push)

lemma mon_step_rank:
  assumes "mon_step env now mp m = Some (mp', m')" and "monitor_thread_exit_flag m"
  shows "20 * queue_weight m' + mon_rank mp' < 20 * queue_weight m + mon_rank mp \<and>
    monitor_thread_exit_flag m'"
proof (cases mp)
  case MTest
  with assms(1) have "pop_or_wait now m = Some (mp', m')" by simp
  with pop_or_wait_rank [OF this] pop_or_wait_cases [OF this] MTest assms(2) show ?thesis by auto
next
  case (MSwitch k e)
  with assms show ?thesis by (cases e) (auto split: if_splits)
next
  case (MSet k mbs osts)
  with assms show ?thesis by (auto simp: queue_weight_def split: prod.splits if_splits)
next
  case (MRemoveRules k)
  with assms show ?thesis by (auto simp: queue_weight_def split: prod.splits)
next
  case (MPush k t)
  with assms show ?thesis by (auto simp: push_item_weight) (simp add: push_item_def)
next
  case (MPopped k e)
  with assms show ?thesis by (cases e) (auto simp: BlockJob_def queue_weight_def split: if_splits)
qed (use assms in \<open>auto simp: queue_weight_def Monitor_enter_def Monitor_exit_def UnblockJob_def
    split: if_splits\<close>)

section \<open>Being torn down\<close>

fun tearing :: "srv_pc \<Rightarrow> bool" where
  "tearing STearWait = True"
| "tearing SJoin = True"
| "tearing SDown = True"
| "tearing _ = False"

definition torn :: "'w threads \<Rightarrow> bool" where
  "torn t = (case t of (mp, sp, m) \<Rightarrow> tearing sp \<and> monitor_thread_exit_flag m)"

lemma torn_step:
  assumes "thread_step env t t'" and "torn t"
  shows "torn t' \<and> steps_left t' < steps_left t"
  using assms
proof (induction rule: thread_step.induct)
  case (monitor now mp m mp' m' sp)
  then show ?case using mon_step_rank [of env now mp m mp' m'] by (simp add: torn_def steps_left_def)
next
  case (server sp m sp' m' mp)
  then show ?case by (cases sp) (auto simp: torn_def steps_left_def split: if_splits)
qed (simp_all add: torn_def steps_left_def)

lemma torn_runs:
  "(thread_step env ^^ n) t t' \<Longrightarrow> torn t \<Longrightarrow> torn t' \<and> n + steps_left t' \<le> steps_left t"
proof (induction n arbitrary: t')
  case (Suc n)
  then obtain u where u: "(thread_step env ^^ n) t u" "thread_step env u t'" by auto
  from Suc.IH [OF u(1) Suc.prems(2)] torn_step [OF u(2)] show ?case by auto
qed simp

text \<open>No other step sets the server thread's counter to one of these with the flag unset.\<close>

lemma mon_step_exit_flag:
  "mon_step env now mp m = Some (mp', m') \<Longrightarrow> monitor_thread_exit_flag m \<Longrightarrow> monitor_thread_exit_flag m'"
  using mon_step_rank by blast

lemma thread_step_flag:
  assumes "thread_step env t t'" and "case t of (mp, sp, m) \<Rightarrow> tearing sp \<longrightarrow> monitor_thread_exit_flag m"
  shows "case t' of (mp, sp, m) \<Rightarrow> tearing sp \<longrightarrow> monitor_thread_exit_flag m"
  using assms
proof (induction rule: thread_step.induct)
  case (monitor now mp m mp' m' sp)
  then show ?case by (auto dest: mon_step_exit_flag)
next
  case (server sp m sp' m' mp)
  then show ?case by (cases sp) (auto simp: TearDown_signal_def split: prod.splits if_splits)
qed simp_all

lemma reachable_torn:
  assumes "reachable env w (mp, sp, m)" and "tearing sp"
  shows "torn (mp, sp, m)"
proof -
  have "case t of (mp, sp, m) \<Rightarrow> tearing sp \<longrightarrow> monitor_thread_exit_flag m" if "reachable env w t" for t
    using that unfolding reachable_def
  proof (induction rule: rtranclp_induct)
    case base
    show ?case by (simp add: start_threads_def)
  next
    case (step t t')
    from thread_step_flag [OF step.hyps(2) step.IH] show ?case .
  qed
  from this [OF assms(1)] assms(2) show ?thesis by (simp add: torn_def)
qed

text \<open>Until both threads are done, one of them can step.\<close>

lemma torn_progress:
  assumes inv: "thread_inv (mp, sp, m)" and "torn (mp, sp, m)" and stuck: "\<not> (\<exists>t. thread_step env (mp, sp, m) t)"
  shows "mp = MDone \<and> sp = SDown"
proof -
  note i = inv [unfolded thread_inv_iff]
  have tear: "tearing sp" using assms(2) by (simp add: torn_def)
  then have "srv_holds sp = {}" by (cases sp) auto
  have "mon_step env 0 mp m = None"
  proof (rule ccontr)
    assume "mon_step env 0 mp m \<noteq> None"
    then obtain mp' m' where "mon_step env 0 mp m = Some (mp', m')" by auto
    then have "thread_step env (mp, sp, m) (mp', sp, m')" by (rule thread_step.monitor)
    with stuck show False by blast
  qed
  with mon_step_None [of m env 0 mp] i \<open>srv_holds sp = {}\<close> have mp: "mp = MDone" by auto
  have "sp \<noteq> SJoin"
  proof
    assume "sp = SJoin"
    with mp have "thread_step env (mp, sp, m) (MDone, SDown, m)" using thread_step.join by simp
    with stuck show False by blast
  qed
  moreover have "sp \<noteq> STearWait"
  proof
    assume sp: "sp = STearWait"
    have "\<not> monitor_thread_is_active m" using i mp by blast
    with sp have "srv_step env sp m = Some (SJoin, m)" by (simp add: TearDown_may_return_def)
    then have "thread_step env (mp, sp, m) (mp, SJoin, m)" by (rule thread_step.server)
    with stuck show False by blast
  qed
  ultimately show ?thesis using tear mp by (cases sp) auto
qed

end
