(* ===== verification/EndToEnd.thy ===== *)
theory EndToEnd
  imports Mains MessageCodec
begin

text \<open>
  The client and the server of \<open>src/src/client/\<close> and \<open>src/src/server/\<close> together: a requester
  whose requests the server's loop answers, one turn for each request.
\<close>

text \<open>A socket of the server with at most one message on the way in and one on the way out.\<close>

definition turn_wire :: "MsgWire \<Rightarrow> (string option \<times> string option) Wire" where
  "turn_wire format =
     \<lparr>wire_recv = \<lambda>(inp, out). (case inp of None \<Rightarrow> None | Some raw \<Rightarrow> Some (raw, None, out)),
      wire_send = \<lambda>(inp, out) raw. Some (inp, Some raw),
      ParseFromString = msg_parse format, SerializeAsString = msg_serialize format\<rparr>"

text \<open>The world of the client is the planner and the answer that waits for the client.\<close>

definition server_behind :: "'w Surroundings \<Rightarrow> MsgWire \<Rightarrow> ('w Planner \<times> string option) ReqSocket" where
  "server_behind sur format =
     \<lparr>req_reset = \<lambda>(p, r) addr. Some (p, None),
      req_send = \<lambda>(p, r) raw.
        (case Serve_turn sur (turn_wire format) (p, Some raw, None) of
           Inl f \<Rightarrow> None
         | Inr (p', inp, out) \<Rightarrow> Some (p', out)),
      req_poll = \<lambda>(p, r). Some (r \<noteq> None, p, r),
      req_recv = \<lambda>(p, r). map_option (\<lambda>raw. (raw, p, None)) r\<rparr>"

text \<open>A message that is read back as it was serialized.\<close>

definition readable :: "MsgWire \<Rightarrow> Message \<Rightarrow> bool" where
  "readable format m \<longleftrightarrow> msg_parse format (msg_serialize format m) = (True, m)"

text \<open>
  The format client and server really use: the generated classes over the protocol buffers
  runtime. Every parse returns (\<open>rpc_message.parse_returns\<close>), so there is always a result.
\<close>

definition msg_format :: "WireFormatLite \<Rightarrow> MsgWire" where
  "msg_format lib =
     \<lparr>msg_parse = \<lambda>raw. the (parse_from_string (Message_Merge lib) default_Message raw),
      msg_serialize = \<lambda>m. serialize_as_string (Message_ByteSize lib m) (Message_Serialize lib m)\<rparr>"

lemma msg_format_readable:
  "wire_laws lib \<Longrightarrow> plain_Message m \<Longrightarrow> Message_ByteSize lib m < size_limit \<Longrightarrow>
   readable (msg_format lib) m"
  by (simp add: readable_def msg_format_def rpc_message.parse_serialize)

lemma exchange_with_server:
  assumes "readable format m" and "msg_type m = REQUEST" and "ProcessMessage sur p m = Inr (ok, m', p')"
  shows "SendAndReceiveRequest (server_behind sur format) ipPort (msg_serialize format m) [] (p, r) =
    Some (True, msg_serialize format (finish_reply m'), p', None)"
proof -
  have "Serve_turn sur (turn_wire format) (p, Some (msg_serialize format m), None) =
      Inr (p', None, Some (msg_serialize format (finish_reply m')))"
    using assms by (simp add: Serve_turn_def turn_wire_def readable_def)
  then show ?thesis
    by (simp add: SendAndReceiveRequest_def server_behind_def poll_loop.simps)
qed

text \<open>The request that \<open>client reserve\<close> sends.\<close>

definition reserve_message :: "ClientFlags \<Rightarrow> Message" where
  "reserve_message flags =
     snd (TryBuildReserveMessage (FLAGS_id flags) (FLAGS_filenames flags) (FLAGS_throughput flags)
       (FLAGS_duration flags) default_Message)"

lemma reserve_message_built:
  assumes "0 < sint (FLAGS_duration flags)"
  shows "TryBuildReserveMessage (FLAGS_id flags) (FLAGS_filenames flags) (FLAGS_throughput flags)
    (FLAGS_duration flags) default_Message = (True, reserve_message flags)"
  using assms by (simp add: reserve_message_def TryBuildReserveMessage_def Reserve_BuildRequest_def)

lemma reserve_message_fields:
  assumes "ns \<noteq> []" and "last ns \<noteq> []" and "\<forall>n \<in> set ns. CHR '','' \<notin> set n"
    and "0 < sint (FLAGS_duration flags)" and "FLAGS_filenames flags = comma_join ns"
  shows "msg_type (reserve_message flags) = REQUEST"
    and "req_type (request (reserve_message flags)) = RESERVE"
    and "resourcerequest (request (reserve_message flags)) =
      default_ResourceRequest\<lparr>rr_id := FLAGS_id flags, rr_throughputmb := FLAGS_throughput flags,
        rr_durationsec := scast (FLAGS_duration flags), rr_files := ns\<rparr>"
  using assms(4,5) addFilenames_join [OF assms(1-3)]
  by (simp_all add: reserve_message_def TryBuildReserveMessage_def Reserve_BuildRequest_def
      default_Message_def default_Request_def default_ResourceRequest_def resourcerequest_def
      mutable_resourcerequest_def)

lemma reserve_message_parts:
  assumes "ns \<noteq> []" and "last ns \<noteq> []" and "\<forall>n \<in> set ns. CHR '','' \<notin> set n"
    and "0 < sint (FLAGS_duration flags)" and "FLAGS_filenames flags = comma_join ns"
  shows "reserve_message flags =
    \<lparr>msg_type = REQUEST, msg_rq = kRequest \<lparr>req_type = RESERVE, req_rt = kResourceRequest
      (default_ResourceRequest\<lparr>rr_id := FLAGS_id flags, rr_throughputmb := FLAGS_throughput flags,
        rr_durationsec := scast (FLAGS_duration flags), rr_files := ns\<rparr>)\<rparr>\<rparr>"
proof -
  let ?m = "reserve_message flags"
  have "msg_rq ?m = kRequest (request ?m)"
    using assms(4) by (simp add: reserve_message_def TryBuildReserveMessage_def Reserve_BuildRequest_def
        mutable_request_def request_def)
  moreover have "\<exists>x. req_rt (request ?m) = kResourceRequest x"
    using assms(4) by (simp add: reserve_message_def TryBuildReserveMessage_def Reserve_BuildRequest_def
        addFilenames_resource mutable_resourcerequest_def)
  then have "req_rt (request ?m) = kResourceRequest (resourcerequest (request ?m))"
    by (auto simp: resourcerequest_def)
  ultimately show ?thesis
    using reserve_message_fields [OF assms] by (cases ?m; cases "request ?m") simp
qed

text \<open>Its size, for ids and file names that are not gigantic, is below the limit.\<close>

definition text_size :: "string \<Rightarrow> string list \<Rightarrow> nat" where
  "text_size jobid ns = length jobid + sum_list (map (\<lambda>n. 11 + length n) ns)"

lemma reserve_message_size:
  assumes ns: "ns \<noteq> []" "last ns \<noteq> []" "\<forall>n \<in> set ns. CHR '','' \<notin> set n"
    and flags: "0 < sint (FLAGS_duration flags)" "FLAGS_filenames flags = comma_join ns"
    and laws: "wire_laws lib" and size: "text_size (FLAGS_id flags) ns < 2 ^ 30"
  shows "Message_ByteSize lib (reserve_message flags) < size_limit"
proof -
  let ?r = "default_ResourceRequest\<lparr>rr_id := FLAGS_id flags, rr_throughputmb := FLAGS_throughput flags,
    rr_durationsec := scast (FLAGS_duration flags), rr_files := ns\<rparr>"
  let ?q = "\<lparr>req_type = RESERVE, req_rt = kResourceRequest ?r\<rparr>"
  have resource: "ResourceRequest_ByteSize lib ?r \<le> 33 + text_size (FLAGS_id flags) ns"
    using prefixed_sizes(1) [OF laws, of "FLAGS_id flags"] varint_sizes(2) [OF laws, of "FLAGS_throughput flags"]
      varint_sizes(3) [OF laws, of "scast (FLAGS_duration flags)"] strings_size [OF laws, of ns]
    by (simp add: ResourceRequest_ByteSize_def default_ResourceRequest_def text_size_def)
  have request: "Request_ByteSize lib ?q \<le> 55 + text_size (FLAGS_id flags) ns"
    using resource varint_sizes(4) [OF laws, of 1] prefixed_sizes(2) [OF laws, of "ResourceRequest_ByteSize lib ?r"]
    by (simp add: Request_ByteSize_def)
  have "Message_ByteSize lib (reserve_message flags) \<le> 66 + text_size (FLAGS_id flags) ns"
    using request prefixed_sizes(2) [OF laws, of "Request_ByteSize lib ?q"]
    by (simp add: Message_ByteSize_def reserve_message_parts [OF ns flags])
  with size show ?thesis by (simp add: size_limit_def)
qed

text \<open>Plain ids and file names make a message that is read back.\<close>

lemma reserve_message_readable:
  assumes ns: "ns \<noteq> []" "last ns \<noteq> []" "\<forall>n \<in> set ns. CHR '','' \<notin> set n"
    and flags: "0 < sint (FLAGS_duration flags)" "FLAGS_filenames flags = comma_join ns"
    and laws: "wire_laws lib" and plain: "ascii (FLAGS_id flags)" "list_all ascii ns"
    and size: "text_size (FLAGS_id flags) ns < 2 ^ 30"
  shows "readable (msg_format lib) (reserve_message flags)"
  using plain reserve_message_size [OF ns flags laws size]
  by (intro msg_format_readable [OF laws]) (simp_all add: reserve_message_parts [OF ns flags]
      plain_Message_def plain_Request_def plain_ResourceRequest_def default_ResourceRequest_def)

lemma client_reserves:
  assumes ns: "ns \<noteq> []" "last ns \<noteq> []" "\<forall>n \<in> set ns. CHR '','' \<notin> set n"
    and flags: "0 < sint (FLAGS_duration flags)" "FLAGS_filenames flags = comma_join ns"
      "FLAGS_storage_req_file flags = []"
    and readable: "readable format (reserve_message flags)"
    and serve: "ServeJobSubmission (sur_env sur) (sur_uninit sur) (sur_iterate sur) (sur_now sur) p
      (reserve_message flags) = Inr (ok, m', p')"
  shows "execute (server_behind sur format) format json read_file uninit ipPort flags ''reserve'' (p, r) =
    Some (0, [], p', None)"
proof -
  note fields = reserve_message_fields [OF ns flags(1,2)]
  have "ProcessMessage sur p (reserve_message flags) = Inr (ok, m', p')"
    using serve fields(2) by (simp add: ProcessMessage_def)
  from exchange_with_server [OF readable fields(1) this]
  have ex: "SendAndReceiveRequest (server_behind sur format) ipPort
      (msg_serialize format (reserve_message flags)) [] (p, r) =
      Some (True, msg_serialize format (finish_reply m'), p', None)" .
  have "FLAGS_filenames flags \<noteq> []" using comma_join_empty [OF ns(1,2)] flags(2) by simp
  then have "IsInputValid (FLAGS_id flags) (FLAGS_filenames flags) (FLAGS_duration flags)"
    using flags(1) by (simp add: IsInputValid_def)
  with ex flags(3) reserve_message_built [OF flags(1)] show ?thesis
    by (simp add: execute_def TryReserveResources_def TrySendRequestAndReceiveReply_def)
qed

text \<open>The request that \<open>client ls\<close> sends, and what the client prints of the answer.\<close>

definition list_message :: Message where
  "list_message = mutable_request (\<lambda>r. snd (List_BuildRequest default_Request)) default_Message"

lemma list_message_fields:
  "msg_type list_message = REQUEST" "req_type (request list_message) = LISTJOBS"
  "lj_regex (listjobsrequest (request list_message)) = []"
  by (simp_all add: list_message_def List_BuildRequest_def default_Message_def mutable_request_def
      default_Request_def accessor_defs default_ListJobsRequest_def)

lemma client_lists:
  assumes readable: "readable format list_message" "readable format (finish_reply m')"
    and serve: "ServeListJobs (sur_compile sur) (sur_put_time sur) p list_message = Inr (True, m', p)"
    and rc: "rep_rc (reply m') = 0" "has_reply m'"
  shows "execute (server_behind sur format) format json read_file uninit ipPort flags ''ls'' (p, r) =
    Some (0, rep_return_msg (reply m') @ [CHR 0x0A], p, None)"
proof -
  have "ProcessMessage sur p list_message = Inr (True, m', p)"
    using serve by (simp add: ProcessMessage_def list_message_fields)
  from exchange_with_server [OF readable(1) list_message_fields(1) this]
  have ex: "SendAndReceiveRequest (server_behind sur format) ipPort (msg_serialize format list_message) [] (p, r) =
      Some (True, msg_serialize format (finish_reply m'), p, None)" .
  have "reply (finish_reply m') = reply m'"
    using rc(2) by (auto simp: finish_reply_def release_request_def accessor_defs split: RqCase.splits)
  then have "ProcessListReply format (msg_serialize format (finish_reply m')) =
      (True, rep_return_msg (reply m') @ [CHR 0x0A])"
    using readable(2) rc finish_reply_shape(3) [of m'] by (simp add: ProcessListReply_def readable_def)
  with ex show ?thesis
    by (simp add: execute_def ListReservations_def TrySendRequestAndReceiveReply_def
        List_BuildRequest_def flip: list_message_def [unfolded List_BuildRequest_def snd_conv])
qed

section \<open>An id that is not UTF-8\<close>

text \<open>
  The client writes the request and the server cannot read it: the planner is not asked, the
  answer says so, and the client, which does not look at it, exits as after a success.
\<close>

lemma reservation_unreadable:
  assumes ns: "ns \<noteq> []" "last ns \<noteq> []" "\<forall>n \<in> set ns. CHR '','' \<notin> set n"
    and flags: "0 < sint (FLAGS_duration flags)" "FLAGS_filenames flags = comma_join ns"
    and laws: "wire_laws lib" and id: "\<not> VerifyUtf8String lib (FLAGS_id flags)"
    and size: "text_size (FLAGS_id flags) ns < 2 ^ 30"
  shows "\<exists>m'. msg_parse (msg_format lib) (msg_serialize (msg_format lib) (reserve_message flags)) =
    (False, m')"
proof -
  let ?r = "default_ResourceRequest\<lparr>rr_id := FLAGS_id flags, rr_throughputmb := FLAGS_throughput flags,
    rr_durationsec := scast (FLAGS_duration flags), rr_files := ns\<rparr>"
  note parts = reserve_message_parts [OF ns flags]
  from Message_refused [OF laws _ _ _ _ reserve_message_size [OF ns flags laws size],
      of "\<lparr>req_type = RESERVE, req_rt = kResourceRequest ?r\<rparr>" ?r] id
  show ?thesis by (auto simp: msg_format_def parts)
qed

lemma client_reservation_dropped:
  assumes ns: "ns \<noteq> []" "last ns \<noteq> []" "\<forall>n \<in> set ns. CHR '','' \<notin> set n"
    and flags: "0 < sint (FLAGS_duration flags)" "FLAGS_filenames flags = comma_join ns"
      "FLAGS_storage_req_file flags = []"
    and laws: "wire_laws lib" and id: "\<not> VerifyUtf8String lib (FLAGS_id flags)"
    and size: "text_size (FLAGS_id flags) ns < 2 ^ 30"
  shows "execute (server_behind sur (msg_format lib)) (msg_format lib) json read_file uninit ipPort flags
    ''reserve'' (p, r) = Some (0, [], p, None)"
proof -
  let ?format = "msg_format lib"
  obtain m' where unreadable: "msg_parse ?format (msg_serialize ?format (reserve_message flags)) = (False, m')"
    using reservation_unreadable [OF ns flags(1,2) laws id size] by blast
  then have "Serve_turn sur (turn_wire ?format) (p, Some (msg_serialize ?format (reserve_message flags)), None) =
      Inr (p, None, Some (msg_serialize ?format (ProcessUnparsableMsg m')))"
    by (simp add: Serve_turn_def turn_wire_def)
  then have ex: "SendAndReceiveRequest (server_behind sur ?format) ipPort
      (msg_serialize ?format (reserve_message flags)) [] (p, r) =
      Some (True, msg_serialize ?format (ProcessUnparsableMsg m'), p, None)"
    by (simp add: SendAndReceiveRequest_def server_behind_def poll_loop.simps)
  have "FLAGS_filenames flags \<noteq> []" using comma_join_empty [OF ns(1,2)] flags(2) by simp
  moreover have "FLAGS_id flags \<noteq> []"
    using wire_lawsD(8) [OF laws, of "[]"] id by (auto simp: ascii_def)
  ultimately have "IsInputValid (FLAGS_id flags) (FLAGS_filenames flags) (FLAGS_duration flags)"
    using flags(1) by (simp add: IsInputValid_def)
  with ex flags(3) reserve_message_built [OF flags(1)] show ?thesis
    by (simp add: execute_def TryReserveResources_def TrySendRequestAndReceiveReply_def)
qed

section \<open>The whole way\<close>

text \<open>What is listed of the stored jobs, and the message that carries it.\<close>

definition listing_text :: "(int \<Rightarrow> string) \<Rightarrow> (string \<Rightarrow> bool) \<Rightarrow> (string \<times> Job) list \<Rightarrow> string" where
  "listing_text put_time search js =
     (if js = [] then ''no matches found'' @ [CHR 0x0A]
      else let found = filter (search \<circ> fst) js in
        if found = [] then [] else header_line @ concat (map (job_line put_time \<circ> snd) found))"

definition listing_message :: "string \<Rightarrow> Message" where
  "listing_message text =
     \<lparr>msg_type = REPLY, msg_rq = kReply (default_Reply\<lparr>rep_return_msg := text, rep_rc := 0\<rparr>)\<rparr>"

lemma AddJobsToReply_text:
  "AddJobsToReply put_time r js (map snd (filter (\<lambda>kv. search (fst kv)) js)) =
     r\<lparr>rep_return_msg := listing_text put_time search js\<rparr>"
  by (simp add: AddJobsToReply_def Format_text comp_def Let_def listing_text_def) (simp add: Format_def)

lemma ServeListJobs_message:
  assumes inv: "mon_inv (pl_monitor p)" and search: "compile ''.*'' = Some search"
  shows "\<exists>js m'. map_of js = mjobs (pl_monitor p) \<and> smap_ok js \<and>
    ServeListJobs compile put_time p list_message = Inr (True, m', p) \<and> has_reply m' \<and>
    finish_reply m' = listing_message (listing_text put_time search js)"
proof -
  obtain js where js: "GetAllJobs (mon_schedule (pl_monitor p)) = Some js" "smap_ok js"
    "map_of js = mjobs (pl_monitor p)"
    using GetAllJobs_mon [OF inv] by blast
  let ?msg = "AddDefaultRegexIfEmpty list_message"
  let ?r = "default_Reply\<lparr>rep_return_msg := listing_text put_time search js, rep_rc := 0\<rparr>"
  have "lj_regex (listjobsrequest (request ?msg)) = ''.*''"
    by (simp add: AddDefaultRegexIfEmpty_def list_message_fields)
  with js(1) search have "ServeListJobs compile put_time p list_message =
      Inr (True, mutable_reply (\<lambda>r. ?r) ?msg, p)"
    by (simp add: ServeListJobs_def FilterJobs_def AddJobsToReply_text)
  moreover have "finish_reply (mutable_reply (\<lambda>r. ?r) ?msg) = listing_message (listing_text put_time search js)"
    by (simp add: finish_reply_def mutable_reply_def listing_message_def release_request_def has_request_def)
  ultimately show ?thesis using js(2,3) by (intro exI conjI) auto
qed

lemma client_lists_jobs:
  assumes inv: "mon_inv (pl_monitor p)" and search: "sur_compile sur ''.*'' = Some search"
    and readable: "readable format list_message"
      "\<forall>js. map_of js = mjobs (pl_monitor p) \<longrightarrow> smap_ok js \<longrightarrow>
        readable format (listing_message (listing_text (sur_put_time sur) search js))"
  shows "\<exists>js. map_of js = mjobs (pl_monitor p) \<and> smap_ok js \<and>
    execute (server_behind sur format) format json read_file uninit ipPort flags ''ls'' (p, r) =
      Some (0, listing_text (sur_put_time sur) search js @ [CHR 0x0A], p, None)"
proof -
  obtain js m' where js: "map_of js = mjobs (pl_monitor p)" "smap_ok js"
    and serve: "ServeListJobs (sur_compile sur) (sur_put_time sur) p list_message = Inr (True, m', p)"
    and m': "has_reply m'" "finish_reply m' = listing_message (listing_text (sur_put_time sur) search js)"
    using ServeListJobs_message [where compile = "sur_compile sur" and put_time = "sur_put_time sur",
        OF inv search] by blast
  have r: "readable format (finish_reply m')" using readable(2) js m'(2) by simp
  have "reply m' = reply (finish_reply m')"
    using m'(1) by (auto simp: finish_reply_def release_request_def accessor_defs split: RqCase.splits)
  then have "rep_rc (reply m') = 0" "rep_return_msg (reply m') = listing_text (sur_put_time sur) search js"
    unfolding m'(2) by (simp_all add: listing_message_def reply_def)
  with client_lists [OF readable(1) r serve _ m'(1), where json = json and read_file = read_file and
      uninit = uninit and ipPort = ipPort and flags = flags and r = r] js
  show ?thesis by (intro exI [of _ js] conjI) simp_all
qed

text \<open>A reservation, from the flags to the schedule.\<close>

lemma client_reserves_job:
  fixes sur :: "'w Surroundings" and p :: "'w Planner"
  assumes ns: "ns \<noteq> []" "last ns \<noteq> []" "\<forall>n \<in> set ns. CHR '','' \<notin> set n"
    and flags: "0 < sint (FLAGS_duration flags)" "FLAGS_filenames flags = comma_join ns"
      "FLAGS_storage_req_file flags = []"
    and readable: "readable format (reserve_message flags)" and inv: "mon_inv (pl_monitor p)"
    and osts: "tryComputeOstSetOfRequest (env_lustre (sur_env sur)) (mon_world (pl_monitor p)) ns {} =
      (True, osts, w1)"
    and fin: "add_seconds (sur_now sur) (sint (FLAGS_duration flags)) = Some tend"
    and j: "j = (new_job (FLAGS_id flags) (sur_now sur) tend (FLAGS_throughput flags))
      \<lparr>job_osts := sur_iterate sur osts\<rparr>"
  shows "\<exists>b p'. execute (server_behind sur format) format json read_file uninit ipPort flags ''reserve'' (p, r) =
      Some (0, [], p', None) \<and> mon_inv (pl_monitor p') \<and>
    (if b then mjobs (pl_monitor p) (FLAGS_id flags) = None \<and>
       mjobs (pl_monitor p') = (mjobs (pl_monitor p))(FLAGS_id flags \<mapsto> j\<lparr>job_state := SCHEDULED\<rparr>)
     else mjobs (pl_monitor p') = mjobs (pl_monitor p))"
proof -
  let ?msg = "reserve_message flags"
  note fields = reserve_message_fields [OF ns flags(1,2)]
  let ?j = "BuildJob (resourcerequest (request ?msg)) (sur_now sur) tend (sur_iterate sur osts)"
  have files: "rr_files (resourcerequest (request ?msg)) \<noteq> []" using ns(1) by (simp add: fields(3))
  have osts': "tryComputeOstSetOfRequest (env_lustre (sur_env sur)) (mon_world (pl_monitor p))
      (rr_files (resourcerequest (request ?msg))) {} = (True, osts, w1)" using osts by (simp add: fields(3))
  have fin': "reservation_end (sur_now sur) (resourcerequest (request ?msg)) = Some tend"
    using fin flags(1) by (simp add: fields(3) reservation_end_def sint_scast_up)
  have job: "job_id ?j = FLAGS_id flags" "?j\<lparr>job_state := SCHEDULED\<rparr> = j\<lparr>job_state := SCHEDULED\<rparr>"
    by (simp_all add: fields(3) BuildJob_def j new_job_def)
  obtain b p' where serve: "ServeJobSubmission (sur_env sur) (sur_uninit sur) (sur_iterate sur) (sur_now sur) p ?msg =
      Inr (b, mutable_reply (\<lambda>r. r\<lparr>rep_rc := if b then 0 else - 1\<rparr>) ?msg, p')"
    and p': "mon_inv (pl_monitor p')" "if b then mjobs (pl_monitor p) (job_id ?j) = None \<and>
       mjobs (pl_monitor p') = (mjobs (pl_monitor p))(job_id ?j \<mapsto> ?j\<lparr>job_state := SCHEDULED\<rparr>)
     else mjobs (pl_monitor p') = mjobs (pl_monitor p)"
    using ServeJobSubmission_spec [OF inv files osts' fin' refl, of "sur_uninit sur" "sur_iterate sur"]
    by (metis (no_types, lifting))
  from client_reserves [OF ns flags readable serve] p' show ?thesis unfolding job by blast
qed

end
