(* ===== verification/DemoZmq.thy ===== *)
theory DemoZmq
  imports Examples MonitorTearDown EndToEnd
begin

text \<open>
  A small ZeroMQ for the witnesses: the sockets it makes have odd numbers, the peer of socket
  \<open>2n - 1\<close> is \<open>2n\<close>, and every socket has a queue of messages that came in. It has the
  properties the library documents and the theories rely on.
\<close>

record zmq_world =
  zw_live :: "(ptr \<times> ptr) list"
  zw_inbox :: "ptr \<Rightarrow> string list"
  zw_waiting :: "ptr \<Rightarrow> bool"
  zw_errno :: zmq_errno

definition empty_zmq_world :: zmq_world where
  "empty_zmq_world =
     \<lparr>zw_live = [], zw_inbox = \<lambda>p. [], zw_waiting = \<lambda>p. False, zw_errno = Errno 0\<rparr>"

definition zw_peer :: "ptr \<Rightarrow> ptr" where
  "zw_peer p = (if even p then p - 1 else p + 1)"

definition demo_send :: "zmq_world \<Rightarrow> string \<Rightarrow> ptr \<Rightarrow> int \<times> zmq_world" where
  "demo_send w m p =
     (int (length m), w\<lparr>zw_inbox := (zw_inbox w)(zw_peer p := zw_inbox w (zw_peer p) @ [m]),
        zw_waiting := (zw_waiting w)(p := False)\<rparr>)"

definition demo_recv :: "zmq_world \<Rightarrow> ptr \<Rightarrow> int \<times> string \<times> zmq_world" where
  "demo_recv w p =
     (if zw_waiting w p then (- 1, [], w\<lparr>zw_errno := Errno 156384763\<rparr>)
      else (case zw_inbox w p of
              [] \<Rightarrow> (- 1, [], w\<lparr>zw_errno := Errno 4\<rparr>)
            | m # ms \<Rightarrow> (int (length m), m, w\<lparr>zw_inbox := (zw_inbox w)(p := ms),
                zw_waiting := (zw_waiting w)(p := True)\<rparr>)))"

definition demo_socket :: "zmq_world \<Rightarrow> ptr \<Rightarrow> ptr \<times> zmq_world" where
  "demo_socket w c =
     (let p = Suc (2 * foldr max (map fst (zw_live w)) 0) in (p, w\<lparr>zw_live := (p, c) # zw_live w\<rparr>))"

definition demo_zmq :: "zmq_world libzmq" where
  "demo_zmq =
     \<lparr>zmq_errno = zw_errno, zmq_ctx_new = \<lambda>w. (1, w), zmq_ctx_set = \<lambda>w c opt v. (0, w),
      zmq_ctx_destroy = \<lambda>w c. if c \<in> snd ` set (zw_live w) then None else Some (0, w),
      zmq_socket = \<lambda>w c t. demo_socket w c,
      zmq_close = \<lambda>w p. (0, w\<lparr>zw_live := filter (\<lambda>q. fst q \<noteq> p) (zw_live w)\<rparr>),
      zmq_setsockopt = \<lambda>w p opt v. (0, w), zmq_bind = \<lambda>w p a. (0, w), zmq_connect = \<lambda>w p a. (0, w),
      zmq_msg_init = \<lambda>w. (0, w), zmq_msg_init_size = \<lambda>w n. (0, replicate n CHR 0x00, w),
      zmq_msg_close = \<lambda>w m. (0, w), zmq_msg_send = \<lambda>w m p flags. demo_send w m p,
      zmq_msg_recv = \<lambda>w p flags. demo_recv w p, zmq_poll = \<lambda>w p t. (0, zw_inbox w p \<noteq> [], w),
      zmq_max_sockets_default = 1023\<rparr>"

section \<open>It has the documented properties\<close>

lemma demo_zmq_messages: "message_calls demo_zmq view"
  by (simp add: message_calls_def demo_zmq_def)

lemma foldr_max_le: "x \<in> set xs \<Longrightarrow> x \<le> foldr max xs (0 :: nat)"
  by (induction xs) auto

lemma demo_socket_fresh: "map_of (zw_live w) (Suc (2 * foldr max (map fst (zw_live w)) 0)) = None"
  using foldr_max_le [of _ "map fst (zw_live w)"] by (fastforce simp: map_of_eq_None_iff)

lemma map_of_filter_key: "map_of (filter (\<lambda>q. fst q \<noteq> p) l) = (map_of l)(p := None)"
  by (induction l) (auto simp: fun_eq_iff)

lemma map_of_snd: "map_of l a = Some c \<Longrightarrow> c \<in> snd ` set l"
  by (force dest: map_of_SomeD)

lemma demo_zmq_tracks: "tracks_sockets demo_zmq (map_of \<circ> zw_live)"
  unfolding tracks_sockets_def
  by (intro conjI demo_zmq_messages)
    (auto simp: demo_zmq_def demo_socket_def Let_def demo_socket_fresh map_of_filter_key demo_send_def
      demo_recv_def ran_def dest: map_of_snd split: list.splits)

lemma demo_zmq_rep: "rep_protocol demo_zmq p (\<lambda>w. zw_waiting w p)"
  by (auto simp: rep_protocol_def demo_zmq_def demo_send_def demo_recv_def split: list.splits if_splits)

lemma demo_zmq_carries:
  "zw_peer p \<noteq> p \<Longrightarrow> carries demo_zmq p (zw_peer p) (\<lambda>w. (zw_inbox w (zw_peer p), zw_waiting w (zw_peer p)))"
  by (auto simp: carries_def demo_zmq_messages) (auto simp: demo_zmq_def demo_send_def demo_recv_def)

section \<open>Programs\<close>

definition demo_format :: MsgWire where
  "demo_format = \<lparr>msg_parse = ParseFromString demo_wire, msg_serialize = SerializeAsString demo_wire\<rparr>"

text \<open>No flag is given. Two requests wait at the socket the server will make.\<close>

definition no_flags :: "'f gflags" where
  "no_flags flags argv = Some (flags, argv)"

definition zmq_with_requests :: zmq_world where
  "zmq_with_requests = empty_zmq_world\<lparr>zw_inbox := (\<lambda>p. [])(1 := [''reserve'', ''remove''])\<rparr>"

definition demo_activities :: "unit activity list" where
  "demo_activities = [Turn demo_surroundings, Pass demo_env (\<lambda>n. 15), Turn demo_surroundings]"

text \<open>A server that refuses every reservation, and the client's flags for one.\<close>

definition refusing_server :: "unit ReqSocket" where
  "refusing_server =
     \<lparr>req_reset = \<lambda>w a. Some w, req_send = \<lambda>w m. Some w, req_poll = \<lambda>w. Some (True, w),
      req_recv = \<lambda>w. Some (''refused'', w)\<rparr>"

definition refusal_format :: MsgWire where
  "refusal_format =
     \<lparr>msg_parse = \<lambda>s. (True, mutable_reply (\<lambda>r. r\<lparr>rep_rc := - 1\<rparr>) (default_Message\<lparr>msg_type := REPLY\<rparr>)),
      msg_serialize = \<lambda>m. ''message''\<rparr>"

definition demo_client_flags :: ClientFlags where
  "demo_client_flags =
     default_ClientFlags\<lparr>FLAGS_id := ''j'', FLAGS_filenames := ''f'', FLAGS_throughput := 7,
       FLAGS_duration := 60\<rparr>"

text \<open>A wire format of two messages.\<close>

definition pair_format :: "Message \<Rightarrow> Message \<Rightarrow> MsgWire" where
  "pair_format m1 m2 =
     \<lparr>msg_parse = \<lambda>s. (True, if s = ''1'' then m1 else m2),
      msg_serialize = \<lambda>m. if m = m1 then ''1'' else ''2''\<rparr>"

lemma pair_format_readable: "readable (pair_format m1 m2) m1" "readable (pair_format m1 m2) m2"
  by (simp_all add: readable_def pair_format_def)

end
