(* ===== verification/DemoRules.thy ===== *)
theory DemoRules
  imports JobLife DemoZmq
begin

text \<open>
  The environments of the witnesses about rules: a world that is the set of installed rules,
  with a limits file that allows OST \<open>0\<close>.
\<close>

type_synonym rule_world = "(string \<times> string) set"

definition rules_env :: "rule_world Env" where
  "rules_env = \<lparr>env_lustre = set_lustre, env_setter = set_setter ''''\<rparr>"

definition rules_surroundings :: "rule_world Surroundings" where
  "rules_surroundings =
     \<lparr>sur_env = rules_env, sur_uninit = \<lambda>n. 0, sur_iterate = \<lambda>S. [''0''], sur_now = 1000,
      sur_compile = \<lambda>e. Some (\<lambda>s. True), sur_put_time = \<lambda>t. ''then''\<rparr>"

definition limits_flag :: "ServerFlags gflags" where
  "limits_flag flags argv = Some (flags\<lparr>server_ost_limits := ''limits.json''\<rparr>, argv)"

text \<open>The server after a reservation and a pass of the monitor.\<close>

definition rules_activities :: "rule_world activity list" where
  "rules_activities = [Turn rules_surroundings, Pass rules_env (\<lambda>n. 2000)]"

definition rules_run :: "(rule_world Planner \<times> zmq_world) outcome" where
  "rules_run =
     server_main limits_flag demo_zmq demo_format rules_env demo_json_library (\<lambda>f. Some ''limits'') Some
       [''server''] {} zmq_with_requests rules_activities"

lemma rules_env_keeps: "keeps_rules (\<lambda>w. w) rules_env"
  by (auto simp: keeps_rules_def rules_env_def set_setter_def set_lustre_def split: if_splits)

lemma rules_env_owes: "installs (env_setter rules_env) (\<lambda>w. w)" "only_queries (env_lustre rules_env) (\<lambda>w. w)"
  by (simp_all add: rules_env_def set_setter_installs set_lustre_queries)

text \<open>A planner without jobs.\<close>

definition rules_planner :: "rule_world Planner" where
  "rules_planner =
     \<lparr>pl_monitor = new_monitor empty_state empty_rules {}, pl_limits = demo_limits, pl_ost_limits_file = []\<rparr>"

lemma mon_inv_rules_planner: "mon_inv (pl_monitor rules_planner)"
  by (simp add: rules_planner_def mon_inv_new)

end
