(* ===== verification/DemoWire.thy ===== *)
theory DemoWire
  imports WireFormat
begin

text \<open>
  An instance of the protocol buffers runtime, with variable-length integers as the encoding
  documents them: it shows that the laws of \<open>WireFormat\<close> can hold, and lets the examples run.
\<close>

fun varint :: "nat \<Rightarrow> string" where
  "varint n = (if n < 128 then [char_of n] else char_of (n mod 128 + 128) # varint (n div 128))"

declare varint.simps [simp del]

fun read_varint :: "string \<Rightarrow> (nat \<times> string) option" where
  "read_varint [] = None"
| "read_varint (c # cs) =
     (if (of_char c :: nat) < 128 then Some (of_char c, cs)
      else map_option (\<lambda>(n, rest). (of_char c - 128 + 128 * n, rest)) (read_varint cs))"

lemma read_varint: "read_varint (varint n @ rest) = Some (n, rest)"
proof (induction n rule: varint.induct)
  case (1 n)
  show ?case
  proof (cases "n < 128")
    case True
    then show ?thesis by (simp add: varint.simps [of n])
  next
    case False
    then have "of_char (char_of (n mod 128 + 128) :: char) = n mod 128 + 128"
      by simp
    with False 1 show ?thesis by (simp add: varint.simps [of n])
  qed
qed

lemma read_varint_shrinks: "read_varint s = Some (n, rest) \<Longrightarrow> length rest < length s"
proof (induction s arbitrary: n rest)
  case (Cons c s)
  then show ?case by (fastforce split: if_splits)
qed simp

lemma varint_not_Nil: "varint n \<noteq> []"
  by (subst varint.simps) simp

lemma length_varint: "n < 128 ^ Suc k \<Longrightarrow> length (varint n) \<le> Suc k"
proof (induction k arbitrary: n)
  case 0
  then show ?case by (simp add: varint.simps)
next
  case (Suc k)
  then have "n div 128 < 128 ^ Suc k" by (simp add: div_less_iff_less_mult mult.commute)
  from Suc.IH [OF this] show ?case by (subst varint.simps) simp
qed

lemma length_small_varint: "n < 128 \<Longrightarrow> length (varint n) = 1"
  by (subst varint.simps) simp

definition demo_number :: "CodedInputStream \<Rightarrow> (nat \<times> CodedInputStream) option" where
  "demo_number inp = map_option (\<lambda>(n, rest). (n, inp\<lparr>unread := rest\<rparr>)) (read_varint (unread inp))"

definition demo_skip :: "nat \<Rightarrow> CodedInputStream \<Rightarrow> CodedInputStream option" where
  "demo_skip n inp = (if n \<le> length (unread inp) then Some (inp\<lparr>unread := drop n (unread inp)\<rparr>) else None)"

definition demo_wire_lib :: WireFormatLite where
  "demo_wire_lib =
     \<lparr>ReadTagWithCutoff = \<lambda>cutoff inp.
        (case demo_number inp of
           None \<Rightarrow> (0, False, inp\<lparr>legitimate_message_end := (unread inp = [])\<rparr>)
         | Some (n, in1) \<Rightarrow> (word_of_nat n, n \<le> cutoff, in1)),
      ExpectTag = \<lambda>t inp.
        (case demo_number inp of
           None \<Rightarrow> (False, inp)
         | Some (n, in1) \<Rightarrow> if n \<le> 127 \<and> word_of_nat n = t then (True, in1) else (False, inp)),
      ExpectAtEnd = \<lambda>inp.
        if unread inp = [] then (True, inp\<lparr>legitimate_message_end := True\<rparr>) else (False, inp),
      SkipField = \<lambda>tag inp.
        (if take_bit 3 tag = 0 then map_option snd (demo_number inp)
         else if take_bit 3 tag = 1 then demo_skip 8 inp
         else if take_bit 3 tag = 2 then
           Option.bind (demo_number inp) (\<lambda>(n, in1). demo_skip n in1)
         else if take_bit 3 tag = 5 then demo_skip 4 inp
         else None),
      ReadString = \<lambda>inp old.
        (case demo_number inp of
           None \<Rightarrow> (old, None)
         | Some (n, in1) \<Rightarrow> (take n (unread in1), demo_skip n in1)),
      ReadInt32 = \<lambda>inp. map_option (\<lambda>(n, in1). (word_of_nat n, in1)) (demo_number inp),
      ReadInt64 = \<lambda>inp. map_option (\<lambda>(n, in1). (word_of_nat n, in1)) (demo_number inp),
      ReadEnum = \<lambda>inp. map_option (\<lambda>(n, in1). (word_of_nat n, in1)) (demo_number inp),
      ReadBool = \<lambda>inp. map_option (\<lambda>(n, in1). (n \<noteq> 0, in1)) (demo_number inp),
      PushLengthLimit = \<lambda>inp. map_option (\<lambda>(n, in1). (take n (unread in1), drop n (unread in1)))
        (demo_number inp),
      VerifyUtf8String = ascii,
      LengthPrefix = \<lambda>n k. varint (8 * n + 2) @ varint k,
      WriteInt32ToArray = \<lambda>n v. varint (8 * n) @ varint (unat (scast v :: 64 word)),
      WriteInt64ToArray = \<lambda>n v. varint (8 * n) @ varint (unat v),
      WriteEnumToArray = \<lambda>n v. varint (8 * n) @ varint (unat (scast v :: 64 word)),
      WriteBoolToArray = \<lambda>n b. varint (8 * n) @ varint (of_bool b),
      VarintSize32 = \<lambda>k. length (varint (k mod 2 ^ 32)),
      Int32Size = \<lambda>v. length (varint (unat (scast v :: 64 word))),
      Int64Size = \<lambda>v. length (varint (unat v)),
      EnumSize = \<lambda>v. length (varint (unat (scast v :: 64 word)))\<rparr>"

lemma demo_number_written: "demo_number (\<lparr>unread = varint n @ rest, legitimate_message_end = e\<rparr>) =
    Some (n, \<lparr>unread = rest, legitimate_message_end = e\<rparr>)"
  by (simp add: demo_number_def read_varint)

lemma demo_number_shrinks:
  "demo_number inp = Some (n, in1) \<Longrightarrow> length (unread in1) < length (unread inp)"
  by (auto simp: demo_number_def dest: read_varint_shrinks)

lemma demo_skip_shrinks: "demo_skip n inp = Some in1 \<Longrightarrow> length (unread in1) \<le> length (unread inp)"
  by (auto simp: demo_skip_def split: if_splits)

lemma demo_stream_laws: "stream_laws demo_wire_lib"
  unfolding stream_laws_def demo_wire_lib_def
  by (auto simp: demo_number_def split: option.splits if_splits prod.splits dest: read_varint_shrinks)

lemma demo_read_laws: "read_laws demo_wire_lib"
  unfolding read_laws_def shrinks_def demo_wire_lib_def
  by (auto split: option.splits if_splits prod.splits simp: bind_eq_Some_conv
      dest!: demo_number_shrinks demo_skip_shrinks)


lemma demo_tag:
  "n < 16 \<Longrightarrow> k < 8 \<Longrightarrow> ReadTagWithCutoff demo_wire_lib 127
     \<lparr>unread = varint (8 * n + k) @ rest, legitimate_message_end = e\<rparr> =
   (word_of_nat (8 * n + k), True, \<lparr>unread = rest, legitimate_message_end = e\<rparr>)"
  by (simp add: demo_wire_lib_def demo_number_written)

lemma ucast_scast_up: "(ucast (scast (v :: 32 word) :: 64 word) :: 32 word) = v"
proof (rule bit_word_eqI)
  fix n assume n: "n < LENGTH(32)"
  then have "n = 31 \<or> n < 31" by auto
  with n show "bit (ucast (scast v :: 64 word) :: 32 word) n = bit v n"
    by (auto simp: bit_unsigned_iff bit_signed_iff min_def)
qed

lemma demo_write_laws: "write_laws demo_wire_lib"
proof -
  let ?d = demo_wire_lib
  have "field_read ?d (ReadInt32 ?d) (WriteInt32ToArray ?d)"
    "field_read ?d (ReadInt64 ?d) (WriteInt64ToArray ?d)"
    "field_read ?d (ReadEnum ?d) (WriteEnumToArray ?d)"
    "field_read ?d (ReadBool ?d) (WriteBoolToArray ?d)"
    by (auto simp: field_read_def demo_wire_lib_def demo_number_written ucast_scast_up)
  moreover have "VerifyUtf8String ?d = ascii" by (simp add: demo_wire_lib_def)
  ultimately show ?thesis
    unfolding write_laws_def
    by (auto simp: demo_wire_lib_def demo_number_written demo_skip_def)
qed

lemma length_varint_word: "length (varint (unat (v :: 64 word))) \<le> 10"
proof -
  have "unat v < 2 ^ 64" using unsigned_less [of v] by simp
  then have "unat v < 128 ^ Suc 9" by simp
  from length_varint [OF this] show ?thesis by simp
qed

lemma demo_size_laws: "size_laws demo_wire_lib"
proof -
  have "length (varint (k mod 2 ^ 32)) \<le> 10" for k :: nat
    using length_varint [of "k mod 2 ^ 32" 9] by (simp add: order.strict_trans2 [OF mod_less_divisor])
  then show ?thesis
    unfolding size_laws_def demo_wire_lib_def
    by (auto simp: length_small_varint length_varint_word size_limit_def)
qed

lemma demo_wire_laws: "wire_laws demo_wire_lib"
  by (simp add: wire_laws_def demo_stream_laws demo_read_laws demo_write_laws demo_size_laws)

end
