(* ===== verification/OssCodec.thy ===== *)
theory OssCodec
  imports OssRules
begin

text \<open>
  The classes generated from \<open>oss_server_message.proto\<close>
  (\<open>src/src/common/rpc/proto/oss_server_message.pb.cc\<close>): parser, serializer and size of
  \<open>OSSCommandRequest\<close>, \<open>OSSCommandReply\<close> and \<open>OSSCommandMessage\<close> over the protocol buffers
  runtime, and the proof that they are a wire format the rule server may rely on.
\<close>

section \<open>\<open>OSSCommandRequest\<close>\<close>

definition OSSCommandRequest_fields :: "WireFormatLite \<Rightarrow> string fields" where
  "OSSCommandRequest_fields lib tag =
     (if tag = 10 then Some (field_string lib (\<lambda>m. m) (\<lambda>s m. s), [], True) else None)"

definition OSSCommandRequest_Merge ::
  "WireFormatLite \<Rightarrow> string \<Rightarrow> CodedInputStream \<Rightarrow> string merged option" where
  "OSSCommandRequest_Merge lib = merge_loop lib (OSSCommandRequest_fields lib) None"

definition OSSCommandRequest_Serialize :: "WireFormatLite \<Rightarrow> string \<Rightarrow> string" where
  "OSSCommandRequest_Serialize lib m = (if m \<noteq> [] then WriteStringToArray lib 1 m else [])"

definition OSSCommandRequest_ByteSize :: "WireFormatLite \<Rightarrow> string \<Rightarrow> nat" where
  "OSSCommandRequest_ByteSize lib m = (if m \<noteq> [] then 1 + StringSize lib m else 0)"

section \<open>\<open>OSSCommandReply\<close>\<close>

definition OSSCommandReply_fields :: "WireFormatLite \<Rightarrow> OSSCommandReply fields" where
  "OSSCommandReply_fields lib tag =
     (if tag = 8 then Some (field_value (ReadInt32 lib) (\<lambda>v m. m\<lparr>ocr_rc := v\<rparr>), [18], False)
      else if tag = 18 then
        Some (field_string lib ocr_return_msg (\<lambda>s m. m\<lparr>ocr_return_msg := s\<rparr>), [], True)
      else None)"

definition OSSCommandReply_Merge ::
  "WireFormatLite \<Rightarrow> OSSCommandReply \<Rightarrow> CodedInputStream \<Rightarrow> OSSCommandReply merged option" where
  "OSSCommandReply_Merge lib = merge_loop lib (OSSCommandReply_fields lib) None"

definition OSSCommandReply_Serialize :: "WireFormatLite \<Rightarrow> OSSCommandReply \<Rightarrow> string" where
  "OSSCommandReply_Serialize lib m =
     (if ocr_rc m \<noteq> 0 then WriteInt32ToArray lib 1 (ocr_rc m) else []) @
     (if ocr_return_msg m \<noteq> [] then WriteStringToArray lib 2 (ocr_return_msg m) else [])"

definition OSSCommandReply_ByteSize :: "WireFormatLite \<Rightarrow> OSSCommandReply \<Rightarrow> nat" where
  "OSSCommandReply_ByteSize lib m =
     (if ocr_rc m \<noteq> 0 then 1 + Int32Size lib (ocr_rc m) else 0) +
     (if ocr_return_msg m \<noteq> [] then 1 + StringSize lib (ocr_return_msg m) else 0)"

section \<open>\<open>OSSCommandMessage\<close>\<close>

fun oss_type_number :: "OSSMessageType \<Rightarrow> 32 word" where
  "oss_type_number OSS_REQUEST = 0"
| "oss_type_number OSS_REPLY = 1"
| "oss_type_number (OtherOSSType n) = n"

definition oss_type_of :: "32 word \<Rightarrow> OSSMessageType" where
  "oss_type_of n = (if n = 0 then OSS_REQUEST else if n = 1 then OSS_REPLY else OtherOSSType n)"

definition OSSCommandMessage_fields :: "WireFormatLite \<Rightarrow> OSSCommandMessage fields" where
  "OSSCommandMessage_fields lib tag =
     (if tag = 8 then
        Some (field_value (ReadEnum lib) (\<lambda>v m. m\<lparr>ocm_type := oss_type_of v\<rparr>), [18], False)
      else if tag = 18 then
        Some (field_message lib (OSSCommandRequest_Merge lib) oss_command oss_set_command, [], True)
      else if tag = 26 then
        Some (field_message lib (OSSCommandReply_Merge lib) oss_reply
            (\<lambda>r. oss_mutable_reply (\<lambda>_. r)), [], True)
      else None)"

definition OSSCommandMessage_Merge ::
  "WireFormatLite \<Rightarrow> OSSCommandMessage \<Rightarrow> CodedInputStream \<Rightarrow> OSSCommandMessage merged option" where
  "OSSCommandMessage_Merge lib = merge_loop lib (OSSCommandMessage_fields lib) None"

definition OSSCommandMessage_Serialize :: "WireFormatLite \<Rightarrow> OSSCommandMessage \<Rightarrow> string" where
  "OSSCommandMessage_Serialize lib m =
     (if oss_type_number (ocm_type m) \<noteq> 0
      then WriteEnumToArray lib 1 (oss_type_number (ocm_type m)) else []) @
     (case ocm_rq m of
        kCommandRequest c \<Rightarrow>
          WriteMessageToArray lib 2 (OSSCommandRequest_ByteSize lib c) (OSSCommandRequest_Serialize lib c)
      | kCommandReply r \<Rightarrow>
          WriteMessageToArray lib 3 (OSSCommandReply_ByteSize lib r) (OSSCommandReply_Serialize lib r)
      | OSS_RQ_NOT_SET \<Rightarrow> [])"

definition OSSCommandMessage_ByteSize :: "WireFormatLite \<Rightarrow> OSSCommandMessage \<Rightarrow> nat" where
  "OSSCommandMessage_ByteSize lib m =
     (if oss_type_number (ocm_type m) \<noteq> 0 then 1 + EnumSize lib (oss_type_number (ocm_type m)) else 0) +
     (case ocm_rq m of
        kCommandRequest c \<Rightarrow> 1 + MessageSizeNoVirtual lib (OSSCommandRequest_ByteSize lib c)
      | kCommandReply r \<Rightarrow> 1 + MessageSizeNoVirtual lib (OSSCommandReply_ByteSize lib r)
      | OSS_RQ_NOT_SET \<Rightarrow> 0)"

text \<open>
  The format of the stub and of the rule server: \<open>ParseFromString\<close> and \<open>SerializeAsString\<close> of the
  message class. A parse that did not return would have no result; \<open>oss_message_parse_returns\<close>
  below says that every parse does.
\<close>

definition oss_format :: "WireFormatLite \<Rightarrow> OssWire" where
  "oss_format lib =
     \<lparr>oss_parse = \<lambda>raw. the (parse_from_string (OSSCommandMessage_Merge lib) default_OSSCommandMessage raw),
      oss_serialize = \<lambda>m. serialize_as_string (OSSCommandMessage_ByteSize lib m)
        (OSSCommandMessage_Serialize lib m)\<rparr>"

section \<open>Lemmas\<close>

lemmas oss_tables = OSSCommandRequest_fields_def OSSCommandReply_fields_def OSSCommandMessage_fields_def

lemma oss_tables_ok:
  "table_ok (OSSCommandRequest_fields lib)" "table_ok (OSSCommandReply_fields lib)"
  "table_ok (OSSCommandMessage_fields lib)"
  by (auto simp: table_ok_def oss_tables)

lemma OSSCommandRequest_returns:
  "stream_laws lib \<Longrightarrow> read_laws lib \<Longrightarrow> returns (OSSCommandRequest_Merge lib)"
  unfolding OSSCommandRequest_Merge_def
  by (rule merge_loop_returns)
    (auto simp: oss_tables_ok fields_return_def oss_tables field_string_returns split: if_splits)

lemma OSSCommandReply_returns:
  "stream_laws lib \<Longrightarrow> read_laws lib \<Longrightarrow> returns (OSSCommandReply_Merge lib)"
  unfolding OSSCommandReply_Merge_def
  by (rule merge_loop_returns)
    (auto simp: oss_tables_ok fields_return_def oss_tables field_string_returns field_value_returns
      read_lawsD split: if_splits)

lemma OSSCommandMessage_returns:
  "stream_laws lib \<Longrightarrow> read_laws lib \<Longrightarrow> returns (OSSCommandMessage_Merge lib)"
  unfolding OSSCommandMessage_Merge_def
  by (rule merge_loop_returns)
    (auto simp: oss_tables_ok fields_return_def oss_tables field_message_returns field_value_returns
      read_lawsD OSSCommandRequest_returns OSSCommandReply_returns split: if_splits)



text \<open>Sub-messages first; each serializer, parser and size is one the interface asks for.\<close>

interpretation command_request: wire_message "[]" OSSCommandRequest_Merge OSSCommandRequest_Serialize
  OSSCommandRequest_ByteSize ascii
proof unfold_locales
  fix lib and m :: string
  assume laws: "wire_laws lib" and m: "ascii m" "OSSCommandRequest_ByteSize lib m < size_limit"
  then show "OSSCommandRequest_Merge lib [] (stream (OSSCommandRequest_Serialize lib m)) =
      Some (m, Some at_end)"
    using merge_string [OF laws oss_tables_ok(1) m(1), of 1, where rest = "[]"]
      merge_loop_at_end [OF wire_lawsD(1) [OF laws] oss_tables_ok(1)]
    by (cases "m = []") (simp_all add: OSSCommandRequest_Merge_def OSSCommandRequest_Serialize_def
        OSSCommandRequest_ByteSize_def OSSCommandRequest_fields_def)
qed (simp_all add: OSSCommandRequest_returns OSSCommandRequest_ByteSize_def
    OSSCommandRequest_Serialize_def written_sizes split: if_splits)

lemma OSSCommandReply_written:
  assumes laws: "wire_laws lib" and m: "ascii (ocr_return_msg m)"
    and size: "OSSCommandReply_ByteSize lib m < size_limit"
  shows "OSSCommandReply_Merge lib default_OSSCommandReply (stream (OSSCommandReply_Serialize lib m)) =
    Some (m, Some at_end)"
proof -
  let ?t = "OSSCommandReply_fields lib" and ?m = "default_OSSCommandReply"
  have tags: "?t (word_of_nat (8 * 1)) = Some (field_value (ReadInt32 lib) (\<lambda>v m. m\<lparr>ocr_rc := v\<rparr>), [18], False)"
    "?t (word_of_nat (8 * 2 + 2)) =
      Some (field_string lib ocr_return_msg (\<lambda>s m. m\<lparr>ocr_return_msg := s\<rparr>), [], True)"
    by (simp_all add: OSSCommandReply_fields_def)
  have msg: "merge_loop lib ?t None x (stream (WriteStringToArray lib 2 (ocr_return_msg m) @ rest)) =
      merge_loop lib ?t None (x\<lparr>ocr_return_msg := ocr_return_msg m\<rparr>) (stream rest)"
    if "ocr_return_msg m \<noteq> []" for x rest
    using merge_string [OF laws oss_tables_ok(2) m _ _ _ tags(2)] that size
    by (simp add: OSSCommandReply_ByteSize_def)
  note rc = merge_value [OF laws oss_tables_ok(2) wire_lawsD(4) [OF laws] _ _ tags(1), where v = "ocr_rc m"]
  show ?thesis
    using merge_optional [OF rc] merge_optional [OF msg, where rest = "[]"]
      merge_loop_at_end [OF wire_lawsD(1) [OF laws] oss_tables_ok(2)]
    by (simp add: OSSCommandReply_Merge_def OSSCommandReply_Serialize_def default_OSSCommandReply_def)
qed


interpretation command_reply: wire_message default_OSSCommandReply OSSCommandReply_Merge
  OSSCommandReply_Serialize OSSCommandReply_ByteSize "\<lambda>m. ascii (ocr_return_msg m)"
  by (rule wire_message.intro; (rule OSSCommandReply_returns OSSCommandReply_written; assumption)?)
    (simp add: OSSCommandReply_ByteSize_def OSSCommandReply_Serialize_def written_sizes split: if_splits)

lemma oss_type_of_number: "oss_type_of n = t \<Longrightarrow> oss_type_number t = n"
  by (auto simp: oss_type_of_def)

lemma oss_type_of_named: "t = OSS_REQUEST \<or> t = OSS_REPLY \<Longrightarrow> oss_type_of (oss_type_number t) = t"
  by (auto simp: oss_type_of_def)

lemma OSSCommandMessage_written:
  assumes laws: "wire_laws lib" and m: "oss_plain m"
    and size: "OSSCommandMessage_ByteSize lib m < size_limit"
  shows "OSSCommandMessage_Merge lib default_OSSCommandMessage (stream (OSSCommandMessage_Serialize lib m)) =
    Some (m, Some at_end)"
proof -
  let ?t = "OSSCommandMessage_fields lib" and ?m = "default_OSSCommandMessage"
  have tags: "?t (word_of_nat (8 * 1)) =
      Some (field_value (ReadEnum lib) (\<lambda>v m. m\<lparr>ocm_type := oss_type_of v\<rparr>), [18], False)"
    "?t (word_of_nat (8 * 2 + 2)) =
      Some (field_message lib (OSSCommandRequest_Merge lib) oss_command oss_set_command, [], True)"
    "?t (word_of_nat (8 * 3 + 2)) =
      Some (field_message lib (OSSCommandReply_Merge lib) oss_reply (\<lambda>r. oss_mutable_reply (\<lambda>_. r)), [], True)"
    by (simp_all add: OSSCommandMessage_fields_def)
  note parse = merge_loop_at_end [OF wire_lawsD(1) [OF laws] oss_tables_ok(3)]
  define x where "x = (if oss_type_number (ocm_type m) \<noteq> 0
    then ?m\<lparr>ocm_type := oss_type_of (oss_type_number (ocm_type m))\<rparr> else ?m)"
  have x: "ocm_type x = ocm_type m" "ocm_rq x = OSS_RQ_NOT_SET"
    using m by (auto simp: x_def default_OSSCommandMessage_def oss_plain_def oss_type_of_def)
  have type: "merge_loop lib ?t None ?m (stream ((if oss_type_number (ocm_type m) \<noteq> 0
      then WriteEnumToArray lib 1 (oss_type_number (ocm_type m)) else []) @ rest)) =
      merge_loop lib ?t None x (stream rest)" for rest
    unfolding x_def
    by (rule merge_optional, rule merge_value [OF laws oss_tables_ok(3) wire_lawsD(6) [OF laws] _ _ tags(1)]) simp_all
  show ?thesis
  proof (cases "ocm_rq m")
    case OSS_RQ_NOT_SET
    with x have "x = m" by (cases m; cases x) simp
    with OSS_RQ_NOT_SET type [of "[]"] parse show ?thesis
      by (simp add: OSSCommandMessage_Merge_def OSSCommandMessage_Serialize_def)
  next
    case (kCommandRequest c)
    have "merge_loop lib ?t None x (stream (WriteMessageToArray lib 2 (OSSCommandRequest_ByteSize lib c)
          (OSSCommandRequest_Serialize lib c) @ [])) =
        merge_loop lib ?t None (oss_set_command c x) (stream [])"
      using m size x kCommandRequest
      by (intro command_request.merge_message [OF laws oss_tables_ok(3) _ _ _ _ _ tags(2)])
        (simp_all add: oss_plain_def sendable_def OSSCommandMessage_ByteSize_def oss_command_def)
    moreover have "oss_set_command c x = m"
      using kCommandRequest x by (cases m; cases x) (simp add: oss_set_command_def)
    ultimately show ?thesis using kCommandRequest type parse
      by (simp add: OSSCommandMessage_Merge_def OSSCommandMessage_Serialize_def)
  next
    case (kCommandReply r)
    have "merge_loop lib ?t None x (stream (WriteMessageToArray lib 3 (OSSCommandReply_ByteSize lib r)
          (OSSCommandReply_Serialize lib r) @ [])) =
        merge_loop lib ?t None (oss_mutable_reply (\<lambda>_. r) x) (stream [])"
      using m size x kCommandReply
      by (intro command_reply.merge_message [OF laws oss_tables_ok(3) _ _ _ _ _ tags(3)])
        (simp_all add: oss_plain_def sendable_def OSSCommandMessage_ByteSize_def oss_reply_def)
    moreover have "oss_mutable_reply (\<lambda>_. r) x = m"
      using kCommandReply x by (cases m; cases x) (simp add: oss_mutable_reply_def)
    ultimately show ?thesis using kCommandReply type parse
      by (simp add: OSSCommandMessage_Merge_def OSSCommandMessage_Serialize_def)
  qed
qed

interpretation command_message: wire_message default_OSSCommandMessage OSSCommandMessage_Merge
  OSSCommandMessage_Serialize OSSCommandMessage_ByteSize oss_plain
  by (rule wire_message.intro; (rule OSSCommandMessage_returns OSSCommandMessage_written; assumption)?)
    (simp add: OSSCommandMessage_ByteSize_def OSSCommandMessage_Serialize_def written_sizes
      command_request.length_message command_reply.length_message split: if_splits OssRqCase.splits)

text \<open>Texts below \<open>2 ^ 30\<close> keep the message below the limit: a number takes at most ten bytes.\<close>

lemma oss_plain_size:
  assumes laws: "wire_laws lib" and m: "oss_plain m"
  shows "OSSCommandMessage_ByteSize lib m < size_limit"
proof -
  note bounds = prefixed_sizes [OF laws] varint_sizes(2,4) [OF laws]
  have request: "OSSCommandRequest_ByteSize lib c \<le> 11 + length c" for c
    using bounds(1) [of c] by (simp add: OSSCommandRequest_ByteSize_def)
  have reply: "OSSCommandReply_ByteSize lib r \<le> 22 + length (ocr_return_msg r)" for r
    using bounds(1) [of "ocr_return_msg r"] bounds(3) [of "ocr_rc r"]
    by (simp add: OSSCommandReply_ByteSize_def)
  have type: "(if oss_type_number (ocm_type m) \<noteq> 0 then 1 + EnumSize lib (oss_type_number (ocm_type m)) else 0) \<le> 11"
    using bounds(4) [of "oss_type_number (ocm_type m)"] by simp
  have rq: "(case ocm_rq m of
        kCommandRequest c \<Rightarrow> 1 + MessageSizeNoVirtual lib (OSSCommandRequest_ByteSize lib c)
      | kCommandReply r \<Rightarrow> 1 + MessageSizeNoVirtual lib (OSSCommandReply_ByteSize lib r)
      | OSS_RQ_NOT_SET \<Rightarrow> 0) < 34 + 2 ^ 30"
  proof (cases "ocm_rq m")
    case (kCommandRequest c)
    with m request [of c] bounds(2) [of "OSSCommandRequest_ByteSize lib c"] show ?thesis
      by (simp add: oss_plain_def sendable_def)
  next
    case (kCommandReply r)
    with m reply [of r] bounds(2) [of "OSSCommandReply_ByteSize lib r"] show ?thesis
      by (simp add: oss_plain_def sendable_def)
  qed simp
  have "45 + 2 ^ 30 \<le> size_limit" by (simp add: size_limit_def)
  with type rq show ?thesis unfolding OSSCommandMessage_ByteSize_def by linarith
qed

lemma oss_format_ok: "wire_laws lib \<Longrightarrow> oss_wire_ok (oss_format lib)"
  using command_message.parse_serialize oss_plain_size by (simp add: oss_wire_ok_def oss_format_def)

lemma oss_message_parse_returns:
  "stream_laws lib \<Longrightarrow> read_laws lib \<Longrightarrow>
   \<exists>ok m. parse_from_string (OSSCommandMessage_Merge lib) default_OSSCommandMessage raw = Some (ok, m) \<and>
     oss_parse (oss_format lib) raw = (ok, m)"
  using command_message.parse_returns [of lib raw] by (auto simp: oss_format_def)

end
