(* ===== verification/Spec2Isabelle.thy ===== *)
theory Spec2Isabelle
  imports WaitingItems JobObjects ServerObjects ZmqMessage ZHelpers DemoRules DemoWire OssCodec MessageCopy
begin

text \<open>
  A model of \<^bold>\<open>qos-planner\<close>, a server that reserves throughput on the object storage targets
  (OSTs) of a Lustre file system, of its command line client, and of the small server that
  sets rules on an object storage server (OSS). Sources are under \<open>src/src/\<close>.

  \<^bold>\<open>The program.\<close> A client asks for MB/s on the OSTs of some files for some seconds. The
  server's main thread (\<open>server/Server.cpp\<close>) receives requests and gives them to the planner
  (\<open>common/Planner.cpp\<close>), which computes the OSTs of the files, asks a scheduler
  (\<open>JobSchedulerStaticWorkloads\<close>, or \<open>JobSchedulerDynWorkloads\<close> over a \<open>ClusterState\<close>)
  whether the job fits, stores it in the schedule (\<open>MemoryScheduleState\<close>) and registers it
  with the monitor (\<open>JobMonitor\<close>). The monitor's thread takes start and stop events from a
  priority queue and sets or removes TBF rules on the OSSs through the \<open>RuleManager\<close>, which
  uses two caches (\<open>OstIdsConverter\<close>, \<open>OstIpsCache\<close>), the Lustre tools (\<open>Lustre\<close>) and a
  rule setter (over ssh, or over the rule server of \<open>oss_rule_server/\<close>).

  \<^bold>\<open>The theories.\<close>
  \<^item> \<open>Prelude\<close>: optional and ordered-map helpers, \<open>std::getline\<close>, multisets of list suffixes.
  \<^item> \<open>Job\<close> (\<open>common/Job.h\<close>), \<open>JobPriorityQueue\<close>: jobs; the event heap, an array with
    \<open>Up\<close>, \<open>Down\<close>, \<open>Push\<close>, \<open>Pop\<close>, \<open>Peek\<close>, \<open>Remove\<close>, and the contract \<open>event_queue\<close> it meets.
    \<open>WaitingItems\<close>: the same operations on the pointers the code has, with the allocation and
    deletion of the objects, and the correspondence to the operations on items.
  \<^item> \<open>MemoryScheduleState\<close>: the schedule, an explicit heap of \<open>Job\<close> objects with the map of
    ids and the per-OST lists of pointers into it; a read of a dangling pointer is \<open>None\<close>. Its
    contract \<open>schedule_store\<close> is the abstract class \<open>ScheduleState.h\<close> over a finite map.
  \<^item> \<open>JobObjects\<close>: who owns the \<open>Job\<close> objects: the copies \<open>GetAllJobs\<close> gives away, its two callers
    on pointers, and the objects that are left after any sequence of calls.
  \<^item> \<open>Exec\<close> (\<open>common/util.h\<close>), \<open>RuleSetter\<close>, \<open>LustreInterface\<close>, \<open>Regex\<close>, \<open>LocalLustre\<close>
    (\<open>common/Lustre.cpp\<close>): shell commands, their construction and the parsing of their output.
  \<^item> \<open>OstCaches\<close>, \<open>RuleManager\<close>, \<open>AsyncRules\<close>: the caches, the rules of a job on its OSSs, and
    the asynchronous tasks that set them in any order.
  \<^item> \<open>JobMonitor\<close>, \<open>MonitorLoop\<close>: the monitor's methods in sequence, and its loop.
  \<^item> \<open>ClusterState\<close>, \<open>Float32\<close>, \<open>OSTLimits\<close> (\<open>OSTLimitConfigParser\<close>), \<open>JobScheduler\<close>,
    \<open>JobSchedulerStaticWorkloads\<close>, \<open>JobSchedulerDynWorkloads\<close>: the two schedulers. The
    interface both provide is the locale \<open>job_scheduler\<close>.
  \<^item> \<open>MonitorInvariant\<close>: the invariant over schedule, queue and rules, kept by every operation.
    \<open>InstalledRules\<close>: the invariant of the rules that are on the OSSs while the server runs.
    \<open>JobLife\<close>: the passes that start and stop a reserved job.
  \<^item> \<open>MonitorThreads\<close>, \<open>MonitorRaces\<close>, \<open>MonitorTearDown\<close>: the monitor's thread and the request
    thread interleaved at the granularity of the mutexes, as a step relation; two runs that
    end badly; and a measure on the steps left once \<open>TearDown\<close> has set its flag.
  \<^item> \<open>ZeroMQ\<close> (\<open>common/communication/zmq.hpp\<close>, \<open>zhelpers.hpp\<close>): contexts, sockets, messages,
    \<open>s_send\<close> and \<open>s_recv\<close> over the functions of the C library, which are parameters. What the
    program does not call of these headers is in \<open>ZmqMessage\<close> (messages as structures over
    memory), \<open>ZmqSocket\<close>, \<open>ZmqMonitor\<close> (the event monitor) and \<open>ZHelpers\<close> (dumping, identities,
    versions, time, signals).
  \<^item> \<open>Messages\<close> (\<open>common/rpc/proto/\<close>), \<open>ListJobsFormatter\<close>, \<open>Planner\<close>, \<open>Responder\<close>, \<open>Server\<close>:
    requests and replies, the \<open>REP\<close> socket, and the path of a request through the server.
  \<^item> \<open>Requester\<close>, \<open>Client\<close> (\<open>client/\<close>), \<open>OssRules\<close> (\<open>OssStubRuleSetter\<close>,
    \<open>oss_rule_server/\<close>): the \<open>REQ\<close> side of the exchanges, and the rule server.
  \<^item> \<open>WireFormat\<close>, \<open>MessageCodec\<close>, \<open>MessageCopy\<close>, \<open>OssCodec\<close>: the parsers, serializers, sizes and
    copies that protoc generated (\<open>message.pb.cc\<close>, \<open>oss_server_message.pb.cc\<close>) over the runtime
    of protobuf; the locale \<open>wire_message\<close> is what each of the ten classes provides.
  \<^item> \<open>MessageObjects\<close>, \<open>ServerObjects\<close>: the messages as objects that allocate, release and delete
    the messages embedded in them, and a turn of the server on such objects.
  \<^item> \<open>Mains\<close>: the three programs, from their flags to the end of \<open>main\<close> or its endless loop.
  \<^item> \<open>EndToEnd\<close>: the client with the server's loop behind its socket.
  \<^item> \<open>Examples\<close>, \<open>DemoZmq\<close>, \<open>DemoWire\<close>, \<open>DemoRules\<close>: concrete states,
    environments and libraries for the witnesses.

  \<^bold>\<open>Conventions.\<close> A definition has the name of the C++ method, with the class as a prefix where
  two classes share a method name. A method that writes through an output parameter takes the
  parameter's value before the call and returns it with the result. An outer \<open>None\<close> (or \<open>Inl\<close>)
  is undefined behaviour, an uncaught exception or a call that does not return, as the text at
  the definition says. Machine integers are words; time points, signed 64-bit nanoseconds, are
  integers with the overflow of \<open>now + seconds\<close> tested. Uninitialised variables are parameters.
  What the program does outside itself changes a world \<open>'w\<close>; the shell, Lustre, the C library
  of ZeroMQ, the runtime of protobuf, the JSON library, gflags, \<open>std::regex\<close> compilation of user input and time
  formatting are parameters. What a theorem needs of them is a named hypothesis that states
  documented behaviour (\<open>message_calls\<close>, \<open>tracks_sockets\<close>, \<open>carries\<close>, \<open>rep_protocol\<close>,
  \<open>wire_laws\<close>), and a theory of examples has an instance of each.

  \<^bold>\<open>What is shown.\<close> C1-C9: the monitor's pass, the server's process from its start, the requests
  and the events keep the invariant and do what they should; an active job's rules are on its
  OSSs; a reservation is started and stopped at its times; tearing the monitor down ends.
  C10-C13: the schedule refines a finite map; its lists stay sorted but keep removed jobs; its
  objects are used safely, and leaked by removals and listings. C14-C15: the latest event is at
  the root of the queue, so overdue events starve; the objects of the queue are used safely, and
  leaked by \<open>Remove\<close>. C16-C19: rules are set on exactly the recorded OSSs, at the summed rate, in
  any order of the tasks, and a partial failure leaves rules behind. C20-C21: what the schedulers
  decide; neither counts reserved load, and the dynamic one accepts jobs that never start.
  C22-C25: the limits file, the ways to set a rule, and the parsers of the Lustre tools' output,
  one of them against a scanner. C26-C31: requests and replies, two commands of the client from
  end to end, and the messages on the wire. C32-C37: what the server sends, what ends it and what
  its messages leave behind, retries, the rule server and the sockets. C38-C40: the threads.
  Theorems without a number are consequences and details of these.

  \<^bold>\<open>Bounds and fuel.\<close> Three kinds of loop are bounded. \<open>poll_loop\<close> counts the retries of the
  code, \<open>kRequestRetries = 3\<close>; \<open>update_turns\<close> takes one element of a list per turn of a loop
  that runs until another thread ends it. The endless loops of the servers (\<open>Serve\<close>,
  \<open>server_runs\<close>, \<open>OSS_Serve\<close>) take a list or a number of turns, for any of which the theorems
  hold. The loop of the generated parsers is a partial function, and C30 is that it returns.
  Every other loop terminates by its own measure: \<open>drain_ready\<close>, the monitor's inner
  loop, by the weight of the queue, in which a start event weighs more than the stop event it
  may be replaced by.

  \<^bold>\<open>Not modelled.\<close> Of the generated message classes what nothing calls: \<open>New\<close>, the accessors
  that give away or take over single strings, arenas, descriptors and reflection, and the serializers to a stream, which
  write what those to an array write; of the vendored ZeroMQ headers the branches for Windows
  and for older compilers and libraries; logging and the usage text; the interleaving inside a
  mutex section.
  The getters of the parsers are inlined where they are called. \<open>ScheduleState\<close> and \<open>JobScheduler\<close> are abstract
  classes, the locales \<open>schedule_store\<close> and \<open>job_scheduler\<close>.
\<close>

section \<open>The schedule, the monitor and the rules together\<close>

text \<open>
  C1. A pass of the monitor loop: from a state that satisfies the invariant, handling every
  event that is ready terminates without undefined behaviour and without blocking, the
  invariant holds again, and the event at the top of the queue is not ready any more.
\<close>

theorem monitor_pass_invariant:
  assumes "mon_inv m"
  shows "\<exists>m' n'. drain_ready env clock 0 m = Some m' \<and> mon_inv m' \<and> \<not> isThereAReadyJob m' (clock n')"
  using drain_ready_inv [OF assms, of env clock 0] by blast

theorem monitor_pass_invariant_witness:
  "\<exists>m' n'. drain_ready demo_env (\<lambda>n. 15) 0 demo_monitor = Some m' \<and> mon_inv m' \<and>
    \<not> isThereAReadyJob m' 15"
  using monitor_pass_invariant [OF mon_inv_demo_monitor, of demo_env "\<lambda>n. 15"] by simp





text \<open>
  The request loop of the server: whatever messages arrive and whatever the clock, the
  uninitialised memory and the libraries answer, the state it goes on with after any number
  of turns satisfies the invariant.
\<close>

theorem server_loop_invariant:
  assumes "mon_inv (pl_monitor p)" and "Serve wire surs (p, z) = Inr (p', z')"
  shows "mon_inv (pl_monitor p')"
  using assms by (rule Serve_inv)

theorem server_loop_invariant_witness:
  "\<exists>p' z'. Serve demo_wire [demo_surroundings] (demo_planner, [''remove''], [], False) = Inr (p', z') \<and>
    mon_inv (pl_monitor p')"
proof -
  obtain p' where "ServeJobRemove demo_env demo_planner demo_remove =
      Inr (True, mutable_reply (\<lambda>r. r\<lparr>rep_rc := 0\<rparr>) demo_remove, p')"
    using ServeJobRemove_total [OF mon_inv_demo_planner] by blast
  then have run: "Serve demo_wire [demo_surroundings] (demo_planner, [''remove''], [], False) =
      Inr (p', [], [''answer''], False)"
    by (simp add: Serve_turn_def demo_wire_def ProcessMessage_def demo_surroundings_def demo_remove_def
        Remove_BuildRequest_def mutable_deleterequest_def mutable_request_def request_def default_Message_def)
  from server_loop_invariant [OF mon_inv_demo_planner this] run show ?thesis by blast
qed



text \<open>
  C5. A reservation request whose files name OSTs and whose end can be represented is always
  answered, with \<open>rc\<close> 0 or -1. Accepted, its id was free, and the job is stored as
  \<open>SCHEDULED\<close> with its interval, throughput and OSTs and with a start event; refused, jobs
  and events are as before. The rules do not change, and the invariant is kept.
\<close>

theorem reservation_outcome:
  assumes "mon_inv (pl_monitor p)" and "rr_files (resourcerequest (request msg)) \<noteq> []"
    and "tryComputeOstSetOfRequest (env_lustre env) (mon_world (pl_monitor p))
      (rr_files (resourcerequest (request msg))) {} = (True, osts, w1)"
    and "reservation_end now (resourcerequest (request msg)) = Some tend"
    and "j = BuildJob (resourcerequest (request msg)) now tend (iterate osts)"
  shows "\<exists>b p'. ServeJobSubmission env uninit iterate now p msg =
      Inr (b, mutable_reply (\<lambda>r. r\<lparr>rep_rc := if b then 0 else - 1\<rparr>) msg, p') \<and>
    mon_inv (pl_monitor p') \<and> mrules (pl_monitor p') = mrules (pl_monitor p) \<and>
    (if b then mjobs (pl_monitor p) (job_id j) = None \<and>
       mjobs (pl_monitor p') = (mjobs (pl_monitor p))(job_id j \<mapsto> j\<lparr>job_state := SCHEDULED\<rparr>) \<and>
       mitems (pl_monitor p') = add_mset (start_item (job_id j) j) (mitems (pl_monitor p))
     else mjobs (pl_monitor p') = mjobs (pl_monitor p) \<and>
       job_priority_queue (pl_monitor p') = job_priority_queue (pl_monitor p))"
  using ServeJobSubmission_spec [where osts = osts and iterate = iterate, OF assms] .

theorem reservation_outcome_witness:
  "\<exists>b p'. ServeJobSubmission demo_env (\<lambda>n. 0) sorted_list_of_set 1000 demo_planner demo_reserve =
      Inr (b, mutable_reply (\<lambda>r. r\<lparr>rep_rc := if b then 0 else - 1\<rparr>) demo_reserve, p') \<and>
    mon_inv (pl_monitor p')"
proof -
  have files: "rr_files (resourcerequest (request demo_reserve)) \<noteq> []" by code_simp
  have osts: "tryComputeOstSetOfRequest (env_lustre demo_env) (mon_world (pl_monitor demo_planner))
      (rr_files (resourcerequest (request demo_reserve))) {} = (True, {''0''}, ())" by code_simp
  have fin: "reservation_end 1000 (resourcerequest (request demo_reserve)) = Some 60000001000"
    by code_simp
  from reservation_outcome [OF mon_inv_demo_planner files osts fin refl, of "\<lambda>n. 0" sorted_list_of_set]
  show ?thesis by blast
qed



text \<open>
  C7. Handling a start event: the job is stored as \<open>SCHEDULED\<close>; when its rules can be set it
  becomes \<open>ACTIVE\<close> and its stop event is queued, otherwise jobs stay as they are and the
  event is gone, so that nothing will ever start the job.
\<close>

theorem start_event_outcome:
  assumes "mon_inv m" and "Pop (job_priority_queue m) = (Some x, q)" and "eventType x = JOBSTART"
  shows "\<exists>j m' set_ok rm w. mjobs m (wi_jobid x) = Some j \<and> job_state j = SCHEDULED \<and>
    SetRules (env_lustre env) (env_setter env) (mon_rules m) (mon_world m) (job_osts j)
      (wi_jobid x) (job_throughput j) = (set_ok, rm, w) \<and>
    Handle env (m\<lparr>job_priority_queue := q\<rparr>) (wi_jobid x) (eventType x) = Some m' \<and>
    mrules m' = active_rules rm \<and>
    (if set_ok then mjobs m' = (mjobs m)(wi_jobid x \<mapsto> j\<lparr>job_state := ACTIVE\<rparr>) \<and>
       mitems m' = add_mset (stop_item (wi_jobid x) j) (mset q)
     else mjobs m' = mjobs m \<and> mitems m' = mset q)"
  using Handle_start_outcome [OF assms] .

theorem start_event_outcome_witness:
  "\<exists>m'. Handle demo_env (demo_monitor\<lparr>job_priority_queue := []\<rparr>) ''a'' JOBSTART = Some m'"
  using start_event_outcome [OF mon_inv_demo_monitor demo_pop, of demo_env] by (auto simp: start_a_def)

text \<open>
  C8. Handling a stop event removes the job and its entry in the active rules, and nothing
  else, whether or not the rules could be removed from the OSSs.
\<close>

theorem stop_event_outcome:
  assumes "mon_inv m" and "Pop (job_priority_queue m) = (Some x, q)" and "eventType x = JOBSTOP"
  shows "\<exists>m'. Handle env (m\<lparr>job_priority_queue := q\<rparr>) (wi_jobid x) (eventType x) = Some m' \<and>
    mjobs m' = (mjobs m)(wi_jobid x := None) \<and> mrules m' = (mrules m)(wi_jobid x := None) \<and>
    job_priority_queue m' = q"
  using Handle_stop_outcome [OF assms] .

theorem stop_event_outcome_witness:
  "\<exists>m'. Handle demo_env (demo_active\<lparr>job_priority_queue := []\<rparr>) ''a'' JOBSTOP = Some m' \<and>
    mjobs m' ''a'' = None \<and> mrules m' ''a'' = None"
  using stop_event_outcome [OF mon_inv_demo_active demo_active_pop, of demo_env]
  by (auto simp: stop_a_def)

text \<open>
  A monitor that is initialised on an existing schedule, with an empty queue, queues the
  start of every scheduled and the stop of every active job: the invariant holds from then on.
\<close>

theorem init_establishes_invariant:
  assumes "mwf m" and "keyed m" and "job_priority_queue m = []"
    and "in_flight_jobs m = {}" and "\<not> monitor_thread_started m"
    and "\<forall>k j. mjobs m k = Some j \<longrightarrow> job_state j = SCHEDULED \<or> job_state j = ACTIVE"
    and "\<forall>k. mrules m k \<noteq> None \<longleftrightarrow> is_active m k"
  shows "\<exists>m'. JobMonitor_Init True m = Some (True, m') \<and> mon_inv m' \<and> mjobs m' = mjobs m"
  using JobMonitor_Init_inv [OF assms] .

theorem init_establishes_invariant_witness:
  "\<exists>m'. JobMonitor_Init True (demo_monitor\<lparr>job_priority_queue := []\<rparr>) = Some (True, m') \<and> mon_inv m'"
proof -
  let ?m = "demo_monitor\<lparr>job_priority_queue := []\<rparr>"
  have "mwf ?m" using mon_inv_demo_monitor by (simp add: mon_inv_def)
  moreover have "keyed ?m" "\<forall>k j. mjobs ?m k = Some j \<longrightarrow> job_state j = SCHEDULED \<or> job_state j = ACTIVE"
    using keys_inv_stored [OF mon_invD(3) [OF mon_inv_demo_monitor]] by (simp_all add: keyed_def)
  moreover have "\<forall>k. mrules ?m k \<noteq> None \<longleftrightarrow> is_active ?m k"
    using rules_iff_active [OF mon_invD(3) [OF mon_inv_demo_monitor]] by (simp add: is_active_def)
  moreover have "in_flight_jobs ?m = {}" "\<not> monitor_thread_started ?m" by code_simp+
  ultimately show ?thesis using init_establishes_invariant [of ?m] by auto
qed

text \<open>
  A second \<open>Init\<close> of a running monitor fails, but only after it has queued a second
  event for every scheduled or active job.
\<close>

theorem second_init_duplicates_events:
  assumes "mon_inv m" and "monitor_thread_started m"
  shows "\<exists>m'. JobMonitor_Init True m = Some (False, m') \<and>
    (\<forall>k. pending (mitems m') k = pending (mitems m) k +
      (case mjobs m k of None \<Rightarrow> {#} | Some j \<Rightarrow> state_event k j))"
  using JobMonitor_Init_again [OF assms] .

theorem second_init_duplicates_events_witness:
  "\<exists>m'. JobMonitor_Init True (demo_monitor\<lparr>monitor_thread_started := True\<rparr>) = Some (False, m')"
proof -
  have "mon_inv (demo_monitor\<lparr>monitor_thread_started := True\<rparr>)"
    using mon_inv_demo_monitor by (simp add: mon_inv_def keys_inv_def)
  from second_init_duplicates_events [OF this] show ?thesis by auto
qed

text \<open>
  C9. Tearing the monitor down ends: from any reachable state in which \<open>TearDown\<close> has set the
  exit flag, the two threads together can take only a bounded number of steps, whatever the
  clock shows and however many events are due, and when none is left \<open>TearDown\<close> has returned.
\<close>

theorem teardown_terminates:
  assumes "reachable env w (mp, sp, m)" and "tearing sp"
  shows "(\<forall>n t. (thread_step env ^^ n) (mp, sp, m) t \<longrightarrow> n \<le> steps_left (mp, sp, m)) \<and>
    (\<forall>t. (thread_step env)\<^sup>*\<^sup>* (mp, sp, m) t \<longrightarrow> \<not> (\<exists>u. thread_step env t u) \<longrightarrow>
      fst t = MDone \<and> fst (snd t) = SDown)"
proof (intro conjI allI impI)
  note torn = reachable_torn [OF assms]
  fix n t assume "(thread_step env ^^ n) (mp, sp, m) t"
  from torn_runs [OF this torn] show "n \<le> steps_left (mp, sp, m)" by simp
next
  note torn = reachable_torn [OF assms]
  fix t assume run: "(thread_step env)\<^sup>*\<^sup>* (mp, sp, m) t" and stuck: "\<not> (\<exists>u. thread_step env t u)"
  obtain n where "(thread_step env ^^ n) (mp, sp, m) t" using run by (auto simp: rtranclp_power)
  from torn_runs [OF this torn] have "torn t" by simp
  moreover have "thread_inv t"
    using assms(1) run by (intro reachable_inv [of env w]) (auto simp: reachable_def)
  ultimately show "fst t = MDone" "fst (snd t) = SDown"
    using torn_progress [of "fst t" "fst (snd t)" "snd (snd t)" env] stuck by auto
qed

theorem teardown_terminates_witness:
  "\<exists>mp sp m. reachable demo_env () (mp, sp, m) \<and> sp = STearWait \<and>
    (\<forall>n t. (thread_step demo_env ^^ n) (mp, sp, m) t \<longrightarrow> n \<le> 5)"
proof -
  let ?m = "(new_monitor empty_state empty_rules ())\<lparr>monitor_thread_started := True\<rparr>"
  have "thread_step demo_env (MEnter, SIdle, ?m) (MEnter, STearDown, ?m)" by (rule thread_step.tear_down)
  moreover have "thread_step demo_env (MEnter, STearDown, ?m) (MEnter, STearWait, TearDown_signal ?m)"
    by (rule thread_step.server) simp
  ultimately have r: "reachable demo_env () (MEnter, STearWait, TearDown_signal ?m)"
    unfolding reachable_def start_threads_def by (meson converse_rtranclp_into_rtranclp rtranclp.rtrancl_refl)
  have "steps_left (MEnter, STearWait, TearDown_signal ?m) = 5"
    by (simp add: steps_left_def queue_weight_def TearDown_signal_def new_monitor_def)
  with teardown_terminates [OF r] r show ?thesis by auto
qed
section \<open>The schedule\<close>

text \<open>
  C10. The schedule is a finite map from ids to jobs: on a well-formed state adding, removing
  and updating a job return and do to the abstract map what they say, a failed call changes
  nothing, and the status getter reads the map. No call reads a dangling pointer.
\<close>

theorem schedule_refines_map:
  assumes "wf_state s"
  shows "(\<exists>s'. AddJob s k j osts = Some (abs_jobs s k = None, s') \<and> wf_state s' \<and>
        abs_jobs s' = (if abs_jobs s k = None then (abs_jobs s)(k \<mapsto> j) else abs_jobs s)) \<and>
    (\<exists>s'. RemoveJob s k = Some (abs_jobs s k \<noteq> None, s') \<and> wf_state s' \<and>
        abs_jobs s' = (abs_jobs s)(k := None)) \<and>
    (\<exists>s'. UpdateJob s k st = Some (abs_jobs s k \<noteq> None, s') \<and> wf_state s' \<and>
        abs_jobs s' = (abs_jobs s)(k := map_option (\<lambda>j. j\<lparr>job_state := st\<rparr>) (abs_jobs s k))) \<and>
    GetJobStatus s k o0 =
      Some (case abs_jobs s k of None \<Rightarrow> (False, o0) | Some j \<Rightarrow> (True, job_state j))"
  by (intro conjI mss.add_law mss.rem_law mss.upd_law mss.status_law assms)

theorem schedule_refines_map_witness:
  "\<exists>s'. AddJob empty_state ''a'' (demo_job ''a'' 1 2) [''0''] = Some (True, s') \<and>
    abs_jobs s' = [''a'' \<mapsto> demo_job ''a'' 1 2]"
  using schedule_refines_map [OF wf_empty, of "''a''" "demo_job ''a'' 1 2" "[''0'']" ACTIVE DONE] by auto

text \<open>
  C11. The job list of every OST stays ordered by start time through every change of the
  schedule.
\<close>

theorem ost_lists_stay_sorted:
  assumes "wf_state s" and "lists_sorted s"
    and "AddJob s k j osts = Some (b, s') \<or> RemoveJob s k = Some (b, s') \<or> UpdateJob s k st = Some (b, s')"
  shows "lists_sorted s'"
  using assms(3) AddJob_sorted [OF assms(1,2)] RemoveJob_sorted [OF assms(1,2)] UpdateJob_sorted [OF assms(1,2)]
  by (elim disjE) blast+

theorem ost_lists_stay_sorted_witness:
  "case AddJob empty_state ''a'' (demo_job ''a'' 1 2) [''0''] of None \<Rightarrow> False
   | Some (b, s') \<Rightarrow> lists_sorted s'"
proof -
  obtain s' where "AddJob empty_state ''a'' (demo_job ''a'' 1 2) [''0''] = Some (True, s')"
    using AddJob_new [OF wf_empty, of "''a''" "demo_job ''a'' 1 2" "[''0'']"] by auto
  moreover from ost_lists_stay_sorted [OF wf_empty _ disjI1 [OF this]] have "lists_sorted s'"
    by (simp add: lists_sorted_def starts_sorted_def empty_state_def subscript_def)
  ultimately show ?thesis by simp
qed

text \<open>
  C12. Adding a new job inserts its object once into the list of an OST for every time its
  OST list names it; removing the job afterwards succeeds and leaves all those lists as they
  are, the removed job's object included.
\<close>

theorem removed_job_stays_in_ost_lists:
  assumes "wf_state s" and "abs_jobs s k = None"
  shows "\<exists>s1 s2. AddJob s k j osts = Some (True, s1) \<and> RemoveJob s1 k = Some (True, s2) \<and>
    abs_jobs s2 = abs_jobs s \<and>
    (\<forall>ost. mset (subscript ost (ms_schedule s2)) =
      mset (subscript ost (ms_schedule s)) + replicate_mset (count_list osts ost) (ms_next s)) \<and>
    ms_heap s2 (ms_next s) = Some j"
proof -
  obtain s1 where s1: "AddJob s k j osts = Some (True, s1)" "wf_state s1" "abs_jobs s1 = (abs_jobs s)(k \<mapsto> j)"
    "add_to_osts ((ms_heap s)(ms_next s \<mapsto> j)) (job_tstart j) (ms_next s) osts (ms_schedule s)
      = Some (ms_schedule s1)" "ms_heap s1 = (ms_heap s)(ms_next s \<mapsto> j)"
    using AddJob_new [OF assms, of j osts] by blast
  then have "abs_jobs s1 k = Some j" by simp
  with RemoveJob_present [OF s1(2)] obtain s2 where "RemoveJob s1 k = Some (True, s2)"
    "abs_jobs s2 = (abs_jobs s1)(k := None)" "ms_heap s2 = ms_heap s1"
    "\<forall>ost. subscript ost (ms_schedule s2) = subscript ost (ms_schedule s1)" by blast
  moreover have "((abs_jobs s)(k \<mapsto> j))(k := None) = abs_jobs s" using assms(2) by auto
  ultimately show ?thesis using s1 add_to_osts_lists [OF s1(4)] by simp
qed

theorem removed_job_stays_in_ost_lists_witness:
  "\<exists>s1 s2. AddJob empty_state ''a'' (demo_job ''a'' 1 2) [''0''] = Some (True, s1) \<and>
    RemoveJob s1 ''a'' = Some (True, s2) \<and> abs_jobs s2 = Map.empty \<and>
    mset (subscript ''0'' (ms_schedule s2)) = {#0#}"
proof -
  have "abs_jobs empty_state ''a'' = None" by simp
  from removed_job_stays_in_ost_lists [OF wf_empty this, of "demo_job ''a'' 1 2" "[''0'']"]
  obtain s1 s2 where "AddJob empty_state ''a'' (demo_job ''a'' 1 2) [''0''] = Some (True, s1)"
    "RemoveJob s1 ''a'' = Some (True, s2)" "abs_jobs s2 = Map.empty"
    "mset (subscript ''0'' (ms_schedule s2)) = mset (subscript ''0'' (ms_schedule empty_state)) +
      replicate_mset (count_list [''0''] ''0'') (ms_next empty_state)" by auto
  then show ?thesis by (simp add: empty_state_def subscript_def)
qed

text \<open>
  C13. The \<open>Job\<close> objects: whatever the clients of the schedule call, in any order, no deleted
  object is read and none is deleted twice, the schedule is the finite map the same calls make,
  and the objects that exist are one for every job in it and those nobody can delete any more:
  one for every job that was removed, and as many as there were jobs for every listing, whose
  copies \<open>ServeListJobs\<close> does not delete. The copies made for \<open>FillWithExistingJobs\<close> are deleted.
\<close>

theorem job_objects_are_accounted_for:
  "\<exists>s m lost. job_calls cs empty_state = Some s \<and> fold map_call cs (Map.empty, 0) = (m, lost) \<and>
     abs_jobs s = m \<and> card (dom (ms_heap s)) = card (dom m) + lost"
proof -
  from job_calls_objects [OF job_objects_empty, of cs] obtain s where
    run: "job_calls cs empty_state = Some s" "job_objects (fold map_call cs (Map.empty, 0)) s" by blast
  then obtain l where l: "owns_jobs l s" "fold map_call cs (Map.empty, 0) = (abs_jobs s, card l)"
    by (auto simp: job_objects_def)
  with run(1) card_owned(1) [OF l(1)] show ?thesis by auto
qed

section \<open>The event queue\<close>

text \<open>
  The queue loses and invents nothing: popping until it is empty returns a permutation
  of the items pushed, whatever the order of the pushes.
\<close>

theorem queue_drains_what_was_pushed:
  "mset (drain (foldl Push [] xs)) = mset xs"
  by (simp add: mset_drain mset_foldl_Push)

text \<open>
  Pushes build a heap with the \<^emph>\<open>latest\<close> event at its root: on a queue filled by
  pushes \<open>Peek\<close> returns an item no other one is later than.
\<close>

theorem peek_returns_the_latest:
  assumes "Peek (foldl Push [] xs) = Some x" and "y \<in> set xs"
  shows "time_of_event y \<le> time_of_event x"
proof -
  have "max_heap (foldl Push [] xs)" by (rule max_heap_foldl_Push) (simp add: max_heap_def)
  moreover have "set (foldl Push [] xs) = set xs"
    using mset_foldl_Push [of "[]" xs] by (metis add_0 mset.simps(1) set_mset_mset)
  ultimately show ?thesis using max_heap_peek assms by blast
qed

theorem peek_returns_the_latest_witness:
  "time_of_event start_a \<le> time_of_event stop_a \<and> Peek (foldl Push [] [stop_a, start_a]) = Some stop_a"
proof -
  have "Peek (foldl Push [] [stop_a, start_a]) = Some stop_a" by code_simp
  from peek_returns_the_latest [OF this, of start_a] this show ?thesis by simp
qed



text \<open>
  C15. The objects behind the pointers: whatever the clients of the queue do, in any order, no
  deleted object is read and none is deleted twice, the pointers point to what the queue of
  items holds, and the objects that exist are those in the queue, the one the monitor has in
  hand, and one for every call of \<open>Remove\<close> that found its job, which nobody can delete any more.
\<close>

theorem event_objects_are_accounted_for:
  "\<exists>hand s removed. ptr_events es (None, JobPriorityQueue_new) = Some (hand, s) \<and>
     fold item_event es (None, [], 0) = (map_option (the \<circ> item_objects s) hand, items_of s, removed) \<and>
     card (dom (item_objects s)) =
       length (items_of s) + (case hand of None \<Rightarrow> 0 | Some _ \<Rightarrow> 1) + removed"
proof -
  from ptr_events_tracked [OF tracked_new, of es] obtain hand s where
    run: "ptr_events es (None, JobPriorityQueue_new) = Some (hand, s)"
    and t: "tracked (fold item_event es (None, [], 0)) (hand, s)" by auto
  obtain x q n where f: "fold item_event es (None, [], 0) = (x, q, n)" by (metis prod_cases3)
  with t have t: "tracked (x, q, n) (hand, s)" by simp
  from t have "x = map_option (the \<circ> item_objects s) hand" "q = items_of s" by (auto simp: tracked_def)
  with run f tracked_objects [OF t] show ?thesis by auto
qed

text \<open>
  \<open>Remove\<close> takes out an item of the given job exactly when there is one, and leaves
  every item of another job; with at most one event per job, none of that job is left.
\<close>

theorem remove_takes_the_jobs_event:
  assumes "one_event (mset q)" and "Remove q k = (b, q')"
  shows "b = (pending (mset q) k \<noteq> {#}) \<and> pending (mset q') k = {#} \<and> one_event (mset q') \<and>
    (\<forall>k'. k' \<noteq> k \<longrightarrow> pending (mset q') k' = pending (mset q) k')"
  using jpq.remove_iff [of q k] jpq.remove_one_event [OF assms] assms(2) by simp

theorem remove_takes_the_jobs_event_witness:
  "pending (mset (snd (Remove [start_a] ''a''))) ''a'' = {#}"
proof -
  have "one_event (mset [start_a])" by (simp add: one_event_def pending_def)
  moreover have "Remove [start_a] ''a'' = (True, [])" by code_simp
  ultimately have "pending (mset ([] :: WaitingItem list)) ''a'' = {#}"
    using remove_takes_the_jobs_event by blast
  moreover have "snd (Remove [start_a] ''a'') = []" by code_simp
  ultimately show ?thesis by simp
qed

section \<open>The rules on the OSSs\<close>



text \<open>
  C17. The rate of an OSS: every OSS of the job is asked once, for the job's throughput times
  the number of the job's OSTs it serves, in \<open>uint32_t\<close> arithmetic.
\<close>

theorem oss_rate_is_count_times_throughput:
  assumes "computeOssToMBsAndCountUnique mbs ips [] [] = (oss_to_mbs, uniq)"
  shows "map fst oss_to_mbs = uniq \<and> distinct uniq \<and>
    (\<forall>ip. map_of oss_to_mbs ip =
      (if ip \<in> set ips then Some (of_nat (count_list ips ip) * mbs) else None))"
  using compute_keys [OF assms] compute_distinct [OF assms] compute_map [OF assms] by simp

theorem oss_rate_is_count_times_throughput_witness:
  "computeOssToMBsAndCountUnique 7 [''x'', ''y'', ''x''] [] [] = ([(''x'', 14), (''y'', 7)], [''x'', ''y'']) \<and>
   map_of [(''x'', 14), (''y'', 7)] ''x'' = Some (of_nat (count_list [''x'', ''y'', ''x''] ''x'') * (7 :: u32))"
proof
  show run: "computeOssToMBsAndCountUnique 7 [''x'', ''y'', ''x''] [] [] =
      ([(''x'', 14), (''y'', 7)], [''x'', ''y''])" by simp
  from oss_rate_is_count_times_throughput [OF run] show "map_of [(''x'', 14), (''y'', 7)] ''x'' =
      Some (of_nat (count_list [''x'', ''y'', ''x''] ''x'') * (7 :: u32))" by simp
qed





text \<open>
  When the rule of some OSS cannot be set, the clean-up removes it from the OSSs that
  refused it and from no other: an OSS ends with the rule exactly when its own call
  succeeded, although the whole call reports failure and no rule is recorded.
\<close>

theorem partial_failure_keeps_rules:
  assumes "installs setter inst" and "distinct (map fst es)"
    and "SetRulesAsync setter w es job rule = (ok, w')"
    and "\<forall>i<length es. (fst (es ! i), rule) \<notin> inst w"
  shows "\<exists>oks. length oks = length es \<and> ok = (\<forall>b \<in> set oks. b) \<and>
    (\<forall>i<length es. (fst (es ! i), rule) \<in> inst w' \<longleftrightarrow> oks ! i)"
  using SetRulesAsync_each [OF assms] .

theorem partial_failure_keeps_rules_witness:
  "SetRulesAsync (set_setter ''ip1'') {} [(''ip0'', 5), (''ip1'', 5)] ''a'' ''r'' = (False, {(''ip0'', ''r'')}) \<and>
   (\<exists>oks. length oks = 2 \<and> \<not> (\<forall>b \<in> set oks. b) \<and> oks ! 0)"
proof
  show run: "SetRulesAsync (set_setter ''ip1'') {} [(''ip0'', 5), (''ip1'', 5)] ''a'' ''r'' =
      (False, {(''ip0'', ''r'')})"
    by (simp add: SetRulesAsync_def set_setter_def)
  have dist: "distinct (map fst [(''ip0'', 5 :: u32), (''ip1'', 5)])" by simp
  have new: "\<forall>i<length [(''ip0'', 5 :: u32), (''ip1'', 5)].
      (fst ([(''ip0'', 5 :: u32), (''ip1'', 5)] ! i), ''r'') \<notin> ({} :: (string \<times> string) set)" by simp
  from partial_failure_keeps_rules [OF set_setter_installs dist run new]
  obtain oks where oks: "length oks = 2" "False = (\<forall>b \<in> set oks. b)"
    "\<forall>i<2. (fst ([(''ip0'', 5 :: u32), (''ip1'', 5)] ! i), ''r'') \<in> {(''ip0'', ''r'')} \<longleftrightarrow> oks ! i"
    by (auto simp: numeral_2_eq_2)
  from oks(3) [rule_format, of 0] have "oks ! 0" by simp
  with oks(1,2) show "\<exists>oks. length oks = 2 \<and> \<not> (\<forall>b \<in> set oks. b) \<and> oks ! 0" by blast
qed

text \<open>
  The two caches: an address or a UUID that was found once is found again without any
  call to Lustre, and a failed address lookup is not remembered.
\<close>

theorem lookups_are_cached:
  "(\<forall>ip c' w'. GetIp lustre c w uuid = (ip, c', w') \<and> ip \<noteq> [] \<longrightarrow>
      GetIp lustre c' v uuid = (ip, c', v)) \<and>
   (\<forall>u m' w'. ToUUID lustre m w ost = (u, m', w') \<and> u \<noteq> [] \<longrightarrow>
      ToUUID lustre m' v ost = (u, m', v)) \<and>
   (\<forall>ip w'. c uuid = None \<and> lustre_GetIPOfOst lustre w uuid [] = (False, ip, w') \<longrightarrow>
      GetIp lustre c w uuid = ([], c, w'))"
proof (intro conjI allI impI; elim conjE)
  show "GetIp lustre c' v uuid = (ip, c', v)"
    if "GetIp lustre c w uuid = (ip, c', w')" "ip \<noteq> []" for ip c' w'
    using that by (rule ips.second_lookup_is_free)
  show "ToUUID lustre m' v ost = (u, m', v)"
    if "ToUUID lustre m w ost = (u, m', w')" "u \<noteq> []" for u m' w'
    using that by (rule ids.second_lookup_is_free)
  show "GetIp lustre c w uuid = ([], c, w')"
    if "c uuid = None" "lustre_GetIPOfOst lustre w uuid [] = (False, ip, w')" for ip w'
    using that by (rule GetIp_failure_not_cached)
qed

theorem lookups_are_cached_witness:
  "GetIp demo_lustre [''u'' \<mapsto> ''10.0.0.1''] () ''u'' = (''10.0.0.1'', [''u'' \<mapsto> ''10.0.0.1''], ())"
proof -
  have "GetIp demo_lustre Map.empty () ''u'' = (''10.0.0.1'', [''u'' \<mapsto> ''10.0.0.1''], ())"
    by (simp add: GetIp_def demo_lustre_def)
  with lookups_are_cached [of demo_lustre Map.empty "()" "''u''" "()" Map.empty "''0''"]
  show ?thesis by blast
qed

section \<open>The schedulers\<close>

text \<open>
  C20. The decision of the static scheduler: a job is accepted exactly when its id is free
  and, for every OST, its throughput added to \<open>0\<close> (an OST without job list) or to the content
  of an uninitialised variable (any other OST) is within the OST's configured limit.
\<close>

theorem static_scheduler_decision:
  assumes "mwf m"
  shows "\<exists>j' m'. Static_ScheduleJob limits uninit m j = Some
    ((\<forall>i<length (job_osts j). Static_AreEnoughResAvail limits j (job_osts j ! i)
        (if GetOSTState (mon_schedule m) (job_osts j ! i) = None then 0 else uninit i)) \<and>
     mjobs m (job_id j) = None, j', m')"
  using Static_decision [OF assms] .

theorem static_scheduler_decision_witness:
  "\<exists>j' m'. Static_ScheduleJob demo_limits (\<lambda>n. 0) demo_empty (demo_initialized_job ''a'' 10 20) =
    Some (True, j', m')"
  using static_scheduler_decision [OF mon_invD(1) [OF mon_inv_demo_empty], of demo_limits "\<lambda>n. 0"
      "demo_initialized_job ''a'' 10 20"] demo_enough [of 10 20]
  by (simp add: demo_initialized_job_def demo_empty_def new_monitor_def new_job_def)

text \<open>
  Reserved load is not counted: when the uninitialised variable happens to hold zero, a
  job that fits the limits on its own is accepted however many jobs already hold the same
  OSTs at the same time.
\<close>

theorem reserved_load_is_ignored:
  assumes "mwf m" and "mjobs m (job_id j) = None"
    and "\<forall>ost \<in> set (job_osts j). Static_AreEnoughResAvail limits j ost 0"
  shows "\<exists>j' m'. Static_ScheduleJob limits (\<lambda>n. 0) m j = Some (True, j', m')"
  using Static_decision [OF assms(1), of limits "\<lambda>n. 0" j] assms(2,3) by auto

theorem reserved_load_is_ignored_witness:
  "\<exists>j' m'. Static_ScheduleJob demo_limits (\<lambda>n. 0) demo_monitor
      ((new_job ''b'' 10 20 100)\<lparr>job_osts := [''0'']\<rparr>) = Some (True, j', m')"
proof -
  let ?j = "(new_job ''b'' 10 20 100)\<lparr>job_osts := [''0'']\<rparr>"
  have "mjobs demo_monitor (job_id ?j) = None" by code_simp
  moreover have "Static_AreEnoughResAvail demo_limits ?j ''0'' 0"
    using AreEnoughResAvail_exact [of demo_limits "''0''" 100 0 ?j]
    by (simp add: demo_limits_def new_job_def)
  ultimately show ?thesis
    by (intro reserved_load_is_ignored [OF mon_invD(1) [OF mon_inv_demo_monitor]]) (simp_all add: new_job_def)
qed

text \<open>
  The limit test is exact as long as the sum stays below \<open>2 ^ 24\<close>: against a limit that
  is an integer, comparing as \<open>float\<close> is comparing the integers.
\<close>

theorem limit_test_is_exact:
  assumes "limits ost = Some (of_int l)" and "uint (load + job_throughput j) < 2 ^ 24"
  shows "Static_AreEnoughResAvail limits j ost load \<longleftrightarrow> uint (load + job_throughput j) \<le> l"
  using AreEnoughResAvail_exact [of limits ost l load j] assms by blast

theorem limit_test_is_exact_witness:
  "Static_AreEnoughResAvail demo_limits (new_job ''b'' 10 20 60) ''0'' 40 \<and>
   \<not> Static_AreEnoughResAvail demo_limits (new_job ''b'' 10 20 61) ''0'' 40"
  using limit_test_is_exact [of demo_limits "''0''" 100 40 "new_job ''b'' 10 20 60"]
    limit_test_is_exact [of demo_limits "''0''" 100 40 "new_job ''b'' 10 20 61"]
  by (simp add: demo_limits_def new_job_def)

text \<open>
  C21. A job the dynamic scheduler accepts never starts: it is stored as \<open>INITIALIZED\<close>, and
  \<open>StartJob\<close> refuses it without changing anything.
\<close>

theorem dynamic_job_never_starts:
  assumes "mwf m" and "Dyn_ScheduleJob lustre cs uninit m j = Some (True, j', m')"
    and "job_state j = INITIALIZED"
  shows "mjobs m' (job_id j) = Some j \<and> StartJob env m' (job_id j) = Some (False, m')"
  using dyn.accepted [OF assms(1,2)] Dyn_job_never_starts [OF assms] by simp

theorem dynamic_job_never_starts_witness:
  "\<exists>j' m'. Dyn_ScheduleJob demo_lustre
      (UpdateNode new_cluster_state ''0'' \<lparr>ow_ost = ''u'', currentRpcSec = 0, maxRpcSec = 500\<rparr>)
      (\<lambda>n. 0) demo_empty (demo_initialized_job ''a'' 10 20) = Some (True, j', m') \<and>
    StartJob demo_env m' ''a'' = Some (False, m')"
proof -
  let ?cs = "UpdateNode new_cluster_state ''0'' \<lparr>ow_ost = ''u'', currentRpcSec = 0, maxRpcSec = 500\<rparr>"
  let ?r = "Dyn_ScheduleJob demo_lustre ?cs (\<lambda>n. 0) demo_empty (demo_initialized_job ''a'' 10 20)"
  have "case ?r of None \<Rightarrow> False | Some (b, j', m') \<Rightarrow> b" by code_simp
  then obtain j' m' where r: "?r = Some (True, j', m')" by (auto split: option.splits)
  have "job_state (demo_initialized_job ''a'' 10 20) = INITIALIZED" "job_id (demo_initialized_job ''a'' 10 20) = ''a''"
    by (simp_all add: demo_initialized_job_def new_job_def)
  with dynamic_job_never_starts [OF mon_invD(1) [OF mon_inv_demo_empty] r, of demo_env] r show ?thesis by auto
qed

section \<open>Files, tools and messages\<close>

text \<open>
  C22. A limits file that is an array of entries, each with a name and a number a \<open>float\<close>
  represents, gives exactly these limits, the last entry of a name winning.
\<close>

theorem limits_file_is_parsed:
  assumes "json_parse json file = Some j" and "\<not> json_empty json j"
    and "list_all2 (limit_entry json) (json_elements json j) es"
    and "\<forall>e \<in> set es. float_of_rat (snd e) = Some (snd e)"
  shows "OSTLimitConfigParser_Parse json file = Inr (True, map_of (rev es))"
  using assms(1,2) ParseContent_entries [OF assms(3,4), of Map.empty]
  by (simp add: OSTLimitConfigParser_Parse_def tryToParse_def)

theorem limits_file_is_parsed_witness:
  "OSTLimitConfigParser_Parse demo_json_library ''limits'' = Inr (True, map_of [(''1'', 50), (''0'', 100)])"
proof -
  have parse: "json_parse demo_json_library ''limits'' = Some demo_limits_json"
    and nonempty: "\<not> json_empty demo_json_library demo_limits_json"
    by (simp_all add: demo_json_library_def demo_limits_json_def)
  have entries: "list_all2 (limit_entry demo_json_library)
      (json_elements demo_json_library demo_limits_json) [(''0'', 100), (''1'', 50)]"
    by (simp add: limit_entry_def demo_json_library_def demo_limits_json_def)
  have "float_of_rat (of_int 100) = Some (of_int 100)" "float_of_rat (of_int 50) = Some (of_int 50)"
    by (rule float_of_rat_small_int; simp)+
  then have floats: "\<forall>e \<in> set [(''0'', 100 :: rat), (''1'', 50)]. float_of_rat (snd e) = Some (snd e)"
    by simp
  from limits_file_is_parsed [OF parse nonempty entries floats] show ?thesis by simp
qed

text \<open>
  An update of the cluster state gives every OST that Lustre lists a fresh entry, so that
  a measured load recorded before is lost, and keeps the entry of every other OST, so that an
  OST that is gone stays.
\<close>

theorem cluster_update_resets_listed_osts:
  assumes "lustre_GetOstList lustre w [] [] = (True, r, w')"
  shows "\<exists>cs'. ClusterState_Update lustre cs w = (True, cs', w') \<and>
    (\<forall>ost st. getOstState cs' ost st =
      (case map_of (rev (map (\<lambda>it. (ost_number it, ost_uuid it)) r)) ost of
         None \<Rightarrow> getOstState cs ost st
       | Some uuid \<Rightarrow> (True, \<lparr>ow_ost = uuid, currentRpcSec = 0, maxRpcSec = default_rpc_rate\<rparr>)))"
  using assms by (simp add: ClusterState_Update_def getOstState_def map_of_insert_results split: option.split)

theorem cluster_update_resets_listed_osts_witness:
  "\<exists>cs'. ClusterState_Update demo_lustre
      (UpdateNode new_cluster_state ''0'' \<lparr>ow_ost = ''u'', currentRpcSec = 400, maxRpcSec = 500\<rparr>) () =
      (True, cs', ()) \<and>
    getOstState cs' ''0'' \<lparr>ow_ost = [], currentRpcSec = 1, maxRpcSec = 1\<rparr> =
      (True, \<lparr>ow_ost = ''fs-OST0000_UUID'', currentRpcSec = 0, maxRpcSec = default_rpc_rate\<rparr>)"
proof -
  have "lustre_GetOstList demo_lustre () [] [] =
      (True, [\<lparr>ost_number = ''0'', ost_uuid = ''fs-OST0000_UUID'', ost_status = ''ACTIVE''\<rparr>], ())"
    by (simp add: demo_lustre_def)
  from cluster_update_resets_listed_osts [OF this] show ?thesis by fastforce
qed

text \<open>
  The output of a command that writes no zero byte is collected completely, whatever its
  length; the command's exit status plays no role.
\<close>

theorem exec_collects_the_output:
  assumes "popen w (c_str cmd) = (Some bytes, w')" and "CHR 0x00 \<notin> set bytes"
  shows "exec popen w cmd out = (True, out @ bytes, w')"
  using assms by (simp add: exec_def read_pipe_id)

theorem exec_collects_the_output_witness:
  "exec (\<lambda>w cmd. (Some ''ab'', cmd)) [] ''ls'' ''>'' = (True, ''>ab'', ''ls'')"
  using exec_collects_the_output [of "\<lambda>w cmd. (Some ''ab'', cmd)" "[]" "''ls''" "''ab''" "''ls''" "''>''"]
  by (simp add: c_str_def)



text \<open>
  C24. The parser of \<open>lfs osts\<close>, a regular expression matched against every line, is the scanner
  that reads digits, a colon, an UUID and a status from left to right; and the scanner accepts
  exactly the printed form of an OST, whose fields it returns.
\<close>

theorem ost_parser_is_a_scanner:
  "ParseOstsFromLfsOsts lfs_out out = out @ List.map_filter scan_ost_line (getlines lfs_out) \<and>
   (\<forall>line r. scan_ost_line line = Some r \<longleftrightarrow> ost_result_ok r \<and> line = ost_line r)"
  using ParseOstsFromLfsOsts_scan scan_ost_line_iff by blast

text \<open>
  The OST list: when \<open>lfs osts\<close> prints one well-formed line per OST, \<open>GetOstList\<close>
  returns exactly these OSTs, in order, after what the output parameter held.
\<close>

theorem ost_list_roundtrip:
  assumes "\<forall>r \<in> set rs. ost_result_ok r"
    and "popen w (c_str (''lfs osts '' @ path)) = (Some (concat (map (\<lambda>r. ost_line r @ [CHR 0x0A]) rs)), w')"
  shows "GetOstList popen w path output = (True, output @ rs, w')"
proof -
  have "CHR 0x00 \<notin> set (concat (map (\<lambda>r. ost_line r @ [CHR 0x0A]) rs))"
    using assms(1) ost_line_no_zero by auto
  with assms(2) have "exec popen w (''lfs osts '' @ path) [] =
      (True, concat (map (\<lambda>r. ost_line r @ [CHR 0x0A]) rs), w')"
    by (simp add: exec_def read_pipe_id)
  then show ?thesis using ParseOstsFromLfsOsts_ok [OF assms(1)] by (simp add: GetOstList_def)
qed

theorem ost_list_roundtrip_witness:
  "GetOstList (\<lambda>w cmd. (Some (''0: fs-OST0000_UUID ACTIVE'' @ [CHR 0x0A]), cmd)) [] ''/lustre'' [] =
    (True, [\<lparr>ost_number = ''0'', ost_uuid = ''fs-OST0000_UUID'', ost_status = ''ACTIVE''\<rparr>],
     ''lfs osts /lustre'')"
proof -
  let ?r = "\<lparr>ost_number = ''0'', ost_uuid = ''fs-OST0000_UUID'', ost_status = ''ACTIVE''\<rparr>"
  have ok: "\<forall>r \<in> set [?r]. ost_result_ok r"
    by (simp add: ost_result_ok_def uuid_char_def is_digit_def is_alnum_def is_alpha_def)
  show ?thesis
    using ost_list_roundtrip [OF ok, of "\<lambda>w cmd. (Some (''0: fs-OST0000_UUID ACTIVE'' @ [CHR 0x0A]), cmd)"
        "[]" "''/lustre''" "''lfs osts /lustre''" "[]"]
    by (simp add: ost_line_def c_str_def)
qed



section \<open>Requests from end to end\<close>

text \<open>
  C26. The reply to a listing request. When the expression compiles, the reply has \<open>rc\<close> 0
  and the table of the jobs whose ids it finds, in the order of their ids; it is the text
  about no matches only when no job is stored at all, and empty when jobs exist but none
  matches. The state is not changed.
\<close>

theorem listing_reply:
  assumes "mon_inv (pl_monitor p)"
    and "compile (if lj_regex (listjobsrequest (request msg)) = [] then ''.*''
      else lj_regex (listjobsrequest (request msg))) = Some search"
  shows "\<exists>js msg'. map_of js = mjobs (pl_monitor p) \<and> smap_ok js \<and>
    ServeListJobs compile put_time p msg = Inr (True, msg', p) \<and> rep_rc (reply msg') = 0 \<and>
    rep_return_msg (reply msg') =
      (if js = [] then ''no matches found'' @ [CHR 0x0A]
       else let found = filter (search \<circ> fst) js in
         if found = [] then [] else header_line @ concat (map (job_line put_time \<circ> snd) found))"
  using ServeListJobs_reply [where compile = compile and msg = msg, OF assms] .

theorem listing_reply_witness:
  "\<exists>js msg'. map_of js = mjobs demo_monitor \<and>
    ServeListJobs (\<lambda>e. if e = ''.*'' then Some (\<lambda>k. k \<noteq> ''a'') else None) (\<lambda>t. []) demo_planner demo_list =
      Inr (True, msg', demo_planner) \<and> rep_rc (reply msg') = 0"
proof -
  let ?compile = "\<lambda>e. if e = ''.*'' then Some (\<lambda>k. k \<noteq> ''a'') else None"
  have "lj_regex (listjobsrequest (request demo_list)) = []" by code_simp
  then have "?compile (if lj_regex (listjobsrequest (request demo_list)) = [] then ''.*''
      else lj_regex (listjobsrequest (request demo_list))) = Some (\<lambda>k. k \<noteq> ''a'')" by simp
  from listing_reply [where compile = ?compile and msg = demo_list and put_time = "\<lambda>t. []", OF mon_inv_demo_planner this] show ?thesis
    by (auto simp: demo_planner_def)
qed



text \<open>
  C28. \<open>client reserve\<close> from end to end: a reservation of comma-separated files whose OSTs Lustre
  knows is tried once by the server, and then the schedule has the job with the id, throughput,
  end and OSTs asked for, or it is as before; the client exits with 0 in both cases.
\<close>

theorem client_reservation_end_to_end:
  fixes sur :: "'w Surroundings" and p :: "'w Planner"
  assumes "ns \<noteq> []" "last ns \<noteq> []" "\<forall>n \<in> set ns. CHR '','' \<notin> set n"
    and "0 < sint (FLAGS_duration flags)" "FLAGS_filenames flags = comma_join ns"
      "FLAGS_storage_req_file flags = []"
    and "wire_laws lib" "ascii (FLAGS_id flags)" "list_all ascii ns"
      "text_size (FLAGS_id flags) ns < 2 ^ 30"
    and "mon_inv (pl_monitor p)"
    and "tryComputeOstSetOfRequest (env_lustre (sur_env sur)) (mon_world (pl_monitor p)) ns {} =
      (True, osts, w1)"
    and "add_seconds (sur_now sur) (sint (FLAGS_duration flags)) = Some tend"
    and "j = (new_job (FLAGS_id flags) (sur_now sur) tend (FLAGS_throughput flags))
      \<lparr>job_osts := sur_iterate sur osts\<rparr>"
  shows "\<exists>b p'. execute (server_behind sur (msg_format lib)) (msg_format lib) json read_file uninit ipPort
        flags ''reserve'' (p, r) = Some (0, [], p', None) \<and> mon_inv (pl_monitor p') \<and>
    (if b then mjobs (pl_monitor p) (FLAGS_id flags) = None \<and>
       mjobs (pl_monitor p') = (mjobs (pl_monitor p))(FLAGS_id flags \<mapsto> j\<lparr>job_state := SCHEDULED\<rparr>)
     else mjobs (pl_monitor p') = mjobs (pl_monitor p))"
  using client_reserves_job [OF assms(1-6) reserve_message_readable [OF assms(1-5,7-10)] assms(11-14)] .

theorem client_reservation_end_to_end_witness:
  "\<exists>p'. execute (server_behind demo_surroundings (msg_format demo_wire_lib)) (msg_format demo_wire_lib)
      (undefined :: unit JsonInt) (\<lambda>f. None) 0 ''h:1'' demo_client_flags ''reserve'' (demo_planner, None) =
      Some (0, [], p', None) \<and> mon_inv (pl_monitor p')"
proof -
  have "tryComputeOstSetOfRequest (env_lustre (sur_env demo_surroundings)) (mon_world (pl_monitor demo_planner))
      [''f''] {} = (True, {''0''}, ())" by code_simp
  moreover have "add_seconds (sur_now demo_surroundings) (sint (FLAGS_duration demo_client_flags)) =
      Some 60000001000" by code_simp
  moreover have "0 < sint (FLAGS_duration demo_client_flags)"
    "FLAGS_filenames demo_client_flags = comma_join [''f'']"
    "FLAGS_storage_req_file demo_client_flags = []" "ascii (FLAGS_id demo_client_flags)" "list_all ascii [''f'']"
    by (simp_all add: demo_client_flags_def default_ClientFlags_def ascii_def)
  moreover have "text_size (FLAGS_id demo_client_flags) [''f''] < 2 ^ 30"
    by (simp add: demo_client_flags_def default_ClientFlags_def text_size_def)
  ultimately show ?thesis
    using client_reservation_end_to_end [where ns = "[''f'']" and sur = demo_surroundings and p = demo_planner
        and flags = demo_client_flags and lib = demo_wire_lib and json = "undefined :: unit JsonInt"
        and read_file = "\<lambda>f. None" and uninit = 0 and ipPort = "''h:1''" and r = None,
        OF _ _ _ _ _ _ demo_wire_laws _ _ _ mon_inv_demo_planner _ _ refl]
    by fastforce
qed

text \<open>
  C29. Messages survive the wire: what the generated serializer writes of a message with named
  types and ASCII text the generated parser reads back, and it is exactly as long as the size
  that was announced, and allocated, for it.
\<close>

theorem messages_survive_the_wire:
  assumes "wire_laws lib" and "plain_Message m" and "Message_ByteSize lib m < size_limit"
  shows "msg_parse (msg_format lib) (msg_serialize (msg_format lib) m) = (True, m) \<and>
    length (msg_serialize (msg_format lib) m) = Message_ByteSize lib m"
  using rpc_message.parse_serialize [OF assms] rpc_message.serialized_size [OF assms(1,3)]
  by (simp add: msg_format_def)

theorem messages_survive_the_wire_witness:
  "msg_parse (msg_format demo_wire_lib) (msg_serialize (msg_format demo_wire_lib)
      (reserve_message demo_client_flags)) = (True, reserve_message demo_client_flags)"
proof -
  have "plain_Message (reserve_message demo_client_flags)" by code_simp
  moreover have "Message_ByteSize demo_wire_lib (reserve_message demo_client_flags) < size_limit"
    by (rule reserve_message_size [of "[''f'']", OF _ _ _ _ _ demo_wire_laws])
      (simp_all add: demo_client_flags_def default_ClientFlags_def text_size_def)
  ultimately show ?thesis using messages_survive_the_wire [OF demo_wire_laws] by blast
qed

text \<open>
  C30. Whatever bytes arrive, the generated parsers of the server and of the rule server return,
  with a message and whether it is all that was sent.
\<close>

theorem every_parse_returns:
  assumes "stream_laws lib" and "read_laws lib"
  shows "(\<exists>ok m. parse_from_string (Message_Merge lib) default_Message raw = Some (ok, m)) \<and>
    (\<exists>ok m. parse_from_string (OSSCommandMessage_Merge lib) default_OSSCommandMessage raw = Some (ok, m))"
  using rpc_message.parse_returns [OF assms] command_message.parse_returns [OF assms] by blast

theorem every_parse_returns_witness:
  "\<exists>ok m. parse_from_string (Message_Merge demo_wire_lib) default_Message [CHR 0xFF, CHR 0x00] = Some (ok, m)"
  using every_parse_returns [OF demo_stream_laws demo_read_laws] by blast

text \<open>
  C31. A job id that is not UTF-8 is lost: the client's serializer writes it, the server's parser
  refuses the message, the planner is as before, and the client exits with 0 as after a success.
\<close>

theorem id_that_is_not_utf8_is_lost:
  assumes "ns \<noteq> []" "last ns \<noteq> []" "\<forall>n \<in> set ns. CHR '','' \<notin> set n"
    and "0 < sint (FLAGS_duration flags)" "FLAGS_filenames flags = comma_join ns"
      "FLAGS_storage_req_file flags = []"
    and "wire_laws lib" and "\<not> VerifyUtf8String lib (FLAGS_id flags)"
    and "text_size (FLAGS_id flags) ns < 2 ^ 30"
  shows "execute (server_behind sur (msg_format lib)) (msg_format lib) json read_file uninit ipPort flags
    ''reserve'' (p, r) = Some (0, [], p, None)"
  by (rule client_reservation_dropped [OF assms])

theorem id_that_is_not_utf8_is_lost_witness:
  "execute (server_behind demo_surroundings (msg_format demo_wire_lib)) (msg_format demo_wire_lib)
    (undefined :: unit JsonInt) (\<lambda>f. None) 0 ''h:1'' (demo_client_flags\<lparr>FLAGS_id := [CHR 0xFF]\<rparr>) ''reserve''
    (demo_planner, None) = Some (0, [], demo_planner, None)"
proof (rule id_that_is_not_utf8_is_lost [where ns = "[''f'']", OF _ _ _ _ _ _ demo_wire_laws])
  let ?flags = "demo_client_flags\<lparr>FLAGS_id := [CHR 0xFF]\<rparr>"
  show "\<not> VerifyUtf8String demo_wire_lib (FLAGS_id ?flags)"
    by (simp add: demo_wire_lib_def ascii_def)
  show "text_size (FLAGS_id ?flags) [''f''] < 2 ^ 30" by (simp add: text_size_def)
qed (simp_all add: demo_client_flags_def default_ClientFlags_def)

text \<open>
  What the client asks for is what the planner is asked: a reservation of comma-separated
  file names builds a request that the server dispatches to the submission of a job with this
  id, throughput, duration and list of files.
\<close>

theorem reservation_reaches_the_planner:
  assumes "ns \<noteq> []" and "last ns \<noteq> []" and "\<forall>n \<in> set ns. CHR '','' \<notin> set n"
    and "0 < sint duration"
  shows "\<exists>msg. TryBuildReserveMessage jobid (comma_join ns) throughput duration default_Message = (True, msg) \<and>
    msg_type msg = REQUEST \<and>
    rr_id (resourcerequest (request msg)) = jobid \<and>
    rr_throughputmb (resourcerequest (request msg)) = throughput \<and>
    sint (rr_durationsec (resourcerequest (request msg))) = sint duration \<and>
    rr_files (resourcerequest (request msg)) = ns \<and>
    ProcessMessage sur p msg = ServeJobSubmission (sur_env sur) (sur_uninit sur) (sur_iterate sur)
      (sur_now sur) p msg"
  using assms(4) addFilenames_join [OF assms(1-3)]
  by (simp add: TryBuildReserveMessage_def Reserve_BuildRequest_def ProcessMessage_def
      default_Message_def default_Request_def default_ResourceRequest_def resourcerequest_def
      mutable_resourcerequest_def sint_scast_up)

theorem reservation_reaches_the_planner_witness:
  "\<exists>msg. TryBuildReserveMessage ''j'' ''f,g'' 7 60 default_Message = (True, msg) \<and>
    rr_files (resourcerequest (request msg)) = [''f'', ''g'']"
  using reservation_reaches_the_planner [of "[''f'', ''g'']" 60 "''j''" 7 demo_surroundings demo_planner]
  by auto

text \<open>
  C32. What the server sends: in a turn that goes on, the request was a reply and nothing was
  sent, or the serialization of a message of type \<open>REPLY\<close> without a request was.
\<close>

theorem server_sends_only_replies:
  assumes "Serve_turn sur wire (p, z) = Inr (p', z')"
  shows "\<exists>raw z1 msg. wire_recv wire z = Some (raw, z1) \<and>
    (if fst (ParseFromString wire raw) \<and> msg_type (snd (ParseFromString wire raw)) = REPLY
     then z' = z1 \<and> p' = p
     else wire_send wire z1 (SerializeAsString wire msg) = Some z' \<and>
       msg_type msg = REPLY \<and> \<not> has_request msg)"
  using assms by (rule Serve_turn_sends)

theorem server_sends_only_replies_witness:
  "\<exists>msg p'. Serve_turn demo_surroundings demo_wire (demo_planner, [''nonsense''], [], False) =
      Inr (p', [], [SerializeAsString demo_wire msg], False) \<and> msg_type msg = REPLY"
proof -
  have run: "Serve_turn demo_surroundings demo_wire (demo_planner, [''nonsense''], [], False) =
      Inr (demo_planner, [], [''answer''], False)"
    by (simp add: Serve_turn_def demo_wire_def)
  from server_sends_only_replies [OF run] show ?thesis
    using run by (auto simp: demo_wire_def default_Message_def split: if_splits)
qed





text \<open>
  C35. A silent server: the request is sent \<open>kRequestRetries\<close> times and then given up, and
  every repetition ends at the first zero byte of the message.
\<close>

theorem silent_server_is_tried_three_times:
  assumes "\<forall>w. req_poll sock w = Some (False, w)" and "\<forall>w s. req_send sock w s = Some (w @ [s])"
    and "\<forall>w a. req_reset sock w a = Some w"
  shows "SendAndReceiveRequest sock ipPort raw answer w =
    Some (False, answer, w @ [raw, c_str raw, c_str raw])"
  using assms poll_loop_silent [of sock ipPort raw 2 answer "w @ [raw]"]
  by (simp add: SendAndReceiveRequest_def kRequestRetries_def numeral_2_eq_2)

theorem silent_server_is_tried_three_times_witness:
  "SendAndReceiveRequest silent_socket ''h:1'' (''x'' @ [CHR 0x00] @ ''y'') [] [] =
    Some (False, [], [''x'' @ [CHR 0x00] @ ''y'', ''x'', ''x''])"
  using silent_server_is_tried_three_times [of silent_socket "''h:1''" "''x'' @ [CHR 0x00] @ ''y''" "[]" "[]"]
  by (simp add: silent_socket_def c_str_def)



text \<open>
  C37. The stub cannot be destroyed after it was used: its destructor closes the context while
  the socket of the last command is open, for which the library waits forever.
\<close>

theorem stub_destructor_blocks:
  assumes "tracks_sockets lib live" and "ip \<noteq> []" and "s = 0 \<or> live w s \<noteq> None"
    and "RemotelyExecuteCmd (zmq_requester lib ctx) wire (w, s) ip cmd = Some (b, (w', s'))"
  shows "OssStub_delete lib \<lparr>stub_context = ctx, stub_socket = s'\<rparr> w' = Inl Blocks"
  using OssStub_delete_blocks [OF assms(1) RemotelyExecuteCmd_live [OF assms]] .

theorem stub_destructor_blocks_witness:
  "\<exists>w' s'. RemotelyExecuteCmd (zmq_requester demo_zmq 7) demo_oss_wire (empty_zmq_world, 0) ''10.0.0.1''
      ''lctl'' = Some (False, (w', s')) \<and>
    OssStub_delete demo_zmq \<lparr>stub_context = 7, stub_socket = s'\<rparr> w' = Inl Blocks"
proof -
  let ?run = "RemotelyExecuteCmd (zmq_requester demo_zmq 7) demo_oss_wire (empty_zmq_world, 0) ''10.0.0.1'' ''lctl''"
  have "case ?run of None \<Rightarrow> False | Some (b, w, s) \<Rightarrow> \<not> b" by code_simp
  then obtain w' s' where run: "?run = Some (False, (w', s'))" by (auto split: option.splits)
  from stub_destructor_blocks [OF demo_zmq_tracks _ _ run] run show ?thesis by simp
qed

text \<open>
  Strings survive the socket: what \<open>s_send\<close> put on a socket is what \<open>s_recv\<close> takes from its
  peer, zero bytes included, in the order it was sent.
\<close>

theorem strings_survive_the_socket:
  assumes "carries lib p q view" and "view w = ([], False)"
    and "s_send lib p s w = Inr (True, w1)" and "s_send lib p s' w1 = Inr (True, w2)"
  shows "\<exists>w3. s_recv lib q w2 = Inr (s, w3) \<and> fst (view w3) = [s']"
proof -
  have "view w2 = (s # [s'], False)"
    using s_send_carries [OF assms(1,3)] s_send_carries [OF assms(1,4)] assms(2) by simp
  from s_recv_carries [OF assms(1) this] show ?thesis by auto
qed

theorem strings_survive_the_socket_witness:
  "\<exists>w1 w2 w3. s_send demo_zmq 1 ''a'' empty_zmq_world = Inr (True, w1) \<and>
    s_send demo_zmq 1 [CHR 0x00] w1 = Inr (True, w2) \<and> s_recv demo_zmq 2 w2 = Inr (''a'', w3)"
proof -
  let ?w = "empty_zmq_world"
  obtain w1 where w1: "s_send demo_zmq 1 ''a'' ?w = Inr (True, w1)"
    by (simp add: s_send_def message_size_def message_destroy_def socket_send_def zmq_call_defs Let_def
        demo_zmq_def demo_send_def)
  obtain w2 where w2: "s_send demo_zmq 1 [CHR 0x00] w1 = Inr (True, w2)"
    by (simp add: s_send_def message_size_def message_destroy_def socket_send_def zmq_call_defs Let_def
        demo_zmq_def demo_send_def)
  have "zw_peer 1 \<noteq> 1" "zw_peer 1 = 2" by (simp_all add: zw_peer_def)
  with strings_survive_the_socket [OF demo_zmq_carries [of 1] _ w1 w2] w1 w2 show ?thesis
    by (auto simp: empty_zmq_world_def)
qed

text \<open>
  A message of type \<open>REPLY\<close> stops the server: the turn that receives it sends nothing,
  and the next turn's receive throws, which nothing catches.
\<close>

theorem reply_message_stops_the_server:
  assumes "rep_socket wire waiting" and "wire_recv wire z = Some (raw, z1)"
    and "ParseFromString wire raw = (True, msg)" and "msg_type msg = REPLY"
  shows "Serve wire [sur, sur'] (p, z) = Inl SocketError"
proof -
  have "waiting z1" using assms(1,2) by (auto simp: rep_socket_def)
  with rep_socket_recv [OF assms(1)] assms(2-4) show ?thesis by (simp add: Serve_turn_def)
qed

theorem reply_message_stops_the_server_witness:
  "Serve demo_wire [demo_surroundings, demo_surroundings]
    (demo_planner, [''reply'', ''remove''], [], False) = Inl SocketError"
proof (rule reply_message_stops_the_server [OF demo_wire_rep])
  show "wire_recv demo_wire ([''reply'', ''remove''], [], False) = Some (''reply'', [''remove''], [], True)"
    by (simp add: demo_wire_def)
  show "ParseFromString demo_wire ''reply'' = (True, default_Message\<lparr>msg_type := REPLY\<rparr>)"
    by (simp add: demo_wire_def)
qed simp

text \<open>
  The exit code of \<open>client reserve\<close> says whether the server answered, not what: with valid
  flags the client exits with 0 for every answer, a refusal or nonsense included, and with -1
  when no answer came.
\<close>

theorem reserve_exit_code:
  assumes "FLAGS_storage_req_file flags = []" and "FLAGS_filenames flags \<noteq> []"
    and "0 < sint (FLAGS_duration flags)"
    and "TryBuildReserveMessage (FLAGS_id flags) (FLAGS_filenames flags) (FLAGS_throughput flags)
      (FLAGS_duration flags) default_Message = (built, msg)"
    and "SendAndReceiveRequest sock ipPort (msg_serialize wire msg) [] w = Some (answered, raw, w')"
  shows "execute sock wire json read_file uninit ipPort flags ''reserve'' w =
    Some (if answered then 0 else - 1, [], w')"
proof -
  have "built" using assms(3,4) by (auto simp: TryBuildReserveMessage_def Reserve_BuildRequest_def Let_def)
  with assms show ?thesis
    by (cases answered) (simp_all add: execute_def TryReserveResources_def IsInputValid_def TrySendRequestAndReceiveReply_def)
qed

theorem reserve_exit_code_witness:
  "execute refusing_server refusal_format (undefined :: unit JsonInt) (\<lambda>f. None) 0 ''h:1''
      demo_client_flags ''reserve'' () = Some (0, [], ()) \<and>
    rep_rc (reply (snd (msg_parse refusal_format ''refused''))) = - 1"
proof -
  have "SendAndReceiveRequest refusing_server ''h:1'' raw [] () = Some (True, ''refused'', ())" for raw
    by (simp add: SendAndReceiveRequest_def refusing_server_def poll_loop.simps)
  moreover obtain built msg where "TryBuildReserveMessage (FLAGS_id demo_client_flags)
      (FLAGS_filenames demo_client_flags) (FLAGS_throughput demo_client_flags)
      (FLAGS_duration demo_client_flags) default_Message = (built, msg)" by (meson surj_pair)
  ultimately have "execute refusing_server refusal_format (undefined :: unit JsonInt) (\<lambda>f. None) 0 ''h:1''
      demo_client_flags ''reserve'' () = Some (0, [], ())"
    using reserve_exit_code [of demo_client_flags built msg refusing_server "''h:1''" refusal_format "()"
        True "''refused''" "()"]
    by (simp add: demo_client_flags_def default_ClientFlags_def)
  then show ?thesis by (simp add: refusal_format_def mutable_reply_def accessor_defs)
qed

section \<open>The two threads\<close>



text \<open>
  C39. No deadlock over a job: a thread that waits for a job in flight waits for the other
  thread, and the other thread can take its next step.
\<close>

theorem blocked_thread_waits_for_a_running_one:
  assumes "reachable env w (mp, sp, m)"
  shows "(mp = MPopped k e \<longrightarrow> mon_step env now mp m = None \<longrightarrow>
      k \<in> srv_holds sp \<and> srv_step env sp m \<noteq> None) \<and>
    (sp = SBlock k \<longrightarrow> srv_step env sp m = None \<longrightarrow>
      k \<in> mon_holds mp \<and> mon_step env now mp m \<noteq> None)"
  using blocked_waits_for_holder [OF reachable_inv [OF assms]] by blast

theorem blocked_thread_waits_for_a_running_one_witness:
  "\<exists>mp sp m. reachable demo_env () (mp, sp, m) \<and> mp = MPopped ''a'' JOBSTART \<and>
    mon_step demo_env 0 mp m = None \<and> ''a'' \<in> srv_holds sp \<and> srv_step demo_env sp m \<noteq> None"
proof -
  obtain mp sp m where t: "reachable demo_env () (mp, sp, m)" "mp = MPopped ''a'' JOBSTART"
    "mon_step demo_env 0 mp m = None"
    using run_reaches [OF wait_run] by (auto simp: monitor_waits_def split: prod.splits)
  from blocked_thread_waits_for_a_running_one [OF t(1), of "''a''" JOBSTART 0] t show ?thesis by blast
qed

text \<open>
  The sequential model is a case of the concurrent one: handling an event is a run of
  the monitor thread's steps, and deleting a job is a run of the server thread's.
\<close>

theorem sequential_calls_are_runs:
  "(Handle env m k e = Some m' \<longrightarrow> mon_runs env (MPopped k e, m) (MTest, m')) \<and>
   (delete_job env m k = Some (b, m') \<longrightarrow> srv_runs env (SBlock k, m) (SIdle, m'))"
  using Handle_runs delete_job_runs by blast

theorem sequential_calls_are_runs_witness:
  "\<exists>m'. mon_runs demo_env (MPopped ''a'' JOBSTART, demo_monitor\<lparr>job_priority_queue := []\<rparr>) (MTest, m') \<and>
    mrules m' ''a'' \<noteq> None"
proof -
  have "case Handle demo_env (demo_monitor\<lparr>job_priority_queue := []\<rparr>) ''a'' JOBSTART of
      None \<Rightarrow> False | Some m' \<Rightarrow> mrules m' ''a'' \<noteq> None" by code_simp
  then obtain m' where "Handle demo_env (demo_monitor\<lparr>job_priority_queue := []\<rparr>) ''a'' JOBSTART = Some m'"
    "mrules m' ''a'' \<noteq> None"
    by (auto split: option.splits)
  with sequential_calls_are_runs [of demo_env] show ?thesis by blast
qed


text \<open>
  Both threads can be inside the rule manager, whose map has no lock, at the same time.
\<close>

theorem rule_manager_is_shared_unlocked:
  "\<exists>t. reachable demo_env () t \<and> both_in_rule_manager t"
  by (rule run_reaches [OF rules_run])

end
